(* ===== verification/Prelude.thy ===== *)
theory Prelude
  imports Main
begin

text \<open>
  Shared vocabulary of the development: the named collections that the component proofs
  draw on, Go's 64-bit signed arithmetic with its wrap-around and truncating division, and
  database tables as lists of rows with the statement shapes of the program's SQL (select,
  update and delete by predicate, insert under a key).
\<close>

named_theorems sql_simps \<open>how the statement shapes act on a table\<close>
named_theorems stmt_defs \<open>definitions of the SQL statements\<close>
named_theorems go_defs \<open>definitions of the program's small pure functions\<close>

section \<open>Signed 64-bit integers\<close>

text \<open>
  Go's \<open>int\<close>, \<open>int64\<close> and \<open>time.Duration\<close> are read as HOL integers. Where an
  arithmetic operation of the source can leave the 64-bit range, the model applies
  \<open>wrap64\<close>, the two's complement wrap-around; division is \<open>quot\<close>, which truncates
  towards zero.
\<close>

definition wrap64 :: "int \<Rightarrow> int" where
  "wrap64 x = (x + 2 ^ 63) mod 2 ^ 64 - 2 ^ 63"

definition int64_range :: "int \<Rightarrow> bool" where
  "int64_range x \<longleftrightarrow> - (2 ^ 63) \<le> x \<and> x < 2 ^ 63"

definition quot :: "int \<Rightarrow> int \<Rightarrow> int" where
  "quot a b = sgn a * sgn b * (\<bar>a\<bar> div \<bar>b\<bar>)"

definition remainder :: "int \<Rightarrow> int \<Rightarrow> int" where
  "remainder a b = a - quot a b * b"

section \<open>Results with an error\<close>

text \<open>\<open>x, err := m; if err != nil { return err }\<close>, followed by the rest on \<open>x\<close>.\<close>

definition bind_result :: "'e + 'a \<Rightarrow> ('a \<Rightarrow> 'e + 'b) \<Rightarrow> 'e + 'b" where
  "bind_result m f = (case m of Inl e \<Rightarrow> Inl e | Inr x \<Rightarrow> f x)"

lemma bind_result_simps [simp]:
  "bind_result (Inl e) f = Inl e"
  "bind_result (Inr x) f = f x"
  by (simp_all add: bind_result_def)

lemma bind_result_Inr: "bind_result m f = Inr y \<longleftrightarrow> (\<exists>x. m = Inr x \<and> f x = Inr y)"
  by (cases m) auto

section \<open>Tables as lists of rows\<close>

definition update_where :: "('r \<Rightarrow> bool) \<Rightarrow> ('r \<Rightarrow> 'r) \<Rightarrow> 'r list \<Rightarrow> 'r list" where
  "update_where p f rows = map (\<lambda>r. if p r then f r else r) rows"

definition delete_where :: "('r \<Rightarrow> bool) \<Rightarrow> 'r list \<Rightarrow> 'r list" where
  "delete_where p rows = filter (\<lambda>r. \<not> p r) rows"

definition select_where :: "('r \<Rightarrow> bool) \<Rightarrow> 'r list \<Rightarrow> 'r list" where
  "select_where p rows = filter p rows"

definition affected :: "('r \<Rightarrow> bool) \<Rightarrow> 'r list \<Rightarrow> nat" where
  "affected p rows = length (filter p rows)"

text \<open>The single row a query for one row reads: the first of the result, if any.\<close>

definition first_where :: "('r \<Rightarrow> bool) \<Rightarrow> 'r list \<Rightarrow> 'r option" where
  "first_where p rows = find p rows"

definition unique_by :: "('r \<Rightarrow> 'k) \<Rightarrow> 'r list \<Rightarrow> bool" where
  "unique_by key rows \<longleftrightarrow> distinct (map key rows)"

section \<open>Facts on 64-bit arithmetic\<close>

lemma wrap64_id [simp]: "int64_range x \<Longrightarrow> wrap64 x = x"
  by (simp add: wrap64_def int64_range_def)

lemma wrap64_range [simp]: "int64_range (wrap64 x)"
proof -
  have "0 \<le> (x + 2 ^ 63) mod 2 ^ 64 \<and> (x + 2 ^ 63) mod 2 ^ 64 < 2 ^ 64"
    by simp
  then show ?thesis by (simp add: wrap64_def int64_range_def)
qed

lemma wrap64_shift: "wrap64 (x + k * 2 ^ 64) = wrap64 x"
proof -
  have "(x + k * 2 ^ 64 + 2 ^ 63) mod 2 ^ 64 = (x + 2 ^ 63 + k * 2 ^ 64) mod 2 ^ 64"
    by (simp only: ac_simps)
  also have "\<dots> = (x + 2 ^ 63) mod 2 ^ 64" by (rule mod_mult_self1)
  finally show ?thesis by (simp only: wrap64_def)
qed

lemma quot_nonneg: "0 \<le> a \<Longrightarrow> 0 < b \<Longrightarrow> quot a b = a div b"
  by (cases "a = 0") (auto simp: quot_def)

lemma remainder_nonneg: "0 \<le> a \<Longrightarrow> 0 < b \<Longrightarrow> remainder a b = a mod b"
  by (simp add: remainder_def quot_nonneg minus_div_mult_eq_mod)

section \<open>Facts on tables\<close>

lemma length_update_where [simp]: "length (update_where p f rows) = length rows"
  by (simp add: update_where_def)

lemma set_update_where:
  "set (update_where p f rows) = {if p r then f r else r |r. r \<in> set rows}"
  by (auto simp: update_where_def)

lemma in_update_where:
  "r' \<in> set (update_where p f rows) \<Longrightarrow>
    \<exists>r \<in> set rows. (p r \<and> r' = f r) \<or> (\<not> p r \<and> r' = r)"
  by (auto simp: update_where_def split: if_splits)

lemma update_where_none [sql_simps]: "\<forall>r \<in> set rows. \<not> p r \<Longrightarrow> update_where p f rows = rows"
  unfolding update_where_def by (rule map_idI) simp

lemma delete_where_none [sql_simps]: "\<forall>r \<in> set rows. \<not> p r \<Longrightarrow> delete_where p rows = rows"
  by (simp add: delete_where_def)

lemma set_delete_where [simp]: "set (delete_where p rows) = {r \<in> set rows. \<not> p r}"
  by (simp add: delete_where_def)

lemma set_select_where [simp]: "set (select_where p rows) = {r \<in> set rows. p r}"
  by (simp add: select_where_def)

lemma map_update_where_key:
  "(\<And>r. p r \<Longrightarrow> key (f r) = key r) \<Longrightarrow> map key (update_where p f rows) = map key rows"
  by (auto simp: update_where_def)

lemma unique_by_update [intro]:
  "(\<And>r. p r \<Longrightarrow> key (f r) = key r) \<Longrightarrow> unique_by key rows \<Longrightarrow>
    unique_by key (update_where p f rows)"
  by (simp add: unique_by_def map_update_where_key)

lemma unique_by_delete [intro]: "unique_by key rows \<Longrightarrow> unique_by key (delete_where p rows)"
  by (simp add: unique_by_def delete_where_def distinct_map_filter)

lemma unique_by_append [intro]:
  "unique_by key rows \<Longrightarrow> \<forall>r \<in> set rows. key r \<noteq> key x \<Longrightarrow> unique_by key (rows @ [x])"
  by (auto simp: unique_by_def)

lemma unique_by_Nil [simp]: "unique_by key []"
  by (simp add: unique_by_def)

lemma unique_by_same:
  "unique_by key rows \<Longrightarrow> r \<in> set rows \<Longrightarrow> s \<in> set rows \<Longrightarrow> key r = key s \<Longrightarrow> r = s"
  unfolding unique_by_def by (meson distinct_map inj_on_def)

lemma first_where_Some:
  "first_where p rows = Some r \<Longrightarrow> r \<in> set rows \<and> p r"
  by (auto simp: first_where_def find_Some_iff)

lemma first_where_None: "first_where p rows = None \<longleftrightarrow> (\<forall>r \<in> set rows. \<not> p r)"
  by (auto simp: first_where_def find_None_iff)

text \<open>Under a unique key, a query by key finds the row itself.\<close>

lemma first_where_unique:
  assumes "unique_by key rows" "r \<in> set rows" "p r" "\<And>s. p s \<Longrightarrow> key s = key r"
  shows "first_where p rows = Some r"
proof (cases "first_where p rows")
  case None
  then show ?thesis using assms(2,3) by (auto simp: first_where_None)
next
  case (Some s)
  then have s: "s \<in> set rows" "p s" by (auto dest: first_where_Some)
  have "s = r"
    by (rule unique_by_same[OF assms(1) s(1) assms(2) assms(4)[OF s(2)]])
  with Some show ?thesis by simp
qed

lemma filter_unique:
  assumes "unique_by key rows" "r \<in> set rows" "p r" "\<And>s. p s \<Longrightarrow> key s = key r"
  shows "filter p rows = [r]"
  using assms(1,2)
proof (induction rows)
  case (Cons a rows)
  show ?case
  proof (cases "a = r")
    case True
    have "\<not> p s" if "s \<in> set rows" for s
    proof
      assume "p s"
      then have "key s = key a" using assms(4) True by blast
      moreover have "key s \<in> key ` set rows" using that by simp
      ultimately show False using Cons.prems(1) by (simp add: unique_by_def)
    qed
    then have "filter p rows = []" by (simp add: filter_empty_conv)
    with True assms(3) show ?thesis by simp
  next
    case False
    then have "r \<in> set rows" using Cons.prems(2) by simp
    moreover have "key a \<noteq> key r"
      using Cons.prems(1) \<open>r \<in> set rows\<close> unfolding unique_by_def by fastforce
    then have "\<not> p a" using assms(4) by blast
    ultimately show ?thesis using Cons.IH Cons.prems(1) by (simp add: unique_by_def)
  qed
qed simp

lemma affected_unique:
  assumes "unique_by key rows" "r \<in> set rows" "p r" "\<And>s. p s \<Longrightarrow> key s = key r"
  shows "affected p rows = 1"
proof -
  have "filter p rows = [r]" by (rule filter_unique[where key = key and p = p, OF assms])
  then show ?thesis by (simp add: affected_def)
qed

lemma affected_0 [simp]: "affected p rows = 0 \<longleftrightarrow> (\<forall>r \<in> set rows. \<not> p r)"
  by (simp add: affected_def filter_empty_conv)

lemma affected_le1:
  assumes "unique_by key rows" "\<And>r s. p r \<Longrightarrow> p s \<Longrightarrow> key r = key s"
  shows "affected p rows \<le> 1"
proof (cases "\<exists>r \<in> set rows. p r")
  case True
  then obtain r where r: "r \<in> set rows" "p r" by blast
  have "affected p rows = 1"
    by (rule affected_unique[where p = p and key = key, OF assms(1) r])
       (rule assms(2)[OF _ r(2)])
  then show ?thesis by simp
next
  case False
  then have "filter p rows = []" by (simp add: filter_empty_conv)
  then show ?thesis by (simp add: affected_def)
qed

end
