(* ===== verification/Go_Strings.thy ===== *)
theory Go_Strings
  imports Prelude
begin

text \<open>
  Go strings. A Go string is a sequence of bytes, here a \<open>char list\<close> (HOL's \<open>char\<close> is a
  byte). The functions of \<open>unicode/utf8\<close>, \<open>strings\<close> and \<open>strconv\<close> that the program calls are
  defined on it: UTF-8 decoding with Go's treatment of invalid bytes (one \<open>RuneError\<close> of
  width 1 each), rune counting, \<open>TrimSpace\<close>, \<open>ToUpper\<close>, \<open>ToLower\<close>, \<open>Contains\<close> and decimal
  printing. The case tables of the Unicode version Go ships with are an argument: the
  functions \<open>up\<close> and \<open>lo\<close> on runes beyond ASCII.
\<close>

type_synonym rune = nat

definition byte_val :: "char \<Rightarrow> nat" where
  "byte_val c = of_char c"

definition byte_chr :: "nat \<Rightarrow> char" where
  "byte_chr n = char_of n"

definition RuneError :: rune where
  "RuneError = 65533"

definition is_cont :: "nat \<Rightarrow> bool" where
  "is_cont b \<longleftrightarrow> 128 \<le> b \<and> b \<le> 191"

text \<open>\<open>utf8.DecodeRuneInString\<close>: the first rune of the bytes and its width.\<close>

fun decode_rune :: "nat list \<Rightarrow> rune \<times> nat" where
  "decode_rune [] = (RuneError, 0)"
| "decode_rune (b0 # bs) =
     (if b0 < 128 then (b0, 1)
      else if 194 \<le> b0 \<and> b0 \<le> 223 then
        (case bs of
           b1 # _ \<Rightarrow> if is_cont b1 then ((b0 - 192) * 64 + (b1 - 128), 2) else (RuneError, 1)
         | _ \<Rightarrow> (RuneError, 1))
      else if 224 \<le> b0 \<and> b0 \<le> 239 then
        (case bs of
           b1 # b2 # _ \<Rightarrow>
             if (if b0 = 224 then 160 else 128) \<le> b1 \<and> b1 \<le> (if b0 = 237 then 159 else 191) \<and> is_cont b2
             then ((b0 - 224) * 4096 + (b1 - 128) * 64 + (b2 - 128), 3) else (RuneError, 1)
         | _ \<Rightarrow> (RuneError, 1))
      else if 240 \<le> b0 \<and> b0 \<le> 244 then
        (case bs of
           b1 # b2 # b3 # _ \<Rightarrow>
             if (if b0 = 240 then 144 else 128) \<le> b1 \<and> b1 \<le> (if b0 = 244 then 143 else 191)
                \<and> is_cont b2 \<and> is_cont b3
             then ((b0 - 240) * 262144 + (b1 - 128) * 4096 + (b2 - 128) * 64 + (b3 - 128), 4)
             else (RuneError, 1)
         | _ \<Rightarrow> (RuneError, 1))
      else (RuneError, 1))"

text \<open>The runes of a string with the bytes each was decoded from.\<close>

fun chunks :: "string \<Rightarrow> (rune \<times> string) list" where
  "chunks [] = []"
| "chunks (c # cs) =
     (let (r, n) = decode_rune (map byte_val (c # cs))
      in (r, c # take (n - 1) cs) # chunks (drop (n - 1) cs))"

definition runes :: "string \<Rightarrow> rune list" where
  "runes s = map fst (chunks s)"

definition RuneCountInString :: "string \<Rightarrow> nat" where
  "RuneCountInString s = length (chunks s)"

text \<open>\<open>utf8.AppendRune\<close>: surrogates and values out of range become \<open>RuneError\<close>.\<close>

definition encode_rune :: "rune \<Rightarrow> string" where
  "encode_rune r =
     map byte_chr
       (if r < 128 then [r]
        else if r < 2048 then [192 + r div 64, 128 + r mod 64]
        else if 1114111 < r \<or> (55296 \<le> r \<and> r \<le> 57343) then [239, 191, 189]
        else if r < 65536 then [224 + r div 4096, 128 + r div 64 mod 64, 128 + r mod 64]
        else [240 + r div 262144, 128 + r div 4096 mod 64, 128 + r div 64 mod 64, 128 + r mod 64])"

definition valid_utf8 :: "string \<Rightarrow> bool" where
  "valid_utf8 s \<longleftrightarrow> list_all (\<lambda>(r, bs). bs = encode_rune r) (chunks s)"

text \<open>What \<open>encoding/json\<close> keeps of a string: invalid bytes are replaced.\<close>

definition to_valid_utf8 :: "string \<Rightarrow> string" where
  "to_valid_utf8 s = concat (map encode_rune (runes s))"

definition is_ascii :: "string \<Rightarrow> bool" where
  "is_ascii s \<longleftrightarrow> list_all (\<lambda>c. byte_val c < 128) s"

text \<open>\<open>unicode.IsSpace\<close>.\<close>

definition IsSpace :: "rune \<Rightarrow> bool" where
  "IsSpace r \<longleftrightarrow>
     (9 \<le> r \<and> r \<le> 13) \<or> r = 32 \<or> r = 133 \<or> r = 160 \<or> r = 5760 \<or> (8192 \<le> r \<and> r \<le> 8202)
     \<or> r = 8232 \<or> r = 8233 \<or> r = 8239 \<or> r = 8287 \<or> r = 12288"

definition trim_by :: "('a \<Rightarrow> bool) \<Rightarrow> 'a list \<Rightarrow> 'a list" where
  "trim_by p xs = rev (dropWhile p (rev (dropWhile p xs)))"

definition TrimSpace :: "string \<Rightarrow> string" where
  "TrimSpace s = concat (map snd (trim_by (\<lambda>(r, _). IsSpace r) (chunks s)))"

definition upper_rune :: "(rune \<Rightarrow> rune) \<Rightarrow> rune \<Rightarrow> rune" where
  "upper_rune up r = (if r < 128 then (if 97 \<le> r \<and> r \<le> 122 then r - 32 else r) else up r)"

definition lower_rune :: "(rune \<Rightarrow> rune) \<Rightarrow> rune \<Rightarrow> rune" where
  "lower_rune lo r = (if r < 128 then (if 65 \<le> r \<and> r \<le> 90 then r + 32 else r) else lo r)"

definition upper_byte :: "char \<Rightarrow> char" where
  "upper_byte c = (if 97 \<le> byte_val c \<and> byte_val c \<le> 122 then byte_chr (byte_val c - 32) else c)"

definition lower_byte :: "char \<Rightarrow> char" where
  "lower_byte c = (if 65 \<le> byte_val c \<and> byte_val c \<le> 90 then byte_chr (byte_val c + 32) else c)"

text \<open>
  \<open>strings.ToUpper\<close> and \<open>strings.ToLower\<close>: byte by byte on an ASCII string, otherwise rune by
  rune through the case table, re-encoding (\<open>strings.Map\<close>).
\<close>

definition ToUpper :: "(rune \<Rightarrow> rune) \<Rightarrow> string \<Rightarrow> string" where
  "ToUpper up s =
     (if is_ascii s then map upper_byte s
      else concat (map (\<lambda>r. encode_rune (upper_rune up r)) (runes s)))"

definition ToLower :: "(rune \<Rightarrow> rune) \<Rightarrow> string \<Rightarrow> string" where
  "ToLower lo s =
     (if is_ascii s then map lower_byte s
      else concat (map (\<lambda>r. encode_rune (lower_rune lo r)) (runes s)))"

fun Contains :: "string \<Rightarrow> string \<Rightarrow> bool" where
  "Contains [] t = (t = [])"
| "Contains (c # cs) t = (take (length t) (c # cs) = t \<or> Contains cs t)"

text \<open>Byte-wise string order, the order of Go's \<open><\<close> on strings.\<close>

fun str_le :: "string \<Rightarrow> string \<Rightarrow> bool" where
  "str_le [] _ = True"
| "str_le (_ # _) [] = False"
| "str_le (a # as) (b # bs) =
     (if byte_val a < byte_val b then True
      else if byte_val b < byte_val a then False else str_le as bs)"

text \<open>Decimal printing (\<open>strconv.FormatInt\<close> with base 10).\<close>

fun digits :: "nat \<Rightarrow> string" where
  "digits n = (if n < 10 then [byte_chr (48 + n)] else digits (n div 10) @ [byte_chr (48 + n mod 10)])"

declare digits.simps [simp del]

definition FormatInt :: "int \<Rightarrow> string" where
  "FormatInt i = (if i < 0 then CHR ''-'' # digits (nat (- i)) else digits (nat i))"

definition is_digit_byte :: "char \<Rightarrow> bool" where
  "is_digit_byte c \<longleftrightarrow> 48 \<le> byte_val c \<and> byte_val c \<le> 57"

definition is_upper_byte :: "char \<Rightarrow> bool" where
  "is_upper_byte c \<longleftrightarrow> 65 \<le> byte_val c \<and> byte_val c \<le> 90"

lemmas [go_defs] = is_digit_byte_def is_upper_byte_def upper_byte_def lower_byte_def

section \<open>Decoding\<close>

lemma byte_val_less [simp]: "byte_val c < 256"
  by (simp add: byte_val_def)

lemma byte_chr_val [simp]: "byte_chr (byte_val c) = c"
  by (simp add: byte_val_def byte_chr_def)

lemma byte_val_chr [simp]: "n < 256 \<Longrightarrow> byte_val (byte_chr n) = n"
  by (simp add: byte_val_def byte_chr_def)

lemma byte_val_inj [simp]: "byte_val a = byte_val b \<longleftrightarrow> a = b"
  by (simp add: byte_val_def)

lemma decode_rune_ascii [simp]: "b < 128 \<Longrightarrow> decode_rune (b # bs) = (b, 1)"
  by simp

declare decode_rune.simps(2) [simp del]

text \<open>Induction along the chunks of a string.\<close>

lemma chunks_induct [case_names Nil Chunk]:
  assumes "P []"
    and "\<And>c cs r n. decode_rune (map byte_val (c # cs)) = (r, n) \<Longrightarrow>
      chunks (c # cs) = (r, c # take (n - 1) cs) # chunks (drop (n - 1) cs) \<Longrightarrow>
      P (drop (n - 1) cs) \<Longrightarrow> P (c # cs)"
  shows "P s"
proof (induction s rule: length_induct)
  case (1 s)
  show ?case
  proof (cases s)
    case Nil
    then show ?thesis using assms(1) by simp
  next
    case (Cons c cs)
    obtain r n where rn: "decode_rune (map byte_val (c # cs)) = (r, n)" by force
    have "P (drop (n - 1) cs)" using "1.IH" Cons by simp
    with rn show ?thesis unfolding Cons by (intro assms(2)) auto
  qed
qed

lemma chunks_concat [simp]: "concat (map snd (chunks s)) = s"
  by (induction s rule: chunks_induct) simp_all

lemma chunk_nonempty: "(r, bs) \<in> set (chunks s) \<Longrightarrow> bs \<noteq> []"
  by (induction s rule: chunks_induct) auto

text \<open>A rune takes at least one byte, so counting runes never exceeds counting bytes.\<close>

lemma RuneCount_le_length: "RuneCountInString s \<le> length s"
proof (induction s rule: chunks_induct)
  case (Chunk c cs r n)
  then show ?case by (simp add: RuneCountInString_def)
qed (simp add: RuneCountInString_def)

lemma chunks_ascii: "is_ascii s \<Longrightarrow> chunks s = map (\<lambda>c. (byte_val c, [c])) s"
  by (induction s) (auto simp: is_ascii_def)

lemma RuneCount_ascii: "is_ascii s \<Longrightarrow> RuneCountInString s = length s"
  by (simp add: RuneCountInString_def chunks_ascii)

lemma encode_rune_ascii: "byte_val c < 128 \<Longrightarrow> encode_rune (byte_val c) = [c]"
  by (simp add: encode_rune_def)

lemma valid_utf8_ascii: "is_ascii s \<Longrightarrow> valid_utf8 s"
  by (auto simp: valid_utf8_def chunks_ascii list_all_iff is_ascii_def encode_rune_ascii)

lemma to_valid_utf8_id: "valid_utf8 s \<Longrightarrow> to_valid_utf8 s = s"
proof -
  assume "valid_utf8 s"
  then have "map (encode_rune \<circ> fst) (chunks s) = map snd (chunks s)"
    by (auto simp: valid_utf8_def list_all_iff)
  then show ?thesis by (simp add: to_valid_utf8_def runes_def flip: map_map)
qed

section \<open>Trimming and case\<close>

lemma trim_by_set: "set (trim_by p xs) \<subseteq> set xs"
  by (auto simp: trim_by_def dest!: set_dropWhileD)

lemma trim_by_id: "\<forall>x \<in> set xs. \<not> p x \<Longrightarrow> trim_by p xs = xs"
proof -
  assume a: "\<forall>x \<in> set xs. \<not> p x"
  then have "dropWhile p ys = ys" if "set ys = set xs" for ys
    using that by (cases ys) auto
  then show ?thesis by (simp add: trim_by_def)
qed

lemma TrimSpace_ascii:
  "is_ascii s \<Longrightarrow> \<forall>c \<in> set s. \<not> IsSpace (byte_val c) \<Longrightarrow> TrimSpace s = s"
  unfolding TrimSpace_def by (subst trim_by_id) (auto simp: chunks_ascii comp_def)

text \<open>Printable ASCII text has nothing to trim.\<close>

definition is_graphic :: "string \<Rightarrow> bool" where
  "is_graphic s \<longleftrightarrow> list_all (\<lambda>c. 32 < byte_val c \<and> byte_val c < 127) s"

lemma TrimSpace_graphic: "is_graphic s \<Longrightarrow> TrimSpace s = s"
  by (rule TrimSpace_ascii) (auto simp: is_graphic_def is_ascii_def list_all_iff IsSpace_def)

lemma Contains_iff: "Contains s t \<longleftrightarrow> (\<exists>a b. s = a @ t @ b)"
proof (induction s)
  case (Cons c s)
  have "take (length t) (c # s) = t \<longleftrightarrow> (\<exists>b. c # s = t @ b)"
    by (metis append_eq_conv_conj append_take_drop_id)
  moreover have "(\<exists>a b. s = a @ t @ b) \<or> (\<exists>b. c # s = t @ b) \<longleftrightarrow> (\<exists>a b. c # s = a @ t @ b)"
    by (metis append_Cons append_Nil neq_Nil_conv list.inject)
  ultimately show ?case using Cons.IH by auto
qed simp

text \<open>A character that does not occur in the string separates no match.\<close>

lemma Contains_char: "Contains s t \<Longrightarrow> c \<in> set t \<Longrightarrow> c \<in> set s"
  by (auto simp: Contains_iff)

lemma upper_byte_idem [simp]: "upper_byte (upper_byte c) = upper_byte c"
proof (cases "97 \<le> byte_val c \<and> byte_val c \<le> 122")
  case True
  then have "byte_val (byte_chr (byte_val c - 32)) = byte_val c - 32"
    by (intro byte_val_chr) (simp add: less_imp_diff_less)
  moreover have "\<not> 97 \<le> byte_val c - 32" using True by linarith
  ultimately show ?thesis using True by (simp add: upper_byte_def)
next
  case False
  then have "upper_byte c = c" by (auto simp: upper_byte_def)
  then show ?thesis by simp
qed

lemma digits_ascii: "list_all is_digit_byte (digits n)"
proof (induction n rule: digits.induct)
  case (1 n)
  then show ?case
    by (subst digits.simps) (auto simp: is_digit_byte_def list_all_iff)
qed

lemma digits_nonempty [simp]: "digits n \<noteq> []"
  by (subst digits.simps) simp

end
