(* ===== verification/Platform.thy ===== *)
theory Platform
  imports Go_Strings "HOL-Library.Word"
begin

text \<open>
  Everything the program relies on that is not in the repository, gathered in one record
  that the definitions take as their argument \<open>P\<close>: third-party packages (\<open>google/uuid\<close>,
  \<open>bcrypt\<close>), SHA-256, the Unicode case tables, the RFC 3339 text of a time (which shows the
  time zone the value carries, for a value read from PostgreSQL that of the session; \<open>None\<close> for
  a year out of range), PostgreSQL's rounding of timestamps, and the outcomes the environment
  chooses (clock readings, random identifiers, database faults, cancellation of the request's
  context, the order PostgreSQL gives rows that a statement does not order, rows locked elsewhere).
  The environment's choices are functions of the number of the call, so that a run is
  determined by \<open>P\<close>, and a theorem over every \<open>P\<close> covers every run. Definitions and theorems
  that need a documented property of one of these say so by name.
\<close>

type_synonym uuid = "128 word"

abbreviation uuid_Nil :: uuid where "uuid_Nil \<equiv> 0"

text \<open>
  \<open>time.Time\<close> as nanoseconds since Go's zero time (January 1, year 1, 00:00 UTC); a location
  does not change the instant, so \<open>UTC()\<close> is the identity. \<open>time.Duration\<close> is in nanoseconds.
\<close>

type_synonym time = int
type_synonym duration = int

text \<open>\<open>t.Sub(u)\<close> saturates at the ends of the 64-bit range.\<close>

definition time_Sub :: "time \<Rightarrow> time \<Rightarrow> duration" where
  "time_Sub t u = max (- (2 ^ 63)) (min (2 ^ 63 - 1) (t - u))"

definition IsZero :: "time \<Rightarrow> bool" where
  "IsZero t \<longleftrightarrow> t = 0"

abbreviation Second :: duration where "Second \<equiv> 1000000000"
abbreviation Minute :: duration where "Minute \<equiv> 60 * 1000000000"
abbreviation Hour :: duration where "Hour \<equiv> 3600 * 1000000000"

text \<open>Seconds from Go's zero time to the Unix epoch.\<close>

definition Unix :: "time \<Rightarrow> int" where
  "Unix t = t div Second - 62135596800"

text \<open>
  What a call to the database driver can report besides the statement's own outcome.
  \<open>Refused\<close>: the statement did not take effect. \<open>ReplyLost\<close>: it took effect on the server and
  the client sees an error (a connection that breaks after the server committed).
\<close>

datatype driver_error =
    PqError string
  | ContextCanceled
  | ContextDeadlineExceeded
  | DriverFailure string

datatype db_fault = Refused driver_error | ReplyLost driver_error

record platform =
  unicode_upper :: "rune \<Rightarrow> rune"
  unicode_lower :: "rune \<Rightarrow> rune"
  uuid_Parse :: "string \<Rightarrow> uuid option"
  uuid_Version :: "uuid \<Rightarrow> nat"
  uuid_String :: "uuid \<Rightarrow> string"
  Sum256 :: "string \<Rightarrow> string"
  CompareHashAndPassword :: "string \<Rightarrow> string \<Rightarrow> bool"
  time_MarshalJSON :: "time \<Rightarrow> string option"
  pg_timestamptz :: "time \<Rightarrow> time"
  time_Now :: "nat \<Rightarrow> time"
  uuid_New :: "nat \<Rightarrow> uuid"
  uuid_NewRandom_error :: "nat \<Rightarrow> bool"
  pg_now :: "nat \<Rightarrow> time"
  db_fault_at :: "nat \<Rightarrow> db_fault option"
  ctx_Err :: "nat \<Rightarrow> driver_error option"
  driver_Error :: "driver_error \<Rightarrow> string"
  row_rank :: "nat \<Rightarrow> uuid \<Rightarrow> nat"
  row_locked :: "nat \<Rightarrow> uuid \<Rightarrow> bool"

text \<open>
  Documented behaviour of the environment. A \<open>timestamptz\<close> has a resolution of one microsecond, so storing is
  monotone and storing a stored value changes nothing.
\<close>

definition timestamptz_ok :: "platform \<Rightarrow> bool" where
  "timestamptz_ok P \<longleftrightarrow>
     (\<forall>s t. s \<le> t \<longrightarrow> pg_timestamptz P s \<le> pg_timestamptz P t)
     \<and> (\<forall>t. pg_timestamptz P (pg_timestamptz P t) = pg_timestamptz P t)"

text \<open>Parsing inverts printing of UUIDs, and the nil UUID is of no version 4.\<close>

definition uuid_text_ok :: "platform \<Rightarrow> bool" where
  "uuid_text_ok P \<longleftrightarrow>
     (\<forall>u. uuid_Parse P (uuid_String P u) = Some u) \<and> uuid_Version P uuid_Nil \<noteq> 4"

text \<open>The texts of UUIDs and times have no zero byte.\<close>

definition printable_ok :: "platform \<Rightarrow> bool" where
  "printable_ok P \<longleftrightarrow>
     (\<forall>u. byte_chr 0 \<notin> set (uuid_String P u))
     \<and> (\<forall>t s. time_MarshalJSON P t = Some s \<longrightarrow> byte_chr 0 \<notin> set s)"

definition faultless :: "platform \<Rightarrow> bool" where
  "faultless P \<longleftrightarrow> (\<forall>n. db_fault_at P n = None) \<and> (\<forall>n. \<not> uuid_NewRandom_error P n)"

lemma stored_le_iff:
  assumes "timestamptz_ok P" "pg_timestamptz P s = s" "s \<le> t"
  shows "s \<le> pg_timestamptz P t"
proof -
  from assms(1,3) have "pg_timestamptz P s \<le> pg_timestamptz P t"
    unfolding timestamptz_ok_def by blast
  with assms(2) show ?thesis by simp
qed

end
