(* ===== verification/Domain_Errors.thy ===== *)
theory Domain_Errors
  imports Platform
begin

text \<open>
  \<open>internal/domain/error.go\<close> and \<open>internal/repository/errors.go\<close>: the domain's error values, the
  repository's error categories, and Go's error chains. A Go \<open>error\<close> is one of the values of
  \<open>go_error\<close>; \<open>errors.As\<close> and \<open>errors.Is\<close> walk the chain that \<open>Unwrap\<close> gives.
\<close>

section \<open>Domain errors\<close>

type_synonym ErrorCode = string

definition CodeValidationError :: ErrorCode where "CodeValidationError = ''VALIDATION_ERROR''"
definition CodeInvalidIdempotencyKey :: ErrorCode where "CodeInvalidIdempotencyKey = ''INVALID_IDEMPOTENCY_KEY''"
definition CodeInvalidCredentials :: ErrorCode where "CodeInvalidCredentials = ''INVALID_CREDENTIALS''"
definition CodeUnauthorized :: ErrorCode where "CodeUnauthorized = ''UNAUTHORIZED''"
definition CodeInvalidRefreshToken :: ErrorCode where "CodeInvalidRefreshToken = ''INVALID_REFRESH_TOKEN''"
definition CodeForbidden :: ErrorCode where "CodeForbidden = ''FORBIDDEN''"
definition CodeDisbursementNotFound :: ErrorCode where "CodeDisbursementNotFound = ''DISBURSEMENT_NOT_FOUND''"
definition CodeDisbursementAlreadyFinalized :: ErrorCode where "CodeDisbursementAlreadyFinalized = ''DISBURSEMENT_ALREADY_FINALIZED''"
definition CodeDisbursementNotDeletable :: ErrorCode where "CodeDisbursementNotDeletable = ''DISBURSEMENT_NOT_DELETABLE''"
definition CodeConcurrentModification :: ErrorCode where "CodeConcurrentModification = ''CONCURRENT_MODIFICATION''"
definition CodeIdempotencyKeyReused :: ErrorCode where "CodeIdempotencyKeyReused = ''IDEMPOTENCY_KEY_REUSED''"
definition CodeIdempotencyInProgress :: ErrorCode where "CodeIdempotencyInProgress = ''IDEMPOTENCY_REQUEST_IN_PROGRESS''"
definition CodeInternalError :: ErrorCode where "CodeInternalError = ''INTERNAL_ERROR''"

lemmas code_defs =
  CodeValidationError_def CodeInvalidIdempotencyKey_def CodeInvalidCredentials_def
  CodeUnauthorized_def CodeInvalidRefreshToken_def CodeForbidden_def
  CodeDisbursementNotFound_def CodeDisbursementAlreadyFinalized_def
  CodeDisbursementNotDeletable_def CodeConcurrentModification_def
  CodeIdempotencyKeyReused_def CodeIdempotencyInProgress_def CodeInternalError_def

record FieldError =
  fe_Field :: string
  fe_Message :: string

record domain_error =
  err_Code :: ErrorCode
  err_Message :: string
  err_Status :: int
  err_Details :: "FieldError list"
  err_RetryAfter :: duration

text \<open>\<open>&Error{Code, Message, Status}\<close>: the fields not given are zero.\<close>

definition new_error :: "ErrorCode \<Rightarrow> string \<Rightarrow> int \<Rightarrow> domain_error" where
  "new_error c m s = \<lparr>err_Code = c, err_Message = m, err_Status = s, err_Details = [], err_RetryAfter = 0\<rparr>"

definition Validation :: "FieldError list \<Rightarrow> domain_error" where
  "Validation details =
     (new_error CodeValidationError ''Input tidak valid'' 400)\<lparr>err_Details := details\<rparr>"

definition InvalidCredentials :: domain_error where
  "InvalidCredentials = new_error CodeInvalidCredentials ''Kredensial tidak valid'' 401"

definition InvalidIdempotencyKey :: domain_error where
  "InvalidIdempotencyKey =
     new_error CodeInvalidIdempotencyKey ''Header Idempotency-Key tidak valid atau tidak ada'' 400"

definition Unauthorized :: domain_error where
  "Unauthorized = new_error CodeUnauthorized ''Autentikasi diperlukan'' 401"

definition InvalidRefreshToken :: domain_error where
  "InvalidRefreshToken = new_error CodeInvalidRefreshToken ''Refresh token tidak valid'' 401"

definition Forbidden :: domain_error where
  "Forbidden = new_error CodeForbidden ''Akses ditolak'' 403"

definition Internal :: domain_error where
  "Internal = new_error CodeInternalError ''Terjadi kesalahan internal'' 500"

definition DisbursementNotFound :: domain_error where
  "DisbursementNotFound = new_error CodeDisbursementNotFound ''Disbursement tidak ditemukan'' 404"

definition DisbursementAlreadyFinalized :: domain_error where
  "DisbursementAlreadyFinalized =
     new_error CodeDisbursementAlreadyFinalized ''Disbursement sudah difinalisasi'' 409"

definition DisbursementNotDeletable :: domain_error where
  "DisbursementNotDeletable =
     new_error CodeDisbursementNotDeletable
       ''Disbursement tidak dapat dihapus karena sudah difinalisasi'' 400"

definition ConcurrentModification :: domain_error where
  "ConcurrentModification =
     new_error CodeConcurrentModification ''Terjadi konflik modifikasi simultan'' 409"

definition IdempotencyKeyReused :: domain_error where
  "IdempotencyKeyReused =
     new_error CodeIdempotencyKeyReused ''Idempotency key telah digunakan dengan payload berbeda'' 409"

definition IdempotencyRequestInProgress :: domain_error where
  "IdempotencyRequestInProgress =
     new_error CodeIdempotencyInProgress
       ''Request dengan idempotency key yang sama sedang diproses'' 409"

definition IdempotencyRequestInProgressWithRetryAfter :: "duration \<Rightarrow> domain_error" where
  "IdempotencyRequestInProgressWithRetryAfter retryAfter =
     IdempotencyRequestInProgress\<lparr>err_RetryAfter := retryAfter\<rparr>"

lemmas domain_error_defs =
  Validation_def InvalidCredentials_def InvalidIdempotencyKey_def Unauthorized_def
  InvalidRefreshToken_def Forbidden_def Internal_def DisbursementNotFound_def
  DisbursementAlreadyFinalized_def DisbursementNotDeletable_def ConcurrentModification_def
  IdempotencyKeyReused_def IdempotencyRequestInProgress_def
  IdempotencyRequestInProgressWithRetryAfter_def new_error_def

section \<open>Error chains\<close>

datatype ErrorCategory = ErrorNotFound | ErrorConflict | ErrorOwnershipLost | ErrorConstraint | ErrorDependency

text \<open>
  \<open>RepositoryError\<close> is \<open>*repository.Error\<close> with its cause, \<open>PlainError\<close> an error of \<open>fmt.Errorf\<close>
  without \<open>%w\<close>, \<open>WrapError\<close> one with \<open>%w\<close>.
\<close>

datatype go_error =
    DomainError domain_error
  | RepositoryError ErrorCategory go_error
  | ErrNoRows
  | DriverError driver_error
  | PlainError string
  | WrapError string go_error

fun error_chain :: "go_error \<Rightarrow> go_error list" where
  "error_chain (RepositoryError c e) = RepositoryError c e # error_chain e"
| "error_chain (WrapError m e) = WrapError m e # error_chain e"
| "error_chain e = [e]"

text \<open>\<open>errors.As\<close> with a \<open>*repository.Error\<close> target: its category and cause.\<close>

definition as_repository_error :: "go_error \<Rightarrow> (ErrorCategory \<times> go_error) option" where
  "as_repository_error e =
     (case find (\<lambda>x. case x of RepositoryError _ _ \<Rightarrow> True | _ \<Rightarrow> False) (error_chain e) of
        Some (RepositoryError c cause) \<Rightarrow> Some (c, cause) | _ \<Rightarrow> None)"

definition errors_Is :: "go_error \<Rightarrow> go_error \<Rightarrow> bool" where
  "errors_Is e target \<longleftrightarrow> target \<in> set (error_chain e)"

definition as_pq_error :: "go_error \<Rightarrow> string option" where
  "as_pq_error e =
     (case find (\<lambda>x. case x of DriverError (PqError _) \<Rightarrow> True | _ \<Rightarrow> False) (error_chain e) of
        Some (DriverError (PqError code)) \<Rightarrow> Some code | _ \<Rightarrow> None)"

definition as_domain_error :: "go_error \<Rightarrow> domain_error option" where
  "as_domain_error e =
     (case find (\<lambda>x. case x of DomainError _ \<Rightarrow> True | _ \<Rightarrow> False) (error_chain e) of
        Some (DomainError d) \<Rightarrow> Some d | _ \<Rightarrow> None)"

text \<open>\<open>domain.AsError\<close>.\<close>

definition AsError :: "go_error \<Rightarrow> domain_error" where
  "AsError e = (case as_domain_error e of Some d \<Rightarrow> d | None \<Rightarrow> Internal)"

section \<open>Repository errors\<close>

definition Classify :: "go_error \<Rightarrow> go_error" where
  "Classify err =
     (case as_repository_error err of
        Some (c, cause) \<Rightarrow> RepositoryError c cause
      | None \<Rightarrow>
          if errors_Is err ErrNoRows then RepositoryError ErrorNotFound err
          else if errors_Is err (DriverError ContextCanceled)
                  \<or> errors_Is err (DriverError ContextDeadlineExceeded)
          then RepositoryError ErrorDependency err
          else
            (case as_pq_error err of
               Some code \<Rightarrow>
                 if code = ''23505'' then RepositoryError ErrorConflict err
                 else if code = ''23503'' \<or> code = ''23514'' \<or> code = ''22001'' \<or> code = ''22003''
                 then RepositoryError ErrorConstraint err
                 else RepositoryError ErrorDependency err
             | None \<Rightarrow> RepositoryError ErrorDependency err))"

definition IsNotFound :: "go_error \<Rightarrow> bool" where
  "IsNotFound err =
     (case as_repository_error err of
        Some (c, _) \<Rightarrow> c = ErrorNotFound
      | None \<Rightarrow> errors_Is err ErrNoRows)"

definition IsConflict :: "go_error \<Rightarrow> bool" where
  "IsConflict err =
     (case as_repository_error err of Some (c, _) \<Rightarrow> c = ErrorConflict | None \<Rightarrow> False)"

definition IsConstraint :: "go_error \<Rightarrow> bool" where
  "IsConstraint err =
     (case as_repository_error err of Some (c, _) \<Rightarrow> c = ErrorConstraint | None \<Rightarrow> False)"

text \<open>The \<open>Error()\<close> methods: the text of an error, for a driver's error the driver's own.\<close>

fun category_text :: "ErrorCategory \<Rightarrow> string" where
  "category_text ErrorNotFound = ''NOT_FOUND''"
| "category_text ErrorConflict = ''CONFLICT''"
| "category_text ErrorOwnershipLost = ''OWNERSHIP_LOST''"
| "category_text ErrorConstraint = ''CONSTRAINT''"
| "category_text ErrorDependency = ''DEPENDENCY''"

fun error_text :: "platform \<Rightarrow> go_error \<Rightarrow> string" where
  "error_text P (DomainError d) = err_Code d"
| "error_text P (RepositoryError c e) = ''repository '' @ category_text c"
| "error_text P ErrNoRows = ''sql: no rows in result set''"
| "error_text P (DriverError x) = driver_Error P x"
| "error_text P (PlainError m) = m"
| "error_text P (WrapError m e) = m @ '': '' @ error_text P e"

section \<open>Facts\<close>

lemma as_repository_error_simps [simp]:
  "as_repository_error (RepositoryError c e) = Some (c, e)"
  "as_repository_error (WrapError m e) = as_repository_error e"
  "as_repository_error (DomainError d) = None"
  "as_repository_error ErrNoRows = None"
  "as_repository_error (DriverError x) = None"
  "as_repository_error (PlainError m) = None"
  by (simp_all add: as_repository_error_def)

lemma as_domain_error_simps [simp]:
  "as_domain_error (DomainError d) = Some d"
  "as_domain_error (RepositoryError c e) = as_domain_error e"
  "as_domain_error (WrapError m e) = as_domain_error e"
  "as_domain_error ErrNoRows = None"
  "as_domain_error (DriverError x) = None"
  "as_domain_error (PlainError m) = None"
  by (simp_all add: as_domain_error_def)

lemma as_pq_error_simps [simp]:
  "as_pq_error (DriverError (PqError c)) = Some c"
  "as_pq_error (RepositoryError c' e) = as_pq_error e"
  "as_pq_error (WrapError m e) = as_pq_error e"
  "as_pq_error (DomainError d) = None"
  "as_pq_error ErrNoRows = None"
  "as_pq_error (PlainError m) = None"
  by (simp_all add: as_pq_error_def)

lemma errors_Is_simps [simp]:
  "errors_Is ErrNoRows t \<longleftrightarrow> t = ErrNoRows"
  "errors_Is (DriverError x) t \<longleftrightarrow> t = DriverError x"
  "errors_Is (DomainError d) t \<longleftrightarrow> t = DomainError d"
  "errors_Is (PlainError m) t \<longleftrightarrow> t = PlainError m"
  "errors_Is (RepositoryError c e) t \<longleftrightarrow> t = RepositoryError c e \<or> errors_Is e t"
  "errors_Is (WrapError m e) t \<longleftrightarrow> t = WrapError m e \<or> errors_Is e t"
  by (auto simp: errors_Is_def)

text \<open>\<open>Classify\<close> always yields a repository error, and classifying twice changes nothing.\<close>

lemma Classify_repository: "\<exists>c e. Classify err = RepositoryError c e"
  by (auto simp: Classify_def split: option.splits)

lemma Classify_idem [simp]: "Classify (Classify err) = Classify err"
proof -
  obtain c e where "Classify err = RepositoryError c e" using Classify_repository by blast
  then show ?thesis by (simp add: Classify_def)
qed

lemma Classify_RepositoryError [simp]: "Classify (RepositoryError c e) = RepositoryError c e"
  by (simp add: Classify_def)

lemma category_tests [simp]:
  "IsNotFound (RepositoryError c e) \<longleftrightarrow> c = ErrorNotFound"
  "IsConflict (RepositoryError c e) \<longleftrightarrow> c = ErrorConflict"
  "IsConstraint (RepositoryError c e) \<longleftrightarrow> c = ErrorConstraint"
  "\<not> IsConflict (DomainError d)"
  "\<not> IsConstraint (DomainError d)"
  "\<not> IsNotFound (DomainError d)"
  by (simp_all add: IsNotFound_def IsConflict_def IsConstraint_def)

end
