(* ===== verification/Domain_Disbursement.thy ===== *)
theory Domain_Disbursement
  imports Domain_Errors
begin

text \<open>
  \<open>internal/domain/disbursement.go\<close>: amounts and fees, input validation, the status rules,
  pagination and date ranges. An \<open>error\<close> result is a \<open>go_error option\<close> (\<open>None\<close> is Go's \<open>nil\<close>), a
  result with an error a sum. Amounts are compared and never computed with, so they are plain
  integers; pagination computes and wraps at 64 bits.
\<close>

section \<open>Definitions\<close>

definition MinimumAmount :: int where "MinimumAmount = 10000"
definition MaximumAmount :: int where "MaximumAmount = 100000000000"
definition FeeThreshold :: int where "FeeThreshold = 5000000"
definition LowerTierAdminFee :: int where "LowerTierAdminFee = 2500"
definition UpperTierAdminFee :: int where "UpperTierAdminFee = 5000"
definition MaximumRecipientRunes :: nat where "MaximumRecipientRunes = 150"
definition MinimumAccountDigits :: nat where "MinimumAccountDigits = 6"
definition MaximumAccountDigits :: nat where "MaximumAccountDigits = 34"
definition MinimumBankCodeLength :: nat where "MinimumBankCodeLength = 3"
definition MaximumBankCodeLength :: nat where "MaximumBankCodeLength = 10"
definition MaximumNoteRunes :: nat where "MaximumNoteRunes = 500"
definition DefaultPage :: int where "DefaultPage = 1"
definition DefaultLimit :: int where "DefaultLimit = 20"
definition MaximumLimit :: int where "MaximumLimit = 100"

definition bankCodeValidationMessage :: string where
  "bankCodeValidationMessage = ''harus 3 sampai 10 karakter alfanumerik''"

lemmas limit_defs [go_defs] =
  MinimumAmount_def MaximumAmount_def FeeThreshold_def LowerTierAdminFee_def
  UpperTierAdminFee_def MaximumRecipientRunes_def MinimumAccountDigits_def
  MaximumAccountDigits_def MinimumBankCodeLength_def MaximumBankCodeLength_def
  MaximumNoteRunes_def DefaultPage_def DefaultLimit_def MaximumLimit_def

type_synonym DisbursementStatus = string

definition StatusPending :: DisbursementStatus where "StatusPending = ''PENDING''"
definition StatusApproved :: DisbursementStatus where "StatusApproved = ''APPROVED''"
definition StatusRejected :: DisbursementStatus where "StatusRejected = ''REJECTED''"

lemmas status_defs = StatusPending_def StatusApproved_def StatusRejected_def

lemma status_distinct [simp]:
  "StatusPending \<noteq> StatusApproved" "StatusApproved \<noteq> StatusPending"
  "StatusPending \<noteq> StatusRejected" "StatusRejected \<noteq> StatusPending"
  "StatusApproved \<noteq> StatusRejected" "StatusRejected \<noteq> StatusApproved"
  by (simp_all add: status_defs)

record CreateDisbursementInput =
  in_RecipientName :: string
  in_AccountNumber :: string
  in_BankCode :: string
  in_Amount :: int
  in_Note :: string

record Disbursement =
  d_ID :: uuid
  d_RecipientName :: string
  d_AccountNumber :: string
  d_BankCode :: string
  d_Amount :: int
  d_AdminFee :: int
  d_Status :: DisbursementStatus
  d_Note :: string
  d_CreatedBy :: uuid
  d_DecidedBy :: uuid
  d_DecisionNote :: string
  d_DecidedAt :: "time option"
  d_DeletedAt :: "time option"
  d_CreatedAt :: time
  d_UpdatedAt :: time

record Decision =
  dec_Status :: DisbursementStatus
  dec_ActorID :: uuid
  dec_Note :: string

record Pagination =
  pg_Page :: int
  pg_Limit :: int
  pg_Total :: int
  pg_TotalPages :: int

record DateRange =
  FromInclusive :: time
  ToExclusive :: time

definition amount_error :: FieldError where
  "amount_error =
     \<lparr>fe_Field = ''amount'',
      fe_Message = ''harus antara '' @ FormatInt MinimumAmount @ '' dan '' @ FormatInt MaximumAmount\<rparr>"

definition ValidateAmount :: "int \<Rightarrow> go_error option" where
  "ValidateAmount amount =
     (if amount < MinimumAmount \<or> amount > MaximumAmount
      then Some (DomainError (Validation [amount_error])) else None)"

definition CalculateAdminFee :: "int \<Rightarrow> go_error + int" where
  "CalculateAdminFee amount =
     (case ValidateAmount amount of
        Some err \<Rightarrow> Inl err
      | None \<Rightarrow> if amount < FeeThreshold then Inr LowerTierAdminFee else Inr UpperTierAdminFee)"

definition bank_code_error :: FieldError where
  "bank_code_error = \<lparr>fe_Field = ''bank_code'', fe_Message = bankCodeValidationMessage\<rparr>"

definition bank_code_rune :: "rune \<Rightarrow> bool" where
  "bank_code_rune r \<longleftrightarrow> (65 \<le> r \<and> r \<le> 90) \<or> (48 \<le> r \<and> r \<le> 57)"

definition CanonicalBankCode :: "platform \<Rightarrow> string \<Rightarrow> go_error + string" where
  "CanonicalBankCode P value =
     (let canonical = ToUpper (unicode_upper P) (TrimSpace value)
      in if length canonical < MinimumBankCodeLength \<or> length canonical > MaximumBankCodeLength
         then Inl (DomainError (Validation [bank_code_error]))
         else if list_all bank_code_rune (runes canonical) then Inr canonical
         else Inl (DomainError (Validation [bank_code_error])))"

definition validAccountNumber :: "string \<Rightarrow> bool" where
  "validAccountNumber value \<longleftrightarrow>
     \<not> (length value < MinimumAccountDigits \<or> length value > MaximumAccountDigits)
     \<and> list_all (\<lambda>r. \<not> (r < 48 \<or> r > 57)) (runes value)"

definition too_long :: "string \<Rightarrow> nat \<Rightarrow> FieldError" where
  "too_long f n = \<lparr>fe_Field = f, fe_Message = ''panjang maksimum '' @ FormatInt (int n)\<rparr>"

text \<open>The details \<open>CreateDisbursementInput.Validate\<close> collects, in its order.\<close>

definition input_details :: "platform \<Rightarrow> CreateDisbursementInput \<Rightarrow> FieldError list" where
  "input_details P input =
     (if RuneCountInString (in_RecipientName input) = 0
      then [\<lparr>fe_Field = ''recipient_name'', fe_Message = ''wajib diisi''\<rparr>]
      else if RuneCountInString (in_RecipientName input) > MaximumRecipientRunes
      then [too_long ''recipient_name'' MaximumRecipientRunes] else [])
     @ (if \<not> validAccountNumber (in_AccountNumber input)
        then [\<lparr>fe_Field = ''account_number'', fe_Message = ''harus berisi 6 sampai 34 digit''\<rparr>] else [])
     @ (case CanonicalBankCode P (in_BankCode input) of Inl _ \<Rightarrow> [bank_code_error] | Inr _ \<Rightarrow> [])
     @ (case ValidateAmount (in_Amount input) of Some _ \<Rightarrow> [amount_error] | None \<Rightarrow> [])
     @ (if RuneCountInString (in_Note input) > MaximumNoteRunes
        then [too_long ''note'' MaximumNoteRunes] else [])"

definition Validate :: "platform \<Rightarrow> CreateDisbursementInput \<Rightarrow> go_error option" where
  "Validate P input =
     (let details = input_details P input
      in if length details > 0 then Some (DomainError (Validation details)) else None)"

definition CanTransitionTo :: "DisbursementStatus \<Rightarrow> DisbursementStatus \<Rightarrow> bool" where
  "CanTransitionTo status nxt \<longleftrightarrow>
     status = StatusPending \<and> (nxt = StatusApproved \<or> nxt = StatusRejected)"

definition Decision_Validate :: "Decision \<Rightarrow> go_error option" where
  "Decision_Validate decision =
     (if dec_ActorID decision = uuid_Nil
      then Some (DomainError (Validation [\<lparr>fe_Field = ''actor'', fe_Message = ''wajib diisi''\<rparr>]))
      else if dec_Status decision \<noteq> StatusApproved \<and> dec_Status decision \<noteq> StatusRejected
      then Some (DomainError (Validation
             [\<lparr>fe_Field = ''status'', fe_Message = ''harus APPROVED atau REJECTED''\<rparr>]))
      else if RuneCountInString (dec_Note decision) > MaximumNoteRunes
      then Some (DomainError (Validation [too_long ''note'' MaximumNoteRunes]))
      else None)"

definition CanDelete :: "DisbursementStatus \<Rightarrow> time option \<Rightarrow> bool" where
  "CanDelete status deletedAt \<longleftrightarrow> deletedAt = None \<and> status = StatusPending"

definition NewPagination :: "int \<Rightarrow> int \<Rightarrow> int \<Rightarrow> go_error + Pagination" where
  "NewPagination page0 limit0 count =
     (let page = (if page0 = 0 then DefaultPage else page0);
          limit = (if limit0 = 0 then DefaultLimit else limit0)
      in if page < 1 \<or> limit < 1 \<or> limit > MaximumLimit \<or> count < 0
         then Inl (DomainError (Validation
                [\<lparr>fe_Field = ''pagination'', fe_Message = ''tidak valid''\<rparr>]))
         else Inr \<lparr>pg_Page = page, pg_Limit = limit, pg_Total = count,
                   pg_TotalPages =
                     (if count > 0 then quot (wrap64 (wrap64 (count + limit) - 1)) limit else 0)\<rparr>)"

text \<open>
  \<open>startOfUTCDay\<close> rebuilds the date at midnight. Days of UTC have 86400 seconds and the zero
  time is a midnight, so this is rounding down to a multiple of a day; \<open>AddDate(0, 0, 1)\<close> adds
  one.
\<close>

definition day :: duration where
  "day = 24 * Hour"

definition startOfUTCDay :: "time \<Rightarrow> time" where
  "startOfUTCDay t = t div day * day"

definition NewUTCDateRange :: "time \<Rightarrow> time \<Rightarrow> go_error + DateRange" where
  "NewUTCDateRange from_t to_t =
     (let fromUTC = startOfUTCDay from_t; toUTC = startOfUTCDay to_t
      in if fromUTC > toUTC
         then Inl (DomainError (Validation
                [\<lparr>fe_Field = ''date_range'', fe_Message = ''date_from tidak boleh setelah date_to''\<rparr>]))
         else Inr \<lparr>FromInclusive = fromUTC, ToExclusive = toUTC + day\<rparr>)"

section \<open>Validation\<close>

lemma ValidateAmount_None [simp]:
  "ValidateAmount a = None \<longleftrightarrow> MinimumAmount \<le> a \<and> a \<le> MaximumAmount"
  by (auto simp: ValidateAmount_def)

lemma CalculateAdminFee_Inr:
  "CalculateAdminFee a = Inr fee \<longleftrightarrow>
     MinimumAmount \<le> a \<and> a \<le> MaximumAmount
     \<and> fee = (if a < FeeThreshold then LowerTierAdminFee else UpperTierAdminFee)"
  by (auto simp: CalculateAdminFee_def ValidateAmount_def)

text \<open>A string all of whose runes are ASCII is an ASCII string.\<close>

lemma runes_ascii_is_ascii: "list_all (\<lambda>r. r < 128) (runes s) \<Longrightarrow> is_ascii s"
proof (induction s rule: chunks_induct)
  case (Chunk c cs r n)
  have r: "r < 128" and rest: "list_all (\<lambda>r. r < 128) (runes (drop (n - 1) cs))"
    using Chunk.prems Chunk.hyps(2) by (auto simp: runes_def)
  have "byte_val c < 128 \<and> n = 1"
    using Chunk.hyps(1) r
    by (auto simp: decode_rune.simps RuneError_def is_cont_def split: if_splits list.splits)
  with Chunk.IH rest show ?case by (simp add: is_ascii_def)
qed (simp add: is_ascii_def)

lemma runes_ascii: "is_ascii s \<Longrightarrow> runes s = map byte_val s"
  by (simp add: runes_def chunks_ascii)

lemma ascii_runes_all:
  assumes "list_all p (runes s)" and "\<And>r. p r \<Longrightarrow> r < 128"
  shows "is_ascii s \<and> list_all (\<lambda>c. p (byte_val c)) s"
proof -
  have "list_all (\<lambda>r. r < 128) (runes s)"
    using assms by (auto simp: list_all_iff)
  then have "is_ascii s" by (rule runes_ascii_is_ascii)
  then show ?thesis using assms(1) by (simp add: runes_ascii list_all_iff)
qed

lemma validAccountNumber_iff:
  "validAccountNumber s \<longleftrightarrow> 6 \<le> length s \<and> length s \<le> 34 \<and> list_all is_digit_byte s"
proof
  assume v: "validAccountNumber s"
  then have "list_all (\<lambda>r. \<not> (r < 48 \<or> r > 57)) (runes s)" by (simp add: validAccountNumber_def)
  then have "list_all (\<lambda>c. \<not> (byte_val c < 48 \<or> byte_val c > 57)) s"
    by (rule ascii_runes_all[THEN conjunct2]) auto
  then show "6 \<le> length s \<and> length s \<le> 34 \<and> list_all is_digit_byte s"
    using v by (auto simp: validAccountNumber_def limit_defs is_digit_byte_def list_all_iff not_less)
next
  assume a: "6 \<le> length s \<and> length s \<le> 34 \<and> list_all is_digit_byte s"
  then have "is_ascii s" by (auto simp: is_ascii_def is_digit_byte_def list_all_iff)
  then show "validAccountNumber s"
    using a by (auto simp: validAccountNumber_def limit_defs runes_ascii list_all_iff is_digit_byte_def)
qed

definition bank_code_byte :: "char \<Rightarrow> bool" where
  "bank_code_byte c \<longleftrightarrow> is_upper_byte c \<or> is_digit_byte c"

lemma bank_code_byte_iff: "bank_code_byte c \<longleftrightarrow> bank_code_rune (byte_val c)"
  by (simp add: bank_code_byte_def bank_code_rune_def is_upper_byte_def is_digit_byte_def)

lemma CanonicalBankCode_Inr:
  assumes "CanonicalBankCode P v = Inr c"
  shows "3 \<le> length c \<and> length c \<le> 10 \<and> list_all bank_code_byte c \<and> is_ascii c"
proof -
  from assms have c: "\<not> length c < 3" "\<not> length c > 10" "list_all bank_code_rune (runes c)"
    by (auto simp: CanonicalBankCode_def limit_defs Let_def split: if_splits)
  from c(3) have "is_ascii c \<and> list_all (\<lambda>x. bank_code_rune (byte_val x)) c"
    by (rule ascii_runes_all) (auto simp: bank_code_rune_def)
  with c(1,2) show ?thesis by (simp add: bank_code_byte_iff list_all_iff not_less)
qed

text \<open>A canonical code is its own canonical form.\<close>

lemma CanonicalBankCode_fixed:
  assumes "3 \<le> length c" "length c \<le> 10" "list_all bank_code_byte c"
  shows "CanonicalBankCode P c = Inr c"
proof -
  have b: "bank_code_rune (byte_val x)" if "x \<in> set c" for x
    using assms(3) that by (auto simp: list_all_iff bank_code_byte_iff)
  then have asc: "is_ascii c"
    unfolding is_ascii_def list_all_iff by (force simp: bank_code_rune_def)
  have "TrimSpace c = c"
  proof (rule TrimSpace_ascii[OF asc], intro ballI)
    fix x assume "x \<in> set c"
    from b[OF this] show "\<not> IsSpace (byte_val x)" by (auto simp: bank_code_rune_def IsSpace_def)
  qed
  moreover have "ToUpper (unicode_upper P) c = c"
  proof -
    have "map upper_byte c = c"
      by (rule map_idI) (use b in \<open>force simp: bank_code_rune_def upper_byte_def\<close>)
    then show ?thesis using asc by (simp add: ToUpper_def)
  qed
  moreover have "list_all bank_code_rune (runes c)"
    using b asc by (simp add: runes_ascii list_all_iff)
  ultimately show ?thesis using assms(1,2) by (simp add: CanonicalBankCode_def limit_defs)
qed

lemma Validate_None:
  "Validate P i = None \<longleftrightarrow>
     1 \<le> RuneCountInString (in_RecipientName i) \<and> RuneCountInString (in_RecipientName i) \<le> 150
     \<and> validAccountNumber (in_AccountNumber i)
     \<and> (\<exists>c. CanonicalBankCode P (in_BankCode i) = Inr c)
     \<and> MinimumAmount \<le> in_Amount i \<and> in_Amount i \<le> MaximumAmount
     \<and> RuneCountInString (in_Note i) \<le> 500"
  by (auto simp: Validate_def input_details_def MaximumRecipientRunes_def MaximumNoteRunes_def
        ValidateAmount_def split: sum.splits if_splits)

section \<open>Pagination\<close>

lemma ceil_div:
  assumes "0 < (l::int)" "0 < t"
  shows "(t + l - 1) div l * l \<ge> t \<and> ((t + l - 1) div l - 1) * l < t \<and> 1 \<le> (t + l - 1) div l"
proof -
  let ?q = "(t + l - 1) div l"
  have eq: "?q * l + (t + l - 1) mod l = t + l - 1" by simp
  have m: "0 \<le> (t + l - 1) mod l" "(t + l - 1) mod l < l" using assms(1) by simp_all
  have "l div l \<le> ?q" using assms by (intro zdiv_mono1) auto
  then have "1 \<le> ?q" using assms(1) by simp
  moreover have "?q * l \<ge> t" using eq m by linarith
  moreover have "(?q - 1) * l < t"
  proof -
    have "(?q - 1) * l = ?q * l - l" by (simp add: left_diff_distrib)
    then show ?thesis using eq m by linarith
  qed
  ultimately show ?thesis by blast
qed

lemma startOfUTCDay_le: "startOfUTCDay t \<le> t \<and> t < startOfUTCDay t + day"
proof -
  have "t div day * day + t mod day = t" by simp
  moreover have "0 \<le> t mod day \<and> t mod day < day" by (simp add: day_def)
  ultimately show ?thesis unfolding startOfUTCDay_def by linarith
qed

lemma startOfUTCDay_mono: "s \<le> t \<Longrightarrow> startOfUTCDay s \<le> startOfUTCDay t"
  by (simp add: startOfUTCDay_def zdiv_mono1 day_def)

lemma startOfUTCDay_dvd: "day dvd startOfUTCDay t"
  by (simp add: startOfUTCDay_def)

end
