(* ===== verification/Go_Json.thy ===== *)
theory Go_Json
  imports Platform
begin

text \<open>
  JSON values, as \<open>encoding/json\<close> decodes them with \<open>UseNumber\<close> (a number keeps its text), their
  canonical form (objects with their keys in byte order, as \<open>json.Marshal\<close> prints a map) and the
  text \<open>json.Marshal\<close> prints, with its escapes. A \<open>json.RawMessage\<close> is modelled by the value it
  denotes, in canonical form; key order and white space of the text are abstracted away except
  in \<open>json_text\<close>, which the request fingerprint hashes.
\<close>

datatype json =
    JNull
  | JBool bool
  | JNum string
  | JStr string
  | JArr "json list"
  | JObj "(string \<times> json) list"

fun insert_field :: "string \<times> 'a \<Rightarrow> (string \<times> 'a) list \<Rightarrow> (string \<times> 'a) list" where
  "insert_field (k, v) [] = [(k, v)]"
| "insert_field (k, v) ((k', v') # fs) =
     (if k = k' then (k, v') # fs
      else if str_le k k' then (k, v) # (k', v') # fs
      else (k', v') # insert_field (k, v) fs)"

text \<open>Fields in key order; of two fields with one key the later one stays, as in decoding.\<close>

fun sort_fields :: "(string \<times> 'a) list \<Rightarrow> (string \<times> 'a) list" where
  "sort_fields [] = []"
| "sort_fields (f # fs) = insert_field f (sort_fields fs)"

primrec canon :: "json \<Rightarrow> json" where
  "canon JNull = JNull"
| "canon (JBool b) = JBool b"
| "canon (JNum n) = JNum n"
| "canon (JStr s) = JStr s"
| "canon (JArr xs) = JArr (map canon xs)"
| "canon (JObj fs) = JObj (sort_fields (map (map_prod id canon) fs))"

definition hex_digit :: "nat \<Rightarrow> char" where
  "hex_digit n = byte_chr (if n < 10 then 48 + n else 87 + n)"

definition escape_rune :: "rune \<Rightarrow> string" where
  "escape_rune r =
     (if r = 34 then [byte_chr 92, byte_chr 34]
      else if r = 92 then [byte_chr 92, byte_chr 92]
      else if r = 8 then byte_chr 92 # ''b''
      else if r = 12 then byte_chr 92 # ''f''
      else if r = 10 then byte_chr 92 # ''n''
      else if r = 13 then byte_chr 92 # ''r''
      else if r = 9 then byte_chr 92 # ''t''
      else if r < 32 \<or> r = 60 \<or> r = 62 \<or> r = 38
      then byte_chr 92 # ''u00'' @ [hex_digit (r div 16), hex_digit (r mod 16)]
      else if r = 8232 then byte_chr 92 # ''u2028''
      else if r = 8233 then byte_chr 92 # ''u2029''
      else encode_rune r)"

definition quote :: "string \<Rightarrow> string" where
  "quote s = [byte_chr 34] @ concat (map escape_rune (runes s)) @ [byte_chr 34]"

fun join :: "string \<Rightarrow> string list \<Rightarrow> string" where
  "join sep [] = []"
| "join sep [x] = x"
| "join sep (x # y # xs) = x @ sep @ join sep (y # xs)"

primrec json_text :: "json \<Rightarrow> string" where
  "json_text JNull = ''null''"
| "json_text (JBool b) = (if b then ''true'' else ''false'')"
| "json_text (JNum n) = n"
| "json_text (JStr s) = quote s"
| "json_text (JArr xs) = ''['' @ join '','' (map json_text xs) @ '']''"
| "json_text (JObj fs) =
     ''{'' @ join '','' (map (\<lambda>(k, t). quote k @ '':'' @ t) (map (map_prod id json_text) fs)) @ ''}''"

text \<open>Go values as \<open>json.Marshal\<close> followed by decoding gives them.\<close>

definition json_string :: "string \<Rightarrow> json" where
  "json_string s = JStr (to_valid_utf8 s)"

definition json_int :: "int \<Rightarrow> json" where
  "json_int i = JNum (FormatInt i)"

definition json_uuid :: "platform \<Rightarrow> uuid \<Rightarrow> json" where
  "json_uuid P u = JStr (uuid_String P u)"

definition json_time :: "platform \<Rightarrow> time \<Rightarrow> json option" where
  "json_time P t = map_option JStr (time_MarshalJSON P t)"

definition json_time_ptr :: "platform \<Rightarrow> time option \<Rightarrow> json option" where
  "json_time_ptr P t = (case t of None \<Rightarrow> Some JNull | Some x \<Rightarrow> json_time P x)"

text \<open>No string of the value contains a zero byte (PostgreSQL's \<open>jsonb\<close> cannot store one).\<close>

primrec json_no_nul :: "json \<Rightarrow> bool" where
  "json_no_nul JNull = True"
| "json_no_nul (JBool b) = True"
| "json_no_nul (JNum n) = True"
| "json_no_nul (JStr s) = (byte_chr 0 \<notin> set s)"
| "json_no_nul (JArr xs) = list_all (\<lambda>b. b) (map json_no_nul xs)"
| "json_no_nul (JObj fs) =
     list_all (\<lambda>(k, b). byte_chr 0 \<notin> set k \<and> b) (map (map_prod id json_no_nul) fs)"

section \<open>Sorting keeps the fields\<close>

lemma insert_field_keys: "fst ` set (insert_field f fs) = insert (fst f) (fst ` set fs)"
  by (induction f fs rule: insert_field.induct) auto

lemma sort_fields_keys [simp]: "fst ` set (sort_fields fs) = fst ` set fs"
  by (induction fs) (auto simp: insert_field_keys)

lemma insert_field_set:
  "fst f \<notin> fst ` set fs \<Longrightarrow> set (insert_field f fs) = insert f (set fs)"
  by (induction f fs rule: insert_field.induct) auto

lemma sort_fields_set: "distinct (map fst fs) \<Longrightarrow> set (sort_fields fs) = set fs"
proof (induction fs)
  case (Cons f fs)
  then have "fst f \<notin> fst ` set (sort_fields fs)" by simp
  with Cons show ?case by (simp add: insert_field_set)
qed simp

section \<open>Zero bytes\<close>

lemma json_no_nul_obj:
  "json_no_nul (JObj fs) \<longleftrightarrow> (\<forall>(k, v) \<in> set fs. byte_chr 0 \<notin> set k \<and> json_no_nul v)"
  by (auto simp: list_all_iff)

lemma insert_field_subset: "set (insert_field f fs) \<subseteq> insert f (set fs)"
  by (induction f fs rule: insert_field.induct) auto

lemma sort_fields_subset: "set (sort_fields fs) \<subseteq> set fs"
proof (induction fs)
  case (Cons f fs)
  then show ?case using insert_field_subset[of f "sort_fields fs"] by auto
qed simp

lemma canon_no_nul: "json_no_nul j \<Longrightarrow> json_no_nul (canon j)"
proof (induction j)
  case (JObj fs)
  have "byte_chr 0 \<notin> set k \<and> json_no_nul v" if kv: "(k, v) \<in> set (sort_fields (map (map_prod id canon) fs))" for k v
  proof -
    from kv sort_fields_subset have "(k, v) \<in> set (map (map_prod id canon) fs)" by blast
    then obtain u where u: "(k, u) \<in> set fs" "v = canon u" by auto
    then have "json_no_nul u" "byte_chr 0 \<notin> set k" using JObj.prems unfolding json_no_nul_obj by auto
    moreover have "u \<in> Basic_BNFs.snds (k, u)" by simp
    ultimately show ?thesis using JObj.IH[OF u(1)] u(2) by blast
  qed
  then show ?case by (auto simp: list_all_iff)
qed (auto simp: list_all_iff)

end
