(* ===== verification/Domain_Audit.thy ===== *)
theory Domain_Audit
  imports Go_Json Domain_Disbursement
begin

text \<open>
  \<open>internal/sensitivity/sensitivity.go\<close>, \<open>internal/domain/audit.go\<close> and
  \<open>internal/observability/redaction/redaction.go\<close>: which keys are sensitive, the recursive
  redaction of audit snapshots, and the construction of audit events. \<open>AuditSnapshot\<close> takes a Go
  value; here its argument is what \<open>json.Marshal\<close> makes of the value (\<open>None\<close> for \<open>nil\<close>, an error
  where marshalling fails), as \<open>marshal_Disbursement\<close> gives for the program's one caller.
\<close>

section \<open>Definitions\<close>

definition IsSensitiveKey :: "platform \<Rightarrow> string \<Rightarrow> bool" where
  "IsSensitiveKey P key =
     (let normalized = ToLower (unicode_lower P) (TrimSpace key)
      in Contains normalized ''password''
         \<or> Contains normalized ''authorization''
         \<or> Contains normalized ''account_number''
         \<or> Contains normalized ''bank_account''
         \<or> Contains normalized ''email''
         \<or> Contains normalized ''phone''
         \<or> Contains normalized ''tax_id''
         \<or> Contains normalized ''token'')"

definition redactedAuditValue :: string where
  "redactedAuditValue = ''[REDACTED]''"

fun redactAuditValue :: "platform \<Rightarrow> json \<Rightarrow> json" where
  "redactAuditValue P (JObj fs) =
     JObj (map (\<lambda>(key, nested).
       (key, if IsSensitiveKey P key then JStr redactedAuditValue else redactAuditValue P nested)) fs)"
| "redactAuditValue P (JArr xs) = JArr (map (redactAuditValue P) xs)"
| "redactAuditValue P value = value"

definition AuditSnapshot :: "platform \<Rightarrow> (go_error + json) option \<Rightarrow> go_error + json option" where
  "AuditSnapshot P value =
     (case value of
        None \<Rightarrow> Inr None
      | Some (Inl err) \<Rightarrow> Inl (WrapError ''marshal audit snapshot'' err)
      | Some (Inr encoded) \<Rightarrow> Inr (Some (redactAuditValue P (canon encoded))))"

text \<open>
  \<open>json.Marshal\<close> of a \<open>domain.Disbursement\<close>: the struct has no \<open>json\<close> tags, so the keys are the Go
  field names.
\<close>

definition marshal_Disbursement :: "platform \<Rightarrow> Disbursement \<Rightarrow> go_error + json" where
  "marshal_Disbursement P d =
     (case (json_time_ptr P (d_DecidedAt d), json_time_ptr P (d_DeletedAt d),
            json_time P (d_CreatedAt d), json_time P (d_UpdatedAt d)) of
        (Some decidedAt, Some deletedAt, Some createdAt, Some updatedAt) \<Rightarrow>
          Inr (JObj
            [(''ID'', json_uuid P (d_ID d)),
             (''RecipientName'', json_string (d_RecipientName d)),
             (''AccountNumber'', json_string (d_AccountNumber d)),
             (''BankCode'', json_string (d_BankCode d)),
             (''Amount'', json_int (d_Amount d)),
             (''AdminFee'', json_int (d_AdminFee d)),
             (''Status'', json_string (d_Status d)),
             (''Note'', json_string (d_Note d)),
             (''CreatedBy'', json_uuid P (d_CreatedBy d)),
             (''DecidedBy'', json_uuid P (d_DecidedBy d)),
             (''DecisionNote'', json_string (d_DecisionNote d)),
             (''DecidedAt'', decidedAt),
             (''DeletedAt'', deletedAt),
             (''CreatedAt'', createdAt),
             (''UpdatedAt'', updatedAt)])
      | _ \<Rightarrow> Inl (PlainError ''Time.MarshalJSON: year outside of range [0,9999]''))"

record AuditEvent =
  ev_EventID :: uuid
  ev_EntityType :: string
  ev_EntityID :: uuid
  ev_Action :: string
  ev_ActorID :: uuid
  ev_RequestID :: uuid
  ev_BeforeData :: "json option"
  ev_AfterData :: "json option"
  ev_OccurredAt :: time

definition NewAuditEvent ::
  "platform \<Rightarrow> uuid \<Rightarrow> string \<Rightarrow> uuid \<Rightarrow> string \<Rightarrow> uuid \<Rightarrow> uuid
   \<Rightarrow> (go_error + json) option \<Rightarrow> (go_error + json) option \<Rightarrow> time \<Rightarrow> go_error + AuditEvent" where
  "NewAuditEvent P eventID entityType entityID action actorID requestID before after occurredAt =
     (if eventID = uuid_Nil \<or> entityID = uuid_Nil \<or> actorID = uuid_Nil \<or> requestID = uuid_Nil
         \<or> TrimSpace entityType = '''' \<or> TrimSpace action = '''' \<or> IsZero occurredAt
      then Inl (PlainError ''invalid audit event'')
      else (case AuditSnapshot P before of
              Inl err \<Rightarrow> Inl err
            | Inr beforeData \<Rightarrow>
                (case AuditSnapshot P after of
                   Inl err \<Rightarrow> Inl err
                 | Inr afterData \<Rightarrow>
                     Inr \<lparr>ev_EventID = eventID, ev_EntityType = entityType, ev_EntityID = entityID,
                          ev_Action = action, ev_ActorID = actorID, ev_RequestID = requestID,
                          ev_BeforeData = beforeData, ev_AfterData = afterData,
                          ev_OccurredAt = occurredAt\<rparr>)))"

text \<open>Structured-log attributes: a key with its value.\<close>

definition Attribute :: "platform \<Rightarrow> string \<times> json \<Rightarrow> string \<times> json" where
  "Attribute P attribute =
     (if IsSensitiveKey P (fst attribute) then (fst attribute, JStr redactedAuditValue) else attribute)"

fun Attributes :: "platform \<Rightarrow> (string \<times> json) list \<Rightarrow> (string \<times> json) list" where
  "Attributes P [] = []"
| "Attributes P (attribute # rest) = Attribute P attribute # Attributes P rest"

definition SensitiveValue :: "string \<Rightarrow> string" where
  "SensitiveValue value = (if value = '''' then '''' else redactedAuditValue)"

text \<open>A value exposes a secret when some object in it has a sensitive key with its value intact.\<close>

fun exposes :: "platform \<Rightarrow> json \<Rightarrow> bool" where
  "exposes P (JObj fs) \<longleftrightarrow>
     (\<exists>(k, v) \<in> set fs. if IsSensitiveKey P k then v \<noteq> JStr redactedAuditValue else exposes P v)"
| "exposes P (JArr xs) \<longleftrightarrow> (\<exists>x \<in> set xs. exposes P x)"
| "exposes P _ \<longleftrightarrow> False"

section \<open>Redaction\<close>

lemma redact_not_exposes: "\<not> exposes P (redactAuditValue P j)"
  by (induction P j rule: redactAuditValue.induct) (auto split: if_splits)

lemma redact_idem: "redactAuditValue P (redactAuditValue P j) = redactAuditValue P j"
  by (induction P j rule: redactAuditValue.induct) auto

lemma redact_id_iff: "redactAuditValue P j = j \<longleftrightarrow> \<not> exposes P j"
proof (induction P j rule: redactAuditValue.induct)
  case (1 P fs)
  have "redactAuditValue P (JObj fs) = JObj fs \<longleftrightarrow>
      (\<forall>(k, v) \<in> set fs.
        (if IsSensitiveKey P k then JStr redactedAuditValue else redactAuditValue P v) = v)"
    by (induction fs) auto
  also have "\<dots> \<longleftrightarrow> (\<forall>(k, v) \<in> set fs.
      if IsSensitiveKey P k then v = JStr redactedAuditValue else \<not> exposes P v)"
    using 1 by (intro ball_cong refl) (auto split: prod.splits)
  also have "\<dots> \<longleftrightarrow> \<not> exposes P (JObj fs)" by (auto split: prod.splits if_splits)
  finally show ?case .
next
  case (2 P xs)
  have "redactAuditValue P (JArr xs) = JArr xs \<longleftrightarrow> (\<forall>x \<in> set xs. redactAuditValue P x = x)"
    by (induction xs) auto
  also have "\<dots> \<longleftrightarrow> (\<forall>x \<in> set xs. \<not> exposes P x)" using 2 by simp
  also have "\<dots> \<longleftrightarrow> \<not> exposes P (JArr xs)" by simp
  finally show ?case .
qed auto

lemma Attributes_map: "Attributes P as = map (Attribute P) as"
  by (induction as) auto

lemma redact_no_nul: "json_no_nul j \<Longrightarrow> json_no_nul (redactAuditValue P j)"
proof (induction P j rule: redactAuditValue.induct)
  case (1 P fs)
  have r: "byte_chr 0 \<notin> set redactedAuditValue" by code_simp
  have "byte_chr 0 \<notin> set k \<and> json_no_nul (if IsSensitiveKey P k then JStr redactedAuditValue else redactAuditValue P v)"
    if "(k, v) \<in> set fs" for k v
    using that 1 r unfolding json_no_nul_obj by (cases "IsSensitiveKey P k") auto
  then show ?case by (auto simp: list_all_iff)
qed (auto simp: list_all_iff)

end
