(* ===== verification/Domain_Idempotency.thy ===== *)
theory Domain_Idempotency
  imports Domain_Errors Go_Json
begin

text \<open>
  \<open>internal/domain/idempotency.go\<close>: claim requests, outcomes, completions and their validity. A
  response body is \<open>json.RawMessage\<close>; \<open>Some\<close> of the JSON value it denotes, \<open>None\<close> for bytes that are
  not valid JSON (such as the empty body of a \<open>NULL\<close> column).
\<close>

datatype IdempotencyState = IdempotencyInProgress | IdempotencyCompleted

type_synonym ClaimOutcome = string

definition ClaimAcquired :: ClaimOutcome where "ClaimAcquired = ''ACQUIRED''"
definition ClaimReplayed :: ClaimOutcome where "ClaimReplayed = ''REPLAYED''"
definition ClaimInProgress :: ClaimOutcome where "ClaimInProgress = ''IN_PROGRESS''"
definition ClaimReused :: ClaimOutcome where "ClaimReused = ''REUSED''"

lemmas outcome_defs = ClaimAcquired_def ClaimReplayed_def ClaimInProgress_def ClaimReused_def

record IdempotencyScope =
  sc_UserID :: uuid
  sc_Endpoint :: string
  sc_Key :: uuid

record IdempotencyClaimRequest =
  cr_Scope :: IdempotencyScope
  cr_Fingerprint :: string
  cr_ClaimID :: uuid
  cr_LeaseUntil :: time
  cr_ExpiresAt :: time
  cr_Now :: time

record ReplayResponse =
  rp_StatusCode :: int
  rp_Body :: "json option"
  rp_DisbursementID :: uuid

record IdempotencyClaimResult =
  res_Outcome :: ClaimOutcome
  res_ClaimID :: uuid
  res_Replay :: "ReplayResponse option"
  res_RetryAfter :: duration

record IdempotencyCompletion =
  cm_Scope :: IdempotencyScope
  cm_ClaimID :: uuid
  cm_Response :: ReplayResponse
  cm_CompletedAt :: time

text \<open>The zero value of \<open>IdempotencyClaimResult\<close>, for composite literals that set some fields.\<close>

definition zero_claim_result :: IdempotencyClaimResult where
  "zero_claim_result = \<lparr>res_Outcome = '''', res_ClaimID = uuid_Nil, res_Replay = None, res_RetryAfter = 0\<rparr>"

definition ParseIdempotencyKey :: "platform \<Rightarrow> string \<Rightarrow> go_error + uuid" where
  "ParseIdempotencyKey P value =
     (case uuid_Parse P value of
        None \<Rightarrow> Inl (DomainError (new_error CodeInvalidIdempotencyKey ''Idempotency-Key harus UUID v4'' 400))
      | Some key \<Rightarrow>
          if uuid_Version P key \<noteq> 4
          then Inl (DomainError (new_error CodeInvalidIdempotencyKey ''Idempotency-Key harus UUID v4'' 400))
          else Inr key)"

definition IdempotencyScope_Valid :: "IdempotencyScope \<Rightarrow> bool" where
  "IdempotencyScope_Valid scope \<longleftrightarrow>
     sc_UserID scope \<noteq> uuid_Nil \<and> sc_Endpoint scope \<noteq> '''' \<and> sc_Key scope \<noteq> uuid_Nil"

definition IdempotencyClaimRequest_Valid :: "IdempotencyClaimRequest \<Rightarrow> bool" where
  "IdempotencyClaimRequest_Valid request \<longleftrightarrow>
     IdempotencyScope_Valid (cr_Scope request) \<and> cr_ClaimID request \<noteq> uuid_Nil
     \<and> cr_LeaseUntil request > cr_Now request \<and> cr_ExpiresAt request > cr_LeaseUntil request"

definition ReplayResponse_Valid :: "ReplayResponse \<Rightarrow> bool" where
  "ReplayResponse_Valid response \<longleftrightarrow>
     rp_StatusCode response \<ge> 200 \<and> rp_StatusCode response \<le> 299
     \<and> rp_DisbursementID response \<noteq> uuid_Nil \<and> rp_Body response \<noteq> None"

definition IdempotencyCompletion_Valid :: "IdempotencyCompletion \<Rightarrow> bool" where
  "IdempotencyCompletion_Valid completion \<longleftrightarrow>
     IdempotencyScope_Valid (cm_Scope completion) \<and> cm_ClaimID completion \<noteq> uuid_Nil
     \<and> ReplayResponse_Valid (cm_Response completion) \<and> \<not> IsZero (cm_CompletedAt completion)"

lemma outcome_distinct [simp]:
  "ClaimAcquired \<noteq> ClaimReplayed" "ClaimAcquired \<noteq> ClaimInProgress" "ClaimAcquired \<noteq> ClaimReused"
  "ClaimReplayed \<noteq> ClaimAcquired" "ClaimReplayed \<noteq> ClaimInProgress" "ClaimReplayed \<noteq> ClaimReused"
  "ClaimInProgress \<noteq> ClaimAcquired" "ClaimInProgress \<noteq> ClaimReplayed" "ClaimInProgress \<noteq> ClaimReused"
  "ClaimReused \<noteq> ClaimAcquired" "ClaimReused \<noteq> ClaimReplayed" "ClaimReused \<noteq> ClaimInProgress"
  by (simp_all add: outcome_defs)

end
