(* ===== verification/Metrics.thy ===== *)
theory Metrics
  imports Platform
begin

text \<open>
  \<open>internal/observability/metrics/collector.go\<close>: the counters and gauges. Counters are \<open>uint64\<close>,
  gauges \<open>int64\<close>. The collector's lock and atomics make each method one step; the double-checked
  creation of a counter in \<open>incMapCounter\<close> is then: create it at zero when absent, add one.
\<close>

type_synonym counter = "64 word"

record MetricsCollector =
  httpRequestsTotal :: "string \<rightharpoonup> counter"
  httpDurationMsTotal :: counter
  httpDurationMsCount :: counter
  idempotencyClaimsTotal :: "string \<rightharpoonup> counter"
  finalizationsTotal :: "string \<rightharpoonup> counter"
  authFailuresTotal :: "string \<rightharpoonup> counter"
  rateLimiterEvictionsTotal :: counter
  outboxBacklogDepth :: int
  outboxDeliveriesTotal :: counter
  outboxDeliveryFailures :: counter
  outboxReconcileWarning :: int
  outboxReconcileCritical :: int
  dbConnectionsOpen :: int
  dbConnectionsInUse :: int
  dbConnectionsIdle :: int

definition NewMetricsCollector :: MetricsCollector where
  "NewMetricsCollector =
     \<lparr>httpRequestsTotal = Map.empty, httpDurationMsTotal = 0, httpDurationMsCount = 0,
      idempotencyClaimsTotal = Map.empty, finalizationsTotal = Map.empty,
      authFailuresTotal = Map.empty, rateLimiterEvictionsTotal = 0, outboxBacklogDepth = 0,
      outboxDeliveriesTotal = 0, outboxDeliveryFailures = 0, outboxReconcileWarning = 0,
      outboxReconcileCritical = 0, dbConnectionsOpen = 0, dbConnectionsInUse = 0,
      dbConnectionsIdle = 0\<rparr>"

definition incMapCounter :: "(string \<rightharpoonup> counter) \<Rightarrow> string \<Rightarrow> (string \<rightharpoonup> counter)" where
  "incMapCounter targetMap key =
     (let m = (if targetMap key = None then targetMap(key \<mapsto> 0) else targetMap)
      in m(key \<mapsto> the (m key) + 1))"

definition normalizeMethod :: "string \<Rightarrow> string" where
  "normalizeMethod m =
     (if m \<in> {''GET'', ''HEAD'', ''POST'', ''PUT'', ''PATCH'', ''DELETE'', ''OPTIONS'', ''CONNECT'', ''TRACE''}
      then m else ''OTHER'')"

definition is_hex_byte :: "char \<Rightarrow> bool" where
  "is_hex_byte c \<longleftrightarrow>
     (48 \<le> byte_val c \<and> byte_val c \<le> 57) \<or> (97 \<le> byte_val c \<and> byte_val c \<le> 102)
     \<or> (65 \<le> byte_val c \<and> byte_val c \<le> 70)"

text \<open>\<open>uuidRegex\<close>: hexadecimal groups of 8, 4, 4, 4 and 12 digits joined by hyphens.\<close>

definition starts_with_uuid :: "string \<Rightarrow> bool" where
  "starts_with_uuid s \<longleftrightarrow>
     36 \<le> length s
     \<and> list_all (\<lambda>i. if i \<in> {8, 13, 18, 23} then s ! i = CHR ''-'' else is_hex_byte (s ! i)) [0..<36]"

fun replace_uuids :: "string \<Rightarrow> string" where
  "replace_uuids [] = []"
| "replace_uuids (c # cs) =
     (if starts_with_uuid (c # cs) then '':id'' @ replace_uuids (drop 35 cs) else c # replace_uuids cs)"

definition sanitizePath :: "string \<Rightarrow> string" where
  "sanitizePath path = (if path = '''' then ''/'' else replace_uuids path)"

definition httpStatusString :: "int \<Rightarrow> string" where
  "httpStatusString status =
     (if 200 \<le> status \<and> status < 300 then ''2xx''
      else if 300 \<le> status \<and> status < 400 then ''3xx''
      else if 400 \<le> status \<and> status < 500 then ''4xx''
      else if 500 \<le> status then ''5xx''
      else ''other'')"

definition RecordHTTPRequest :: "string \<Rightarrow> string \<Rightarrow> int \<Rightarrow> int \<Rightarrow> MetricsCollector \<Rightarrow> MetricsCollector" where
  "RecordHTTPRequest m path status durationMs c =
     (let key = normalizeMethod m @ '' '' @ sanitizePath path @ '' '' @ httpStatusString status;
          c1 = c\<lparr>httpRequestsTotal := incMapCounter (httpRequestsTotal c) key\<rparr>;
          c2 = (if durationMs > 0
                then c1\<lparr>httpDurationMsTotal := httpDurationMsTotal c1 + of_int durationMs\<rparr> else c1)
      in c2\<lparr>httpDurationMsCount := httpDurationMsCount c2 + 1\<rparr>)"

definition RecordIdempotencyClaim :: "string \<Rightarrow> MetricsCollector \<Rightarrow> MetricsCollector" where
  "RecordIdempotencyClaim result c =
     c\<lparr>idempotencyClaimsTotal := incMapCounter (idempotencyClaimsTotal c) result\<rparr>"

definition RecordFinalizationOutcome :: "string \<Rightarrow> MetricsCollector \<Rightarrow> MetricsCollector" where
  "RecordFinalizationOutcome outcome c =
     c\<lparr>finalizationsTotal := incMapCounter (finalizationsTotal c) outcome\<rparr>"

definition RecordAuthFailure :: "string \<Rightarrow> MetricsCollector \<Rightarrow> MetricsCollector" where
  "RecordAuthFailure reason c =
     c\<lparr>authFailuresTotal := incMapCounter (authFailuresTotal c) reason\<rparr>"

definition RecordRateLimiterEviction :: "MetricsCollector \<Rightarrow> MetricsCollector" where
  "RecordRateLimiterEviction c = c\<lparr>rateLimiterEvictionsTotal := rateLimiterEvictionsTotal c + 1\<rparr>"

definition RecordDeliverySuccess :: "MetricsCollector \<Rightarrow> MetricsCollector" where
  "RecordDeliverySuccess c = c\<lparr>outboxDeliveriesTotal := outboxDeliveriesTotal c + 1\<rparr>"

definition RecordDeliveryFailure :: "MetricsCollector \<Rightarrow> MetricsCollector" where
  "RecordDeliveryFailure c = c\<lparr>outboxDeliveryFailures := outboxDeliveryFailures c + 1\<rparr>"

definition SetBacklogDepth :: "int \<Rightarrow> MetricsCollector \<Rightarrow> MetricsCollector" where
  "SetBacklogDepth depth c = c\<lparr>outboxBacklogDepth := depth\<rparr>"

definition SetReconciliationCounts :: "int \<Rightarrow> int \<Rightarrow> MetricsCollector \<Rightarrow> MetricsCollector" where
  "SetReconciliationCounts warning critical c =
     c\<lparr>outboxReconcileWarning := warning, outboxReconcileCritical := critical\<rparr>"

definition UpdateDBStats :: "int \<Rightarrow> int \<Rightarrow> int \<Rightarrow> MetricsCollector \<Rightarrow> MetricsCollector" where
  "UpdateDBStats opened inUse idle c =
     c\<lparr>dbConnectionsOpen := opened, dbConnectionsInUse := inUse, dbConnectionsIdle := idle\<rparr>"

text \<open>A label's counter, zero when it was never counted.\<close>

definition counter_of :: "(string \<rightharpoonup> counter) \<Rightarrow> string \<Rightarrow> counter" where
  "counter_of m k = (case m k of None \<Rightarrow> 0 | Some v \<Rightarrow> v)"

lemma counter_of_inc [simp]:
  "counter_of (incMapCounter m k) k' = (if k' = k then counter_of m k + 1 else counter_of m k')"
  by (auto simp: counter_of_def incMapCounter_def Let_def split: option.splits)

end
