(* ===== verification/Database.thy ===== *)
theory Database
  imports Domain_Disbursement Domain_Audit Domain_Idempotency Metrics
begin

text \<open>
  The PostgreSQL schema of \<open>migrations/000001_initial_schema.up.sql\<close> and the runtime the services
  act in. A table is a list of rows, its constraints are the predicates below, and a statement is
  a function from the server's \<open>now()\<close> and the database to a result and the new database; a
  statement that fails changes nothing. Columns that only ever take a server-side default and
  that no statement of the program reads (the \<open>created_at\<close> of users, keys, outbox and logs, the
  \<open>updated_at\<close> of users and keys, \<open>audit_logs.id\<close>) are left out.

  The runtime \<open>world\<close> has the committed database, the working copy of the open transaction, the
  metrics collector (\<open>None\<close> when the service has none) and the number of external calls made so
  far, which indexes the environment's choices in the platform. \<open>'a go\<close> is a computation that may
  fail with a Go error. \<open>WithinTransaction\<close> is \<open>internal/repository/postgres/transaction.go\<close>.
\<close>

section \<open>Schema\<close>

record user_row =
  ur_id :: uuid
  ur_username :: string
  ur_password_hash :: string
  ur_role :: string

record session_row =
  rs_id :: uuid
  rs_user_id :: uuid
  rs_token_hash :: string
  rs_expires_at :: time
  rs_revoked_at :: "time option"
  rs_replaced_by_id :: "uuid option"
  rs_created_at :: time

record dbDisbursement =
  row_ID :: uuid
  row_RecipientName :: string
  row_AccountNumber :: string
  row_BankCode :: string
  row_Amount :: int
  row_AdminFee :: int
  row_Status :: string
  row_Note :: "string option"
  row_CreatedBy :: uuid
  row_DecidedBy :: "uuid option"
  row_DecisionNote :: "string option"
  row_DecidedAt :: "time option"
  row_DeletedAt :: "time option"
  row_CreatedAt :: time
  row_UpdatedAt :: time

record idempotency_row =
  ik_user_id :: uuid
  ik_endpoint :: string
  ik_key :: uuid
  ik_request_hash :: string
  ik_state :: IdempotencyState
  ik_claim_id :: uuid
  ik_lease_until :: time
  ik_expires_at :: time
  ik_disbursement_id :: "uuid option"
  ik_response_status :: "int option"
  ik_response_body :: "json option"

datatype outbox_delivery_state = DeliveryPending | DeliveryDelivered

record outbox_row =
  ob_event :: AuditEvent
  ob_delivery_state :: outbox_delivery_state
  ob_available_at :: time
  ob_delivered_at :: "time option"
  ob_delivery_attempts :: int
  ob_last_delivery_error :: "string option"

text \<open>\<open>audit_logs\<close> has the columns of an event, its \<open>source_event_id\<close> being the event's id.\<close>

record database =
  users :: "user_row list"
  refresh_sessions :: "session_row list"
  disbursements :: "dbDisbursement list"
  idempotency_keys :: "idempotency_row list"
  audit_outbox :: "outbox_row list"
  audit_logs :: "AuditEvent list"

definition user_exists :: "database \<Rightarrow> uuid \<Rightarrow> bool" where
  "user_exists d u \<longleftrightarrow> (\<exists>r \<in> set (users d). ur_id r = u)"

definition disbursement_exists :: "database \<Rightarrow> uuid \<Rightarrow> bool" where
  "disbursement_exists d i \<longleftrightarrow> (\<exists>r \<in> set (disbursements d). row_ID r = i)"

definition pg_error :: "string \<Rightarrow> go_error" where
  "pg_error code = DriverError (PqError code)"

text \<open>
  Conversion of text to a column: an invalid encoding or a zero byte is refused (22021), a text
  longer than \<open>varchar(n)\<close> is refused (22001) unless what exceeds it is blanks, which are cut.
\<close>

definition pg_text_ok :: "string \<Rightarrow> bool" where
  "pg_text_ok s \<longleftrightarrow> valid_utf8 s \<and> byte_chr 0 \<notin> set s"

definition text_column :: "string \<Rightarrow> go_error + string" where
  "text_column s = (if pg_text_ok s then Inr s else Inl (pg_error ''22021''))"

definition varchar :: "nat \<Rightarrow> string \<Rightarrow> go_error + string" where
  "varchar n s =
     (if \<not> pg_text_ok s then Inl (pg_error ''22021'')
      else if RuneCountInString s \<le> n then Inr s
      else if list_all (\<lambda>(r, _). r = 32) (drop n (chunks s))
      then Inr (concat (map snd (take n (chunks s))))
      else Inl (pg_error ''22001''))"

definition varchar_option :: "nat \<Rightarrow> string option \<Rightarrow> go_error + string option" where
  "varchar_option n x = (case x of None \<Rightarrow> Inr None | Some s \<Rightarrow> bind_result (varchar n s) (\<lambda>t. Inr (Some t)))"

definition int4 :: "int \<Rightarrow> go_error + int" where
  "int4 i = (if - (2 ^ 31) \<le> i \<and> i < 2 ^ 31 then Inr i else Inl (pg_error ''22003''))"

definition status_enum :: "string \<Rightarrow> go_error + string" where
  "status_enum s =
     (if s = StatusPending \<or> s = StatusApproved \<or> s = StatusRejected then Inr s
      else Inl (pg_error ''22P02''))"

definition jsonb :: "json option \<Rightarrow> go_error + json option" where
  "jsonb j = (case j of None \<Rightarrow> Inr None
              | Some v \<Rightarrow> if json_no_nul v then Inr (Some v) else Inl (pg_error ''22P05''))"

text \<open>The CHECK constraints of the schema, one predicate per table.\<close>

definition disbursement_check :: "dbDisbursement \<Rightarrow> bool" where
  "disbursement_check r \<longleftrightarrow>
     (6 \<le> length (row_AccountNumber r) \<and> length (row_AccountNumber r) \<le> 34
      \<and> list_all is_digit_byte (row_AccountNumber r))
     \<and> (3 \<le> length (row_BankCode r) \<and> length (row_BankCode r) \<le> 10
      \<and> list_all bank_code_byte (row_BankCode r))
     \<and> (10000 \<le> row_Amount r \<and> row_Amount r \<le> 100000000000)
     \<and> ((row_Amount r < 5000000 \<and> row_AdminFee r = 2500)
        \<or> (row_Amount r \<ge> 5000000 \<and> row_AdminFee r = 5000))
     \<and> ((row_Status r = ''PENDING'' \<and> row_DecidedBy r = None \<and> row_DecidedAt r = None)
        \<or> (row_Status r \<in> {''APPROVED'', ''REJECTED''} \<and> row_DecidedBy r \<noteq> None \<and> row_DecidedAt r \<noteq> None))
     \<and> (row_DeletedAt r = None \<or> row_Status r = ''PENDING'')"

definition session_check :: "session_row \<Rightarrow> bool" where
  "session_check r \<longleftrightarrow> rs_expires_at r > rs_created_at r"

definition idempotency_check :: "idempotency_row \<Rightarrow> bool" where
  "idempotency_check r \<longleftrightarrow>
     ik_lease_until r \<le> ik_expires_at r
     \<and> ((ik_state r = IdempotencyInProgress \<and> ik_response_status r = None \<and> ik_response_body r = None)
        \<or> (ik_state r = IdempotencyCompleted
           \<and> (\<exists>s. ik_response_status r = Some s \<and> 200 \<le> s \<and> s \<le> 299)
           \<and> ik_response_body r \<noteq> None))"

definition outbox_check :: "outbox_row \<Rightarrow> bool" where
  "outbox_check r \<longleftrightarrow>
     ((ob_delivery_state r = DeliveryPending \<and> ob_delivered_at r = None)
      \<or> (ob_delivery_state r = DeliveryDelivered \<and> ob_delivered_at r \<noteq> None))
     \<and> 0 \<le> ob_delivery_attempts r"

definition ik_pk :: "idempotency_row \<Rightarrow> uuid \<times> string \<times> uuid" where
  "ik_pk r = (ik_user_id r, ik_endpoint r, ik_key r)"

definition ob_id :: "outbox_row \<Rightarrow> uuid" where
  "ob_id r = ev_EventID (ob_event r)"

text \<open>What the schema guarantees of a database at all times.\<close>

definition db_ok :: "database \<Rightarrow> bool" where
  "db_ok d \<longleftrightarrow>
     unique_by ur_id (users d) \<and> unique_by ur_username (users d)
     \<and> unique_by rs_id (refresh_sessions d) \<and> unique_by rs_token_hash (refresh_sessions d)
     \<and> unique_by rs_replaced_by_id (filter (\<lambda>r. rs_replaced_by_id r \<noteq> None) (refresh_sessions d))
     \<and> list_all (\<lambda>r. session_check r \<and> user_exists d (rs_user_id r)) (refresh_sessions d)
     \<and> unique_by row_ID (disbursements d)
     \<and> list_all (\<lambda>r. disbursement_check r \<and> user_exists d (row_CreatedBy r)
                     \<and> (\<forall>u. row_DecidedBy r = Some u \<longrightarrow> user_exists d u)) (disbursements d)
     \<and> unique_by ik_pk (idempotency_keys d)
     \<and> list_all (\<lambda>r. idempotency_check r \<and> user_exists d (ik_user_id r)
                     \<and> (\<forall>i. ik_disbursement_id r = Some i \<longrightarrow> disbursement_exists d i)) (idempotency_keys d)
     \<and> unique_by ob_id (audit_outbox d)
     \<and> list_all (\<lambda>r. outbox_check r \<and> user_exists d (ev_ActorID (ob_event r))) (audit_outbox d)
     \<and> unique_by ev_EventID (audit_logs d)
     \<and> list_all (\<lambda>e. user_exists d (ev_ActorID e)) (audit_logs d)"

section \<open>Runtime\<close>

record world =
  committed :: database
  working :: "database option"
  tx_now :: time
  calls :: nat
  collector :: "MetricsCollector option"

type_synonym 'a go = "world \<Rightarrow> (go_error + 'a) \<times> world"
type_synonym 'a stmt = "time \<Rightarrow> database \<Rightarrow> (go_error + 'a) \<times> database"

definition ok :: "'a \<Rightarrow> 'a go" where
  "ok x = (\<lambda>w. (Inr x, w))"

definition fail :: "go_error \<Rightarrow> 'a go" where
  "fail e = (\<lambda>w. (Inl e, w))"

text \<open>\<open>handle m f\<close> runs \<open>m\<close> and passes its result, error or value, to \<open>f\<close>; \<open>andThen\<close> returns an error at once.\<close>

definition handle :: "'a go \<Rightarrow> (go_error + 'a \<Rightarrow> 'b go) \<Rightarrow> 'b go" where
  "handle m f = (\<lambda>w. case m w of (r, w') \<Rightarrow> f r w')"

definition andThen :: "'a go \<Rightarrow> ('a \<Rightarrow> 'b go) \<Rightarrow> 'b go" where
  "andThen m f = handle m (\<lambda>r. case r of Inl e \<Rightarrow> fail e | Inr x \<Rightarrow> f x)"

definition lift_result :: "go_error + 'a \<Rightarrow> 'a go" where
  "lift_result r = (\<lambda>w. (r, w))"

text \<open>A statement with a text parameter that PostgreSQL cannot decode is refused.\<close>

definition with_text :: "string \<Rightarrow> 'a stmt \<Rightarrow> 'a stmt" where
  "with_text s st t d = (if pg_text_ok s then st t d else (Inl (pg_error ''22021''), d))"

declare with_text_def [stmt_defs]

text \<open>The environment's next clock reading and random identifier.\<close>

definition read_clock :: "platform \<Rightarrow> time go" where
  "read_clock P = (\<lambda>w. (Inr (time_Now P (calls w)), w\<lparr>calls := Suc (calls w)\<rparr>))"

definition new_uuid :: "platform \<Rightarrow> uuid go" where
  "new_uuid P = (\<lambda>w. (Inr (uuid_New P (calls w)), w\<lparr>calls := Suc (calls w)\<rparr>))"

definition new_random_uuid :: "platform \<Rightarrow> uuid go" where
  "new_random_uuid P = (\<lambda>w.
     (if uuid_NewRandom_error P (calls w) then Inl (PlainError ''random source failed'')
      else Inr (uuid_New P (calls w)),
      w\<lparr>calls := Suc (calls w)\<rparr>))"

text \<open>\<open>if s.metrics != nil { s.metrics.Record(...) }\<close>\<close>

definition record_metric :: "(MetricsCollector \<Rightarrow> MetricsCollector) \<Rightarrow> unit go" where
  "record_metric f = (\<lambda>w. (Inr (), w\<lparr>collector := map_option f (collector w)\<rparr>))"

text \<open>A statement through the connection pool: it commits on its own.\<close>

definition pool_exec :: "platform \<Rightarrow> 'a stmt \<Rightarrow> 'a go" where
  "pool_exec P st = (\<lambda>w.
     let n = calls w; w1 = w\<lparr>calls := Suc n\<rparr>; out = st (pg_now P n) (committed w)
     in case db_fault_at P n of
          None \<Rightarrow> (fst out, w1\<lparr>committed := snd out\<rparr>)
        | Some (Refused e) \<Rightarrow> (Inl (DriverError e), w1)
        | Some (ReplyLost e) \<Rightarrow> (Inl (DriverError e), w1\<lparr>committed := snd out\<rparr>))"

text \<open>
  A statement of the open transaction, on its working copy. Without one,
  \<open>unwrapTransaction\<close> fails before the statement.
\<close>

definition unsupported_transaction :: go_error where
  "unsupported_transaction = RepositoryError ErrorDependency (PlainError ''unsupported transaction'')"

definition unwrapTransaction :: "unit go" where
  "unwrapTransaction = (\<lambda>w. (if working w = None then Inl unsupported_transaction else Inr (), w))"

definition tx_exec :: "platform \<Rightarrow> 'a stmt \<Rightarrow> 'a go" where
  "tx_exec P st = (\<lambda>w.
     let n = calls w; w1 = w\<lparr>calls := Suc n\<rparr>
     in case working w of
          None \<Rightarrow> (Inl unsupported_transaction, w1)
        | Some d \<Rightarrow>
            (let out = st (tx_now w) d
             in case db_fault_at P n of
                  None \<Rightarrow> (fst out, w1\<lparr>working := Some (snd out)\<rparr>)
                | Some (Refused e) \<Rightarrow> (Inl (DriverError e), w1)
                | Some (ReplyLost e) \<Rightarrow> (Inl (DriverError e), w1\<lparr>working := Some (snd out)\<rparr>)))"

definition commit_tx :: "platform \<Rightarrow> unit go" where
  "commit_tx P = (\<lambda>w.
     let n = calls w; w1 = w\<lparr>calls := Suc n\<rparr>;
         w2 = (case working w of None \<Rightarrow> w1 | Some d \<Rightarrow> w1\<lparr>committed := d\<rparr>)
     in case db_fault_at P n of
          None \<Rightarrow> (Inr (), w2)
        | Some (Refused e) \<Rightarrow> (Inl (DriverError e), w1)
        | Some (ReplyLost e) \<Rightarrow> (Inl (DriverError e), w2))"

definition begin_tx :: "platform \<Rightarrow> unit go" where
  "begin_tx P = (\<lambda>w.
     let n = calls w; w1 = w\<lparr>calls := Suc n\<rparr>
     in case db_fault_at P n of
          None \<Rightarrow> (Inr (), w1\<lparr>working := Some (committed w), tx_now := pg_now P n\<rparr>)
        | Some (Refused e) \<Rightarrow> (Inl (DriverError e), w1)
        | Some (ReplyLost e) \<Rightarrow> (Inl (DriverError e), w1))"

text \<open>
  \<open>Transactor.WithinTransaction\<close>: begin, run the operation, commit; on any error the deferred
  rollback drops the working copy. The values the closure assigns to captured variables are its
  result here.
\<close>

definition WithinTransaction :: "platform \<Rightarrow> 'a go \<Rightarrow> 'a go" where
  "WithinTransaction P operation = (\<lambda>w.
     case begin_tx P w of
       (Inl e, w1) \<Rightarrow> (Inl (Classify e), w1)
     | (Inr _, w1) \<Rightarrow>
         (case operation w1 of
            (Inl e, w2) \<Rightarrow> (Inl e, w2\<lparr>working := working w\<rparr>)
          | (Inr x, w2) \<Rightarrow>
              (case commit_tx P w2 of
                 (Inl e, w3) \<Rightarrow> (Inl (Classify e), w3\<lparr>working := working w\<rparr>)
               | (Inr _, w3) \<Rightarrow> (Inr x, w3\<lparr>working := working w\<rparr>))))"

lemmas go_unfold =
  ok_def fail_def handle_def andThen_def lift_result_def read_clock_def new_uuid_def
  new_random_uuid_def record_metric_def

section \<open>Replacing one table\<close>

lemma exists_simps [simp]:
  "user_exists (d\<lparr>refresh_sessions := a\<rparr>) u = user_exists d u"
  "user_exists (d\<lparr>disbursements := b\<rparr>) u = user_exists d u"
  "user_exists (d\<lparr>idempotency_keys := c\<rparr>) u = user_exists d u"
  "user_exists (d\<lparr>audit_outbox := e\<rparr>) u = user_exists d u"
  "user_exists (d\<lparr>audit_logs := f\<rparr>) u = user_exists d u"
  "disbursement_exists (d\<lparr>refresh_sessions := a\<rparr>) i = disbursement_exists d i"
  "disbursement_exists (d\<lparr>idempotency_keys := c\<rparr>) i = disbursement_exists d i"
  "disbursement_exists (d\<lparr>audit_outbox := e\<rparr>) i = disbursement_exists d i"
  "disbursement_exists (d\<lparr>audit_logs := f\<rparr>) i = disbursement_exists d i"
  by (simp_all add: user_exists_def disbursement_exists_def)

text \<open>One predicate per table for what the schema says of its rows.\<close>

definition disbursement_row_ok :: "database \<Rightarrow> dbDisbursement \<Rightarrow> bool" where
  "disbursement_row_ok d r \<longleftrightarrow> disbursement_check r \<and> user_exists d (row_CreatedBy r)
     \<and> (\<forall>u. row_DecidedBy r = Some u \<longrightarrow> user_exists d u)"

definition idempotency_row_ok :: "database \<Rightarrow> idempotency_row \<Rightarrow> bool" where
  "idempotency_row_ok d r \<longleftrightarrow> idempotency_check r \<and> user_exists d (ik_user_id r)
     \<and> (\<forall>i. ik_disbursement_id r = Some i \<longrightarrow> disbursement_exists d i)"

definition outbox_row_ok :: "database \<Rightarrow> outbox_row \<Rightarrow> bool" where
  "outbox_row_ok d r \<longleftrightarrow> outbox_check r \<and> user_exists d (ev_ActorID (ob_event r))"

lemma db_okD:
  assumes "db_ok d"
  shows "unique_by row_ID (disbursements d)" "unique_by ik_pk (idempotency_keys d)"
    "unique_by ob_id (audit_outbox d)" "unique_by ev_EventID (audit_logs d)"
    "unique_by rs_token_hash (refresh_sessions d)" "unique_by rs_id (refresh_sessions d)"
    "unique_by ur_id (users d)" "unique_by ur_username (users d)"
    "r \<in> set (disbursements d) \<Longrightarrow> disbursement_row_ok d r"
    "k \<in> set (idempotency_keys d) \<Longrightarrow> idempotency_row_ok d k"
    "x \<in> set (audit_outbox d) \<Longrightarrow> outbox_row_ok d x"
    "l \<in> set (audit_logs d) \<Longrightarrow> user_exists d (ev_ActorID l)"
    "s \<in> set (refresh_sessions d) \<Longrightarrow> session_check s \<and> user_exists d (rs_user_id s)"
  using assms unfolding db_ok_def disbursement_row_ok_def idempotency_row_ok_def outbox_row_ok_def
  by (auto simp: list_all_iff)

lemma db_ok_disbursements:
  assumes "db_ok d" "unique_by row_ID rows" "\<And>r. r \<in> set rows \<Longrightarrow> disbursement_row_ok d r"
    and "row_ID ` set (disbursements d) \<subseteq> row_ID ` set rows"
  shows "db_ok (d\<lparr>disbursements := rows\<rparr>)"
proof -
  have "disbursement_exists d i \<Longrightarrow> disbursement_exists (d\<lparr>disbursements := rows\<rparr>) i" for i
    using assms(4) unfolding disbursement_exists_def by (auto simp: image_subset_iff) (metis imageE)
  then show ?thesis using assms(1-3)
    by (auto simp: db_ok_def list_all_iff disbursement_row_ok_def)
qed

lemma db_ok_idempotency_keys:
  assumes "db_ok d" "unique_by ik_pk rows" "\<And>r. r \<in> set rows \<Longrightarrow> idempotency_row_ok d r"
  shows "db_ok (d\<lparr>idempotency_keys := rows\<rparr>)"
  using assms by (auto simp: db_ok_def list_all_iff idempotency_row_ok_def)

lemma db_ok_audit_outbox:
  assumes "db_ok d" "unique_by ob_id rows" "\<And>r. r \<in> set rows \<Longrightarrow> outbox_row_ok d r"
  shows "db_ok (d\<lparr>audit_outbox := rows\<rparr>)"
  using assms by (auto simp: db_ok_def list_all_iff outbox_row_ok_def)

lemma db_ok_audit_logs:
  assumes "db_ok d" "unique_by ev_EventID rows" "\<And>e. e \<in> set rows \<Longrightarrow> user_exists d (ev_ActorID e)"
  shows "db_ok (d\<lparr>audit_logs := rows\<rparr>)"
  using assms by (auto simp: db_ok_def list_all_iff)

lemma db_ok_refresh_sessions:
  assumes "db_ok d" "unique_by rs_id rows" "unique_by rs_token_hash rows"
    and "unique_by rs_replaced_by_id (filter (\<lambda>r. rs_replaced_by_id r \<noteq> None) rows)"
    and "\<And>r. r \<in> set rows \<Longrightarrow> session_check r \<and> user_exists d (rs_user_id r)"
  shows "db_ok (d\<lparr>refresh_sessions := rows\<rparr>)"
  using assms by (auto simp: db_ok_def list_all_iff)

section \<open>Successful runs\<close>

text \<open>What a computation that returned a value did, step by step.\<close>

lemma ok_Inr [simp]: "ok x w = (Inr y, w') \<longleftrightarrow> y = x \<and> w' = w"
  by (auto simp: ok_def)

lemma fail_Inr [simp]: "fail e w \<noteq> (Inr y, w')"
  by (simp add: fail_def)

lemma lift_result_Inr [simp]: "lift_result r w = (Inr y, w') \<longleftrightarrow> r = Inr y \<and> w' = w"
  by (auto simp: lift_result_def)

lemma handle_eq: "handle m f w = out \<longleftrightarrow> (\<exists>r w1. m w = (r, w1) \<and> f r w1 = out)"
  by (cases "m w") (simp add: handle_def)

lemma andThen_Inr:
  "andThen m f w = (Inr y, w') \<longleftrightarrow> (\<exists>x w1. m w = (Inr x, w1) \<and> f x w1 = (Inr y, w'))"
  by (cases "m w") (auto simp: andThen_def handle_def split: sum.splits)

text \<open>The store's idiom: a driver error is classified and returned, a value goes on.\<close>

lemma classified_Inr:
  "handle m (\<lambda>r. case r of Inl err \<Rightarrow> fail (g err) | Inr x \<Rightarrow> f x) w = (Inr y, w')
   \<longleftrightarrow> (\<exists>x w1. m w = (Inr x, w1) \<and> f x w1 = (Inr y, w'))"
  by (cases "m w") (auto simp: handle_def split: sum.splits)

lemma unwrapTransaction_Inr [simp]:
  "unwrapTransaction w = (Inr u, w') \<longleftrightarrow> working w \<noteq> None \<and> w' = w"
  by (auto simp: unwrapTransaction_def)

lemma read_clock_Inr:
  "read_clock P w = (Inr t, w') \<longleftrightarrow> t = time_Now P (calls w) \<and> w' = w\<lparr>calls := Suc (calls w)\<rparr>"
  by (auto simp: read_clock_def)

lemma new_uuid_Inr:
  "new_uuid P w = (Inr u, w') \<longleftrightarrow> u = uuid_New P (calls w) \<and> w' = w\<lparr>calls := Suc (calls w)\<rparr>"
  by (auto simp: new_uuid_def)

lemma tx_exec_Inr:
  "tx_exec P st w = (Inr x, w') \<longleftrightarrow>
     (\<exists>d d'. working w = Some d \<and> db_fault_at P (calls w) = None \<and> st (tx_now w) d = (Inr x, d')
        \<and> w' = w\<lparr>calls := Suc (calls w), working := Some d'\<rparr>)"
  by (auto simp: tx_exec_def Let_def prod_eq_iff split: option.splits db_fault.splits)

lemma pool_exec_Inr:
  "pool_exec P st w = (Inr x, w') \<longleftrightarrow>
     (\<exists>d'. db_fault_at P (calls w) = None \<and> st (pg_now P (calls w)) (committed w) = (Inr x, d')
        \<and> w' = w\<lparr>calls := Suc (calls w), committed := d'\<rparr>)"
  by (auto simp: pool_exec_def Let_def prod_eq_iff split: option.splits db_fault.splits)

lemmas run_Inr = andThen_Inr classified_Inr read_clock_Inr new_uuid_Inr tx_exec_Inr pool_exec_Inr

text \<open>Without faults a statement and a transaction do what they say.\<close>

lemma pool_exec_faultless:
  "faultless P \<Longrightarrow> pool_exec P st w =
     (fst (st (pg_now P (calls w)) (committed w)),
      w\<lparr>calls := Suc (calls w), committed := snd (st (pg_now P (calls w)) (committed w))\<rparr>)"
  by (simp add: pool_exec_def faultless_def Let_def)

lemma tx_exec_faultless:
  "faultless P \<Longrightarrow> working w = Some d \<Longrightarrow> tx_exec P st w =
     (fst (st (tx_now w) d), w\<lparr>calls := Suc (calls w), working := Some (snd (st (tx_now w) d))\<rparr>)"
  by (simp add: tx_exec_def faultless_def Let_def)

lemma WithinTransaction_faultless:
  assumes "faultless P"
    and "m (w\<lparr>calls := Suc (calls w), working := Some (committed w), tx_now := pg_now P (calls w)\<rparr>) = (r, w1)"
  shows "WithinTransaction P m w =
     (case r of
        Inl e \<Rightarrow> (Inl e, w1\<lparr>working := working w\<rparr>)
      | Inr x \<Rightarrow> (Inr x, w1\<lparr>calls := Suc (calls w1), working := working w,
                   committed := (case working w1 of None \<Rightarrow> committed w1 | Some d \<Rightarrow> d)\<rparr>))"
  using assms
  by (cases "working w1"; cases r)
     (simp_all add: WithinTransaction_def begin_tx_def commit_tx_def faultless_def Let_def)

text \<open>Computations that change nothing but the open transaction.\<close>

definition tx_only :: "'a go \<Rightarrow> bool" where
  "tx_only m \<longleftrightarrow>
     (\<forall>w. committed (snd (m w)) = committed w \<and> (working w \<noteq> None \<longrightarrow> working (snd (m w)) \<noteq> None))"

lemma tx_only_env [intro]:
  "tx_only (ok x)" "tx_only (fail e)" "tx_only (lift_result r)" "tx_only (read_clock P)"
  "tx_only (new_uuid P)" "tx_only (new_random_uuid P)" "tx_only (record_metric f)"
  "tx_only unwrapTransaction"
  by (simp_all add: tx_only_def go_unfold unwrapTransaction_def)

lemma tx_only_tx [intro]: "tx_only (tx_exec P st)"
  by (auto simp: tx_only_def tx_exec_def Let_def split: option.splits db_fault.splits)

lemma tx_only_read [intro]: "(\<And>t d. snd (st t d) = d) \<Longrightarrow> tx_only (pool_exec P st)"
  by (auto simp: tx_only_def pool_exec_def Let_def split: option.splits db_fault.splits)

lemma tx_only_handle [intro]: "tx_only m \<Longrightarrow> (\<And>r. tx_only (f r)) \<Longrightarrow> tx_only (handle m f)"
  unfolding tx_only_def handle_def by (auto split: prod.split) (metis prod.sel(2))+

lemma tx_only_andThen [intro]: "tx_only m \<Longrightarrow> (\<And>x. tx_only (f x)) \<Longrightarrow> tx_only (andThen m f)"
  unfolding andThen_def by (rule tx_only_handle) (auto split: sum.splits)

text \<open>
  A transaction either leaves the committed database as it was and reports an error, or its
  body succeeded and the working copy it left is the committed database (even when the client
  sees an error, because the reply to the commit was lost).
\<close>

lemma WithinTransaction_cases [consumes 2, case_names unchanged committed]:
  assumes "WithinTransaction P m w = (r, w')" "tx_only m"
  obtains "committed w' = committed w" "\<exists>e. r = Inl e"
  | x w1 w2 where "working w1 = Some (committed w)" "committed w1 = committed w"
      "calls w1 = Suc (calls w)" "tx_now w1 = pg_now P (calls w)"
      "m w1 = (Inr x, w2)" "working w2 = Some (committed w')" "r = Inr x \<or> (\<exists>e. r = Inl (Classify e))"
proof -
  obtain r1 w1 where b: "begin_tx P w = (r1, w1)" by force
  show ?thesis
  proof (cases r1)
    case Inl
    then have "committed w' = committed w" "\<exists>e. r = Inl e" using assms(1) b
      by (auto simp: WithinTransaction_def begin_tx_def Let_def split: option.splits db_fault.splits)
    then show ?thesis by (rule that(1))
  next
    case (Inr u)
    have w1: "working w1 = Some (committed w)" "committed w1 = committed w"
      "calls w1 = Suc (calls w)" "tx_now w1 = pg_now P (calls w)"
      using b Inr by (auto simp: begin_tx_def Let_def split: option.splits db_fault.splits)
    obtain r2 w2 where m: "m w1 = (r2, w2)" by force
    have c2: "committed w2 = committed w"
      using assms(2) m w1(2) unfolding tx_only_def by (metis prod.sel(2))
    show ?thesis
    proof (cases r2)
      case (Inl e)
      then have "committed w' = committed w" "\<exists>e. r = Inl e"
        using assms(1) b Inr m c2 by (auto simp: WithinTransaction_def)
      then show ?thesis by (rule that(1))
    next
      case (Inr x)
      show ?thesis
      proof (cases "committed w' = committed w \<and> (\<exists>e. r = Inl e)")
        case True
        then show ?thesis using that(1) by blast
      next
        case False
        obtain d where "working w2 = Some d"
          using assms(2) m w1(1) unfolding tx_only_def by (metis option.exhaust option.distinct(1) prod.sel(2))
        then have "working w2 = Some (committed w') \<and> (r = Inr x \<or> (\<exists>e. r = Inl (Classify e)))"
          using False assms(1) b \<open>r1 = Inr u\<close> m Inr c2
          by (auto simp: WithinTransaction_def commit_tx_def Let_def
                split: option.splits db_fault.splits)
        then show ?thesis using that(2) w1 m Inr by blast
      qed
    qed
  qed
qed

text \<open>Without faults: what the body says happens.\<close>

abbreviation started :: "platform \<Rightarrow> world \<Rightarrow> world" where
  "started P w \<equiv> w\<lparr>calls := Suc (calls w), working := Some (committed w), tx_now := pg_now P (calls w)\<rparr>"

lemma transaction_fails:
  assumes "faultless P" "tx_only m" "m (started P w) = (Inl e, w1)"
  shows "\<exists>w'. WithinTransaction P m w = (Inl e, w') \<and> committed w' = committed w"
proof -
  have "committed w1 = committed w"
    using assms(2,3) unfolding tx_only_def
    by (metis prod.sel(2) world.select_convs(1) world.surjective world.update_convs(2) world.update_convs(3) world.update_convs(4))
  then show ?thesis using WithinTransaction_faultless[of P m w, OF assms(1,3)] by simp
qed

lemma transaction_commits:
  assumes "faultless P" "m (started P w) = (Inr x, w1)" "working w1 = Some d"
  shows "\<exists>w'. WithinTransaction P m w = (Inr x, w') \<and> committed w' = d"
  using WithinTransaction_faultless[of P m w, OF assms(1,2)] assms(3) by simp

section \<open>Evolution of the database\<close>

text \<open>
  \<open>evolves R m\<close>: whatever the environment does, running \<open>m\<close> takes the committed database and the
  working copy of an open transaction along the relation \<open>R\<close>. For a reflexive and transitive \<open>R\<close>
  this composes, so a fact about single statements lifts to every operation built from them.
\<close>

definition evolves :: "(database \<Rightarrow> database \<Rightarrow> bool) \<Rightarrow> 'a go \<Rightarrow> bool" where
  "evolves R m \<longleftrightarrow>
     (\<forall>w. R (committed w) (committed (snd (m w)))
        \<and> (case working w of
             None \<Rightarrow> working (snd (m w)) = None
           | Some d \<Rightarrow> \<exists>d'. working (snd (m w)) = Some d' \<and> R d d'))"

lemma evolvesI:
  assumes "\<And>w. R (committed w) (committed (snd (m w)))"
    and "\<And>w. working w = None \<Longrightarrow> working (snd (m w)) = None"
    and "\<And>w d. working w = Some d \<Longrightarrow> \<exists>d'. working (snd (m w)) = Some d' \<and> R d d'"
  shows "evolves R m"
  using assms by (auto simp: evolves_def split: option.splits)

lemma evolvesD:
  assumes "evolves R m"
  shows "R (committed w) (committed (snd (m w)))"
    and "working w = None \<Longrightarrow> working (snd (m w)) = None"
    and "working w = Some d \<Longrightarrow> \<exists>d'. working (snd (m w)) = Some d' \<and> R d d'"
proof -
  from assms have *: "R (committed w) (committed (snd (m w)))
      \<and> (case working w of None \<Rightarrow> working (snd (m w)) = None
         | Some d \<Rightarrow> \<exists>d'. working (snd (m w)) = Some d' \<and> R d d')"
    unfolding evolves_def by blast
  then show "R (committed w) (committed (snd (m w)))" by blast
  from * show "working w = None \<Longrightarrow> working (snd (m w)) = None" by simp
  from * show "working w = Some d \<Longrightarrow> \<exists>d'. working (snd (m w)) = Some d' \<and> R d d'" by simp
qed

locale db_evolution =
  fixes R :: "database \<Rightarrow> database \<Rightarrow> bool"
  assumes evo_refl: "R d d"
    and evo_trans: "R a b \<Longrightarrow> R b c \<Longrightarrow> R a c"
begin

lemma evo_pure: "evolves R (\<lambda>w. (f w, w))"
  by (rule evolvesI) (auto simp: evo_refl)

lemma evo_ok: "evolves R (ok x)" and evo_fail: "evolves R (fail e)"
  and evo_lift: "evolves R (lift_result r)"
  unfolding ok_def fail_def lift_result_def by (rule evo_pure)+

lemma evo_env:
  "evolves R (read_clock P)" "evolves R (new_uuid P)" "evolves R (new_random_uuid P)"
  "evolves R (record_metric f)" "evolves R unwrapTransaction"
  by (rule evolvesI; simp add: go_unfold unwrapTransaction_def evo_refl)+

lemma evo_handle: "evolves R m \<Longrightarrow> (\<And>r. evolves R (f r)) \<Longrightarrow> evolves R (handle m f)"
proof (rule evolvesI)
  fix w d
  assume m: "evolves R m" and f: "\<And>r. evolves R (f r)"
  obtain r w' where mw: "m w = (r, w')" by force
  then have h: "handle m f w = f r w'" by (simp add: handle_def)
  show "R (committed w) (committed (snd (handle m f w)))"
    unfolding h using evolvesD(1)[OF m, of w] evolvesD(1)[OF f, of w' r] mw
    by (auto intro: evo_trans)
  show "working w = None \<Longrightarrow> working (snd (handle m f w)) = None"
    unfolding h using evolvesD(2)[OF m, of w] evolvesD(2)[OF f, of w' r] mw by simp
  show "\<exists>d'. working (snd (handle m f w)) = Some d' \<and> R d d'" if "working w = Some d"
  proof -
    from evolvesD(3)[OF m that] mw obtain d1 where d1: "working w' = Some d1" "R d d1" by auto
    from evolvesD(3)[OF f d1(1)] show ?thesis unfolding h using d1(2) by (auto intro: evo_trans)
  qed
qed

lemma evo_andThen: "evolves R m \<Longrightarrow> (\<And>x. evolves R (f x)) \<Longrightarrow> evolves R (andThen m f)"
  unfolding andThen_def by (rule evo_handle) (auto split: sum.splits intro: evo_fail)

lemma evo_pool: "(\<And>t d. R d (snd (st t d))) \<Longrightarrow> evolves R (pool_exec P st)"
  by (rule evolvesI) (auto simp: pool_exec_def Let_def evo_refl split: option.splits db_fault.splits)

lemma evo_tx: "(\<And>t d. R d (snd (st t d))) \<Longrightarrow> evolves R (tx_exec P st)"
  by (rule evolvesI) (auto simp: tx_exec_def Let_def evo_refl split: option.splits db_fault.splits)

lemma evo_transaction:
  assumes "evolves R m"
  shows "evolves R (WithinTransaction P m)"
proof (rule evolvesI)
  fix w d
  show "R (committed w) (committed (snd (WithinTransaction P m w)))"
  proof -
    obtain r1 w1 where b: "begin_tx P w = (r1, w1)" by force
    show ?thesis
    proof (cases r1)
      case Inl
      then show ?thesis using b
        by (auto simp: WithinTransaction_def begin_tx_def Let_def evo_refl
              split: option.splits db_fault.splits)
    next
      case (Inr u)
      then have w1: "working w1 = Some (committed w)" "committed w1 = committed w" using b
        by (auto simp: begin_tx_def Let_def split: option.splits db_fault.splits)
      obtain r2 w2 where m: "m w1 = (r2, w2)" by force
      obtain d2 where d2: "working w2 = Some d2" "R (committed w) d2"
        using evolvesD(3)[OF assms w1(1)] m by auto
      have "R (committed w) (committed w2)" using evolvesD(1)[OF assms, of w1] m w1(2) by simp
      then show ?thesis using b Inr m d2
        by (auto simp: WithinTransaction_def commit_tx_def Let_def
              split: sum.splits option.splits db_fault.splits)
    qed
  qed
  have "working (snd (WithinTransaction P m w)) = working w"
    by (auto simp: WithinTransaction_def begin_tx_def Let_def
          split: sum.splits prod.splits option.splits db_fault.splits)
  then show "working w = None \<Longrightarrow> working (snd (WithinTransaction P m w)) = None"
    and "working w = Some d \<Longrightarrow>
      \<exists>d'. working (snd (WithinTransaction P m w)) = Some d' \<and> R d d'"
    using evo_refl by auto
qed

lemmas evo_intros =
  evo_ok evo_fail evo_lift evo_env evo_handle evo_andThen evo_pool evo_tx evo_transaction

end

section \<open>Evolutions\<close>

text \<open>The schema's guarantees survive.\<close>

definition schema_kept :: "database \<Rightarrow> database \<Rightarrow> bool" where
  "schema_kept d d' \<longleftrightarrow> (db_ok d \<longrightarrow> db_ok d')"

text \<open>
  What may happen to a stored disbursement: the facts of the payment never change, a decided or
  deleted row never changes at all, and no row disappears.
\<close>

definition row_progress :: "dbDisbursement \<Rightarrow> dbDisbursement \<Rightarrow> bool" where
  "row_progress r r' \<longleftrightarrow>
     row_ID r' = row_ID r \<and> row_RecipientName r' = row_RecipientName r
     \<and> row_AccountNumber r' = row_AccountNumber r \<and> row_BankCode r' = row_BankCode r
     \<and> row_Amount r' = row_Amount r \<and> row_AdminFee r' = row_AdminFee r \<and> row_Note r' = row_Note r
     \<and> row_CreatedBy r' = row_CreatedBy r \<and> row_CreatedAt r' = row_CreatedAt r
     \<and> (row_Status r \<noteq> StatusPending \<or> row_DeletedAt r \<noteq> None \<longrightarrow> r' = r)"

definition history_kept :: "database \<Rightarrow> database \<Rightarrow> bool" where
  "history_kept d d' \<longleftrightarrow>
     (\<exists>old new. disbursements d' = old @ new \<and> list_all2 row_progress (disbursements d) old)"

text \<open>The audit log only grows.\<close>

definition logs_kept :: "database \<Rightarrow> database \<Rightarrow> bool" where
  "logs_kept d d' \<longleftrightarrow> (\<exists>new. audit_logs d' = audit_logs d @ new)"

lemma row_progress_refl [simp]: "row_progress r r"
  by (simp add: row_progress_def)

lemma row_progress_trans: "row_progress a b \<Longrightarrow> row_progress b c \<Longrightarrow> row_progress a c"
  by (auto simp: row_progress_def)

lemma history_kept_refl: "history_kept d d"
  unfolding history_kept_def by (rule exI[of _ "disbursements d"]) (simp add: list.rel_refl)

lemma history_same: "disbursements d' = disbursements d \<Longrightarrow> history_kept d d'"
  unfolding history_kept_def by (rule exI[of _ "disbursements d"]) (simp add: list.rel_refl)

lemma history_kept_trans: "history_kept a b \<Longrightarrow> history_kept b c \<Longrightarrow> history_kept a c"
proof -
  assume "history_kept a b" "history_kept b c"
  then obtain o1 n1 o2 n2 where 1: "disbursements b = o1 @ n1" "list_all2 row_progress (disbursements a) o1"
    and 2: "disbursements c = o2 @ n2" "list_all2 row_progress (o1 @ n1) o2"
    unfolding history_kept_def by metis
  from 2(2) obtain p q where pq: "o2 = p @ q" "list_all2 row_progress o1 p"
    by (metis list_all2_append1)
  have "list_all2 row_progress (disbursements a) p"
    by (rule list_all2_trans[OF _ 1(2) pq(2)]) (rule row_progress_trans)
  then show ?thesis unfolding history_kept_def using 2(1) pq(1) by auto
qed

interpretation schema: db_evolution schema_kept
  by unfold_locales (auto simp: schema_kept_def)

interpretation history: db_evolution history_kept
  by unfold_locales (auto intro: history_kept_refl history_kept_trans)

interpretation logs: db_evolution logs_kept
  by unfold_locales (auto simp: logs_kept_def)

end
