(* ===== verification/Go_Float.thy ===== *)
theory Go_Float
  imports Platform "HOL-Library.Log_Nat"
begin

text \<open>
  Floating-point numbers of double precision as the rationals they denote, and the conversion of durations to
  seconds through them (\<open>Duration.Seconds\<close>, \<open>math.Ceil\<close>, \<open>int64\<close>). Subnormal numbers and overflow cannot
  arise from a 64-bit duration.
\<close>

section \<open>Rounding\<close>

text \<open>The integer nearest to \<open>x\<close>, the even one of two.\<close>

definition round_half_even :: "rat \<Rightarrow> int" where
  "round_half_even x =
     (let n = \<lfloor>x\<rfloor>; r = x - of_int n
      in if r < 1 / 2 \<or> r = 1 / 2 \<and> even n then n else n + 1)"

text \<open>The exponent \<open>e\<close> with \<open>2 ^ e \<le> \<bar>x\<bar> < 2 ^ (e + 1)\<close>.\<close>

definition binary_exponent :: "rat \<Rightarrow> int" where
  "binary_exponent x =
     (let (n, d) = quotient_of \<bar>x\<bar>; k = bitlen n - bitlen d
      in if \<bar>x\<bar> \<ge> 2 powi k then k else k - 1)"

definition float64 :: "rat \<Rightarrow> rat" where
  "float64 x =
     (if x = 0 then 0
      else let u = 2 powi (binary_exponent x - 52) in of_int (round_half_even (x / u)) * u)"

text \<open>\<open>Duration.Seconds\<close>, and \<open>int64\<close> of a float, which truncates.\<close>

definition duration_Seconds :: "duration \<Rightarrow> rat" where
  "duration_Seconds d =
     float64 (float64 (of_int (quot d Second)) + float64 (float64 (of_int (remainder d Second)) / 1000000000))"

definition float_to_int64 :: "rat \<Rightarrow> int" where
  "float_to_int64 x = (if x \<ge> 0 then \<lfloor>x\<rfloor> else \<lceil>x\<rceil>)"

section \<open>Error bounds\<close>

lemma round_half_even_bounds:
  "of_int (round_half_even x) \<le> x + 1 / 2" "x - 1 / 2 \<le> of_int (round_half_even x)"
  "\<lfloor>x\<rfloor> \<le> round_half_even x" "round_half_even x \<le> \<lceil>x\<rceil>"
proof -
  have "of_int \<lfloor>x\<rfloor> \<le> x" "x < of_int \<lfloor>x\<rfloor> + 1" by linarith+
  moreover have "\<lfloor>x\<rfloor> + 1 \<le> \<lceil>x\<rceil>" if "x - of_int \<lfloor>x\<rfloor> \<noteq> 0" using that by linarith
  ultimately show "of_int (round_half_even x) \<le> x + 1 / 2" "x - 1 / 2 \<le> of_int (round_half_even x)"
    "\<lfloor>x\<rfloor> \<le> round_half_even x" "round_half_even x \<le> \<lceil>x\<rceil>"
    by (auto simp: round_half_even_def Let_def ceiling_def, linarith+)
qed

lemma powi_less: "(2 powi i :: rat) < 2 powi j \<Longrightarrow> i < j"
  by (metis linorder_not_less one_le_numeral power_int_increasing)

lemma bitlen_powi:
  assumes "0 < n"
  shows "2 powi (bitlen n - 1) \<le> (of_int n :: rat)" "(of_int n :: rat) < 2 powi bitlen n"
proof -
  have pos: "0 < bitlen n" using assms bitlen_nonneg[of n] by (simp add: bitlen_eq_zero_iff order_less_le)
  have b: "2 ^ nat (bitlen n - 1) \<le> n" "n < 2 ^ nat (bitlen n)" using bitlen_bounds[OF assms] by simp_all
  have "of_int (2 ^ nat (bitlen n - 1)) \<le> (of_int n :: rat)" "(of_int n :: rat) < of_int (2 ^ nat (bitlen n))"
    using b unfolding of_int_le_iff of_int_less_iff by simp_all
  then show "2 powi (bitlen n - 1) \<le> (of_int n :: rat)" "(of_int n :: rat) < 2 powi bitlen n"
    using pos by (simp_all add: power_int_def)
qed

lemma binary_exponent_bounds:
  assumes "0 < x"
  shows "2 powi binary_exponent x \<le> x" "x < 2 powi (binary_exponent x + 1)"
proof -
  obtain n d where q: "quotient_of x = (n, d)" by force
  have d: "0 < d" and x: "x = of_int n / of_int d" using quotient_of_denom_pos[OF q] quotient_of_div[OF q] by simp_all
  have n: "0 < n" using assms x d by (simp add: zero_less_divide_iff)
  let ?k = "bitlen n - bitlen d"
  have "2 powi (bitlen n - 1) / 2 powi bitlen d \<le> x" unfolding x
    using bitlen_powi[OF n] bitlen_powi[OF d] n d by (intro frac_le) (auto intro: less_imp_le)
  then have lower: "2 powi (?k - 1) \<le> x" by (simp add: power_int_diff)
  have "x < 2 powi bitlen n / 2 powi (bitlen d - 1)" unfolding x
    using bitlen_powi[OF n] bitlen_powi[OF d] n by (intro frac_less) simp_all
  then have upper: "x < 2 powi (?k + 1)" by (simp add: power_int_diff power_int_add)
  have e: "binary_exponent x = (if x \<ge> 2 powi ?k then ?k else ?k - 1)"
    using assms by (simp add: binary_exponent_def q)
  show "2 powi binary_exponent x \<le> x" "x < 2 powi (binary_exponent x + 1)"
    using lower upper by (simp_all add: e not_le)
qed

text \<open>One unit in the last place.\<close>

definition ulp :: "rat \<Rightarrow> rat" where
  "ulp x = 2 powi (binary_exponent x - 52)"

lemma float64_error:
  assumes "0 < x"
  shows "\<bar>float64 x - x\<bar> \<le> ulp x / 2"
proof -
  have u: "0 < ulp x" by (simp add: ulp_def)
  have "of_int (round_half_even (x / ulp x)) \<le> x / ulp x + 1 / 2" "x / ulp x - 1 / 2 \<le> of_int (round_half_even (x / ulp x))"
    by (rule round_half_even_bounds)+
  then have "of_int (round_half_even (x / ulp x)) * ulp x \<le> (x / ulp x + 1 / 2) * ulp x"
    "(x / ulp x - 1 / 2) * ulp x \<le> of_int (round_half_even (x / ulp x)) * ulp x"
    using u by (simp_all add: mult_right_mono)
  moreover have "float64 x = of_int (round_half_even (x / ulp x)) * ulp x"
    using assms by (simp add: float64_def ulp_def Let_def)
  ultimately have "float64 x - x \<le> ulp x / 2" "x - float64 x \<le> ulp x / 2" using u by (simp_all add: algebra_simps)
  then show ?thesis by linarith
qed

lemma ulp_relative: "0 < x \<Longrightarrow> ulp x \<le> x / 2 ^ 52"
  using binary_exponent_bounds(1)[of x] by (simp add: ulp_def power_int_diff divide_right_mono)

lemma ulp_below:
  assumes "0 < x" "x < 2 ^ k"
  shows "ulp x \<le> 2 powi (int k - 53)"
proof -
  have "2 powi binary_exponent x < (2 powi int k :: rat)" using binary_exponent_bounds(1)[OF assms(1)] assms(2) by simp
  then have "binary_exponent x < int k" by (rule powi_less)
  then show ?thesis unfolding ulp_def by (intro power_int_increasing) simp_all
qed

text \<open>Below \<open>2 ^ 53\<close> the integers are numbers of double precision, so rounding does not step over one.\<close>

lemma float64_integers:
  assumes "0 < x" "x < 2 ^ 53"
  shows "of_int \<lfloor>x\<rfloor> \<le> float64 x" "float64 x \<le> of_int \<lceil>x\<rceil>"
proof -
  let ?e = "binary_exponent x - 52"
  have "2 powi binary_exponent x < (2 powi 53 :: rat)" using binary_exponent_bounds(1)[OF assms(1)] assms(2) by simp
  then have e: "?e \<le> 0" using powi_less[of "binary_exponent x" 53] by simp
  define m :: int where "m = 2 ^ nat (- ?e)"
  have u: "1 / ulp x = of_int m" "0 < ulp x"
    using e by (simp_all add: ulp_def m_def power_int_def field_simps)
  then have xm: "x / ulp x = x * of_int m" by (metis mult.comm_neutral times_divide_eq_right)
  have mpos: "0 < m" by (simp add: m_def)
  have "of_int (\<lfloor>x\<rfloor> * m) \<le> x * of_int m" "x * of_int m \<le> of_int (\<lceil>x\<rceil> * m)"
    using mpos by (simp_all add: mult_right_mono)
  then have "\<lfloor>x\<rfloor> * m \<le> \<lfloor>x * of_int m\<rfloor>" "\<lceil>x * of_int m\<rceil> \<le> \<lceil>x\<rceil> * m"
    by (simp_all only: le_floor_iff ceiling_le_iff)
  then have "\<lfloor>x\<rfloor> * m \<le> round_half_even (x / ulp x)" "round_half_even (x / ulp x) \<le> \<lceil>x\<rceil> * m"
    using round_half_even_bounds(3,4)[of "x / ulp x"] unfolding xm by linarith+
  then have "of_int (\<lfloor>x\<rfloor> * m) * ulp x \<le> of_int (round_half_even (x / ulp x)) * ulp x"
    "of_int (round_half_even (x / ulp x)) * ulp x \<le> of_int (\<lceil>x\<rceil> * m) * ulp x"
    using u(2) by (intro mult_right_mono; simp only: of_int_le_iff less_imp_le)+
  moreover have "of_int m * ulp x = 1" using u by (simp add: field_simps)
  moreover have "float64 x = of_int (round_half_even (x / ulp x)) * ulp x"
    using assms(1) by (simp add: float64_def ulp_def Let_def)
  ultimately show "of_int \<lfloor>x\<rfloor> \<le> float64 x" "float64 x \<le> of_int \<lceil>x\<rceil>" by (simp_all add: mult.assoc)
qed

lemma float64_int: "0 \<le> n \<Longrightarrow> n < 2 ^ 53 \<Longrightarrow> float64 (of_int n) = of_int n"
  using float64_integers[of "of_int n"] by (cases "n = 0") (simp_all add: float64_def order_antisym)

section \<open>Whole seconds\<close>

lemma far_from_zero:
  fixes f t :: rat
  assumes "\<bar>f - t\<bar> \<le> t / 2 ^ 52 / 2" "1 / 1000000000 \<le> t"
  shows "1 / 2 ^ 30 < f"
proof -
  have "t - f \<le> t / 9007199254740992" using abs_ge_minus_self[of "f - t"] assms(1) by simp
  then have "t - t / 9007199254740992 \<le> f" by linarith
  then show ?thesis using assms(2) by simp
qed

text \<open>\<open>math.Ceil(d.Seconds())\<close>\<close>

lemma ceil_duration_Seconds:
  assumes "0 \<le> d" "d < 2 ^ 23 * Second"
  shows "\<lceil>duration_Seconds d\<rceil> = - ((- d) div Second)"
proof -
  define sec n where "sec = d div Second" and "n = d mod Second"
  have d: "d = sec * Second + n" "0 \<le> n" "n < Second" by (simp_all add: sec_def n_def)
  have sec: "0 \<le> sec" "sec < 2 ^ 23" using assms by (simp_all add: sec_def pos_imp_zdiv_nonneg_iff div_less_iff_less_mult)
  define f where "f = float64 (of_int n / 1000000000)"
  have s: "duration_Seconds d = float64 (of_int sec + f)"
    using assms(1) d sec by (simp add: duration_Seconds_def quot_nonneg remainder_nonneg float64_int f_def flip: sec_def n_def)
  show ?thesis
  proof (cases "n = 0")
    case True
    then have "f = 0" by (simp add: f_def float64_def)
    moreover have "float64 (of_int sec) = of_int sec" using sec by (intro float64_int) simp_all
    moreover have "- ((- d) div Second) = sec" using d(1) True by simp
    ultimately show ?thesis by (simp add: s)
  next
    case False
    then have n: "1 \<le> n" using d(2) by simp
    let ?t = "of_int n / 1000000000 :: rat"
    have t: "1 / 1000000000 \<le> ?t" "?t < 1" using n d(3) by (simp_all add: divide_right_mono)
    have "0 < ?t" using t(1) by linarith
    have "\<bar>f - ?t\<bar> \<le> ?t / 2 ^ 52 / 2"
      unfolding f_def by (rule order_trans[OF float64_error[OF \<open>0 < ?t\<close>] divide_right_mono[OF ulp_relative[OF \<open>0 < ?t\<close>]]]) simp
    then have low: "1 / 2 ^ 30 < f" using t(1) by (rule far_from_zero)
    have "\<lceil>?t\<rceil> \<le> 1" using t(2) by (simp add: ceiling_le_iff)
    then have high: "f \<le> 1" using float64_integers(2)[OF \<open>0 < ?t\<close>] t(2) unfolding f_def by (simp, linarith)
    let ?x = "of_int sec + f"
    have x: "0 < ?x" "?x \<le> of_int (sec + 1)" "of_int (sec + 1) \<le> (2 ^ 23 :: rat)"
    proof -
      have "(0::rat) \<le> of_int sec" "(0::rat) < f" using sec(1) less_trans[OF _ low, of 0] by simp_all
      then show "0 < ?x" by linarith
      show "?x \<le> of_int (sec + 1)" using high by simp
      have "sec + 1 \<le> 2 ^ 23" using sec(2) by simp
      then show "of_int (sec + 1) \<le> (2 ^ 23 :: rat)" by (metis of_int_le_iff of_int_numeral of_int_power)
    qed
    have "ulp ?x / 2 \<le> 1 / 2 ^ 30" 
    proof -
      have "?x < 2 ^ 24" using order_trans[OF x(2,3)] by (rule order_le_less_trans) simp
      moreover have "2 powi (int 24 - 53) = (1 / 2 ^ 29 :: rat)" by (simp add: power_int_def power_one_over)
      ultimately show ?thesis using ulp_below[OF x(1), of 24] by (simp only:) simp
    qed
    then have "of_int sec < float64 ?x" using float64_error[OF x(1)] low abs_ge_minus_self[of "float64 ?x - ?x"] by linarith
    have "\<lceil>?x\<rceil> \<le> sec + 1" using x(2) by (simp only: ceiling_le_iff)
    then have "of_int \<lceil>?x\<rceil> \<le> (of_int (sec + 1) :: rat)" by (simp only: of_int_le_iff)
    moreover have "?x < 2 ^ 53" using order_trans[OF x(2,3)] by (rule order_le_less_trans) simp
    ultimately have "float64 ?x \<le> of_int (sec + 1)" using float64_integers(2)[OF x(1)] by (metis order_trans)
    with \<open>of_int sec < float64 ?x\<close> have "\<lceil>float64 ?x\<rceil> = sec + 1" by (intro ceiling_unique) simp_all
    moreover have "(- d) div Second = - (sec + 1)"
    proof (rule int_div_pos_eq[of _ _ _ "Second - n"])
      show "- d = Second * - (sec + 1) + (Second - n)" using d(1) by simp
    qed (use n d(3) in simp_all)
    ultimately show ?thesis by (simp add: s)
  qed
qed

end
