(* ===== verification/Idempotency_Store.thy ===== *)
theory Idempotency_Store
  imports Database Go_Float
begin

text \<open>
  \<open>internal/repository/postgres/idempotency.go\<close>: the statements on \<open>idempotency_keys\<close> and the
  store's methods. \<open>FOR UPDATE\<close> serialises transactions on the same key, so a transaction's
  statements see and change the row without interference, as the working copy does. The delay
  reported for a live claim is computed as in the code, through floating-point seconds.
\<close>

section \<open>Statements\<close>

definition in_scope :: "IdempotencyScope \<Rightarrow> idempotency_row \<Rightarrow> bool" where
  "in_scope scope r \<longleftrightarrow> ik_pk r = (sc_UserID scope, sc_Endpoint scope, sc_Key scope)"

definition insertIdempotencyClaim :: "platform \<Rightarrow> IdempotencyClaimRequest \<Rightarrow> uuid stmt" where
  "insertIdempotencyClaim P request t d =
     (case varchar 128 (sc_Endpoint (cr_Scope request)) of
        Inl e \<Rightarrow> (Inl e, d)
      | Inr endpoint \<Rightarrow>
          (let row = \<lparr>ik_user_id = sc_UserID (cr_Scope request), ik_endpoint = endpoint,
                      ik_key = sc_Key (cr_Scope request), ik_request_hash = cr_Fingerprint request,
                      ik_state = IdempotencyInProgress, ik_claim_id = cr_ClaimID request,
                      ik_lease_until = pg_timestamptz P (cr_LeaseUntil request),
                      ik_expires_at = pg_timestamptz P (cr_ExpiresAt request),
                      ik_disbursement_id = None, ik_response_status = None, ik_response_body = None\<rparr>
           in if \<not> idempotency_check row then (Inl (pg_error ''23514''), d)
              else if \<exists>r \<in> set (idempotency_keys d). ik_pk r = ik_pk row then (Inl ErrNoRows, d)
              else if \<not> user_exists d (ik_user_id row) then (Inl (pg_error ''23503''), d)
              else (Inr (ik_claim_id row), d\<lparr>idempotency_keys := idempotency_keys d @ [row]\<rparr>)))"

definition selectIdempotencyClaimForUpdate :: "IdempotencyScope \<Rightarrow> idempotency_row stmt" where
  "selectIdempotencyClaimForUpdate scope = with_text (sc_Endpoint scope) (\<lambda>t d.
     (case first_where (in_scope scope) (idempotency_keys d) of
        None \<Rightarrow> Inl ErrNoRows | Some r \<Rightarrow> Inr r, d))"

definition reclaim_row :: "platform \<Rightarrow> IdempotencyClaimRequest \<Rightarrow> idempotency_row \<Rightarrow> idempotency_row" where
  "reclaim_row P request r =
     r\<lparr>ik_request_hash := cr_Fingerprint request, ik_state := IdempotencyInProgress,
       ik_claim_id := cr_ClaimID request,
       ik_lease_until := pg_timestamptz P (cr_LeaseUntil request),
       ik_expires_at := pg_timestamptz P (cr_ExpiresAt request),
       ik_disbursement_id := None, ik_response_status := None, ik_response_body := None\<rparr>"

definition reclaimable :: "platform \<Rightarrow> IdempotencyClaimRequest \<Rightarrow> idempotency_row \<Rightarrow> bool" where
  "reclaimable P request r \<longleftrightarrow>
     in_scope (cr_Scope request) r
     \<and> (ik_expires_at r \<le> pg_timestamptz P (cr_Now request)
        \<or> (ik_state r = IdempotencyInProgress \<and> ik_request_hash r = cr_Fingerprint request
           \<and> ik_lease_until r \<le> pg_timestamptz P (cr_Now request)))"

text \<open>An update of many rows, refused as a whole when a changed row violates its constraint.\<close>

definition reclaimIdempotencyClaim :: "platform \<Rightarrow> IdempotencyClaimRequest \<Rightarrow> nat stmt" where
  "reclaimIdempotencyClaim P request = with_text (sc_Endpoint (cr_Scope request)) (\<lambda>t d.
     if \<exists>r \<in> set (idempotency_keys d). reclaimable P request r \<and> \<not> idempotency_check (reclaim_row P request r)
     then (Inl (pg_error ''23514''), d)
     else (Inr (affected (reclaimable P request) (idempotency_keys d)),
           d\<lparr>idempotency_keys :=
               update_where (reclaimable P request) (reclaim_row P request) (idempotency_keys d)\<rparr>))"

definition verifyIdempotencyOwner :: "IdempotencyScope \<Rightarrow> (IdempotencyState \<times> uuid) stmt" where
  "verifyIdempotencyOwner scope = with_text (sc_Endpoint scope) (\<lambda>t d.
     (case first_where (in_scope scope) (idempotency_keys d) of
        None \<Rightarrow> Inl ErrNoRows | Some r \<Rightarrow> Inr (ik_state r, ik_claim_id r), d))"

definition owned :: "IdempotencyScope \<Rightarrow> uuid \<Rightarrow> idempotency_row \<Rightarrow> bool" where
  "owned scope claimID r \<longleftrightarrow>
     in_scope scope r \<and> ik_claim_id r = claimID \<and> ik_state r = IdempotencyInProgress"

definition complete_row :: "ReplayResponse \<Rightarrow> idempotency_row \<Rightarrow> idempotency_row" where
  "complete_row response r =
     r\<lparr>ik_state := IdempotencyCompleted, ik_disbursement_id := Some (rp_DisbursementID response),
       ik_response_status := Some (rp_StatusCode response), ik_response_body := rp_Body response\<rparr>"

definition int2 :: "int \<Rightarrow> bool" where
  "int2 i \<longleftrightarrow> - (2 ^ 15) \<le> i \<and> i < 2 ^ 15"

definition completeIdempotencyClaim :: "IdempotencyCompletion \<Rightarrow> nat stmt" where
  "completeIdempotencyClaim completion = with_text (sc_Endpoint (cm_Scope completion)) (\<lambda>t d.
     let response = cm_Response completion; p = owned (cm_Scope completion) (cm_ClaimID completion)
     in if \<not> int2 (rp_StatusCode response) then (Inl (pg_error ''22003''), d)
        else case jsonb (rp_Body response) of
          Inl e \<Rightarrow> (Inl e, d)
        | Inr _ \<Rightarrow>
            if \<exists>r \<in> set (idempotency_keys d). p r \<and> \<not> idempotency_check (complete_row response r)
            then (Inl (pg_error ''23514''), d)
            else if (\<exists>r \<in> set (idempotency_keys d). p r) \<and> \<not> disbursement_exists d (rp_DisbursementID response)
            then (Inl (pg_error ''23503''), d)
            else (Inr (affected p (idempotency_keys d)),
                  d\<lparr>idempotency_keys := update_where p (complete_row response) (idempotency_keys d)\<rparr>))"

definition releaseIdempotencyClaim :: "IdempotencyScope \<Rightarrow> uuid \<Rightarrow> nat stmt" where
  "releaseIdempotencyClaim scope claimID = with_text (sc_Endpoint scope) (\<lambda>t d.
     (Inr (affected (owned scope claimID) (idempotency_keys d)),
      d\<lparr>idempotency_keys := delete_where (owned scope claimID) (idempotency_keys d)\<rparr>))"

lemmas idempotency_stmts [stmt_defs] =
  insertIdempotencyClaim_def selectIdempotencyClaimForUpdate_def reclaimIdempotencyClaim_def
  verifyIdempotencyOwner_def completeIdempotencyClaim_def releaseIdempotencyClaim_def

section \<open>The store\<close>

record storedIdempotencyClaim =
  st_requestHash :: string
  st_state :: IdempotencyState
  st_claimID :: uuid
  st_leaseUntil :: time
  st_expiresAt :: time
  st_disbursementID :: "string option"
  st_responseStatus :: "int option"
  st_responseBody :: "json option"

text \<open>\<open>Scan\<close> of the selected columns; the driver delivers a \<open>uuid\<close> as its text.\<close>

definition scan_claim :: "platform \<Rightarrow> idempotency_row \<Rightarrow> storedIdempotencyClaim" where
  "scan_claim P r =
     \<lparr>st_requestHash = ik_request_hash r, st_state = ik_state r, st_claimID = ik_claim_id r,
      st_leaseUntil = ik_lease_until r, st_expiresAt = ik_expires_at r,
      st_disbursementID = map_option (uuid_String P) (ik_disbursement_id r),
      st_responseStatus = ik_response_status r, st_responseBody = ik_response_body r\<rparr>"

definition loadIdempotencyClaim :: "platform \<Rightarrow> IdempotencyScope \<Rightarrow> storedIdempotencyClaim go" where
  "loadIdempotencyClaim P scope =
     handle (tx_exec P (selectIdempotencyClaimForUpdate scope)) (\<lambda>r.
       case r of Inl err \<Rightarrow> fail (Classify err) | Inr row \<Rightarrow> ok (scan_claim P row))"

definition replayResponse :: "platform \<Rightarrow> storedIdempotencyClaim \<Rightarrow> go_error + ReplayResponse" where
  "replayResponse P stored =
     (case (st_disbursementID stored, st_responseStatus stored, st_responseBody stored) of
        (Some text, Some status, Some body) \<Rightarrow>
          (case uuid_Parse P text of
             None \<Rightarrow> Inl (PlainError ''invalid UUID'')
           | Some i \<Rightarrow> Inr \<lparr>rp_StatusCode = status, rp_Body = Some body, rp_DisbursementID = i\<rparr>)
      | _ \<Rightarrow> Inl (PlainError ''invalid completed idempotency record''))"

text \<open>\<open>time.Duration(math.Ceil(remaining.Seconds())) * time.Second\<close>\<close>

definition ceil_seconds :: "duration \<Rightarrow> duration" where
  "ceil_seconds remaining = wrap64 (\<lceil>duration_Seconds remaining\<rceil> * Second)"

definition classifyIdempotencyClaim ::
  "platform \<Rightarrow> storedIdempotencyClaim \<Rightarrow> IdempotencyClaimRequest \<Rightarrow> IdempotencyClaimResult \<times> bool" where
  "classifyIdempotencyClaim P stored request =
     (if st_expiresAt stored > cr_Now request \<and> st_requestHash stored \<noteq> cr_Fingerprint request
      then (zero_claim_result\<lparr>res_Outcome := ClaimReused\<rparr>, False)
      else if st_state stored = IdempotencyCompleted \<and> st_expiresAt stored > cr_Now request
      then (case replayResponse P stored of
              Inl _ \<Rightarrow> (zero_claim_result\<lparr>res_Outcome := ClaimReused\<rparr>, False)
            | Inr replay \<Rightarrow>
                (zero_claim_result\<lparr>res_Outcome := ClaimReplayed, res_Replay := Some replay\<rparr>, False))
      else if st_state stored = IdempotencyInProgress \<and> st_expiresAt stored > cr_Now request
              \<and> st_leaseUntil stored > cr_Now request
      then (zero_claim_result\<lparr>res_Outcome := ClaimInProgress,
              res_RetryAfter := ceil_seconds (time_Sub (st_leaseUntil stored) (cr_Now request))\<rparr>, False)
      else (zero_claim_result, True))"

text \<open>
  \<open>acquireExisting\<close> opens its transaction itself: begin, commit and the deferred rollback are those
  of \<open>WithinTransaction\<close>, with the same classification of their errors.
\<close>

definition acquire_existing_body :: "platform \<Rightarrow> IdempotencyClaimRequest \<Rightarrow> IdempotencyClaimResult go" where
  "acquire_existing_body P request =
     andThen (loadIdempotencyClaim P (cr_Scope request)) (\<lambda>stored.
     case classifyIdempotencyClaim P stored request of
       (result, False) \<Rightarrow> ok result
     | (_, True) \<Rightarrow>
         handle (tx_exec P (reclaimIdempotencyClaim P request)) (\<lambda>r.
           case r of
             Inl err \<Rightarrow> fail (Classify err)
           | Inr rowsAffected \<Rightarrow>
               if rowsAffected \<noteq> 1
               then fail (RepositoryError ErrorConflict
                      (PlainError ''idempotency claim changed before reclaim''))
               else ok (zero_claim_result\<lparr>res_Outcome := ClaimAcquired,
                          res_ClaimID := cr_ClaimID request\<rparr>)))"

definition acquireExisting :: "platform \<Rightarrow> IdempotencyClaimRequest \<Rightarrow> IdempotencyClaimResult go" where
  "acquireExisting P request = WithinTransaction P (acquire_existing_body P request)"

definition IdempotencyStore_Acquire :: "platform \<Rightarrow> IdempotencyClaimRequest \<Rightarrow> IdempotencyClaimResult go" where
  "IdempotencyStore_Acquire P request =
     (if \<not> IdempotencyClaimRequest_Valid request
      then fail (RepositoryError ErrorConstraint (PlainError ''invalid idempotency claim request''))
      else handle (pool_exec P (insertIdempotencyClaim P request)) (\<lambda>r.
        case r of
          Inr claimID \<Rightarrow>
            ok (zero_claim_result\<lparr>res_Outcome := ClaimAcquired, res_ClaimID := claimID\<rparr>)
        | Inl err \<Rightarrow>
            if \<not> errors_Is err ErrNoRows then fail (Classify err) else acquireExisting P request))"

definition ownership_lost :: "string \<Rightarrow> go_error" where
  "ownership_lost m = RepositoryError ErrorOwnershipLost (PlainError m)"

definition IdempotencyStore_VerifyOwnership :: "platform \<Rightarrow> IdempotencyScope \<Rightarrow> uuid \<Rightarrow> unit go" where
  "IdempotencyStore_VerifyOwnership P scope claimID =
     (if \<not> IdempotencyScope_Valid scope \<or> claimID = uuid_Nil
      then fail (RepositoryError ErrorConstraint (PlainError ''invalid idempotency ownership check''))
      else andThen unwrapTransaction (\<lambda>_.
        handle (tx_exec P (verifyIdempotencyOwner scope)) (\<lambda>r.
          case r of
            Inl err \<Rightarrow> fail (Classify err)
          | Inr (state, storedClaimID) \<Rightarrow>
              if state \<noteq> IdempotencyInProgress \<or> storedClaimID \<noteq> claimID
              then fail (ownership_lost ''idempotency ownership no longer held'')
              else ok ())))"

definition IdempotencyStore_Complete :: "platform \<Rightarrow> IdempotencyCompletion \<Rightarrow> unit go" where
  "IdempotencyStore_Complete P completion =
     (if \<not> IdempotencyCompletion_Valid completion
      then fail (RepositoryError ErrorConstraint (PlainError ''invalid idempotency completion''))
      else andThen unwrapTransaction (\<lambda>_.
        handle (tx_exec P (completeIdempotencyClaim completion)) (\<lambda>r.
          case r of
            Inl err \<Rightarrow> fail (Classify err)
          | Inr rowsAffected \<Rightarrow>
              if rowsAffected \<noteq> 1 then fail (ownership_lost ''idempotency completion ownership lost'')
              else ok ())))"

definition IdempotencyStore_Release :: "platform \<Rightarrow> IdempotencyScope \<Rightarrow> uuid \<Rightarrow> unit go" where
  "IdempotencyStore_Release P scope claimID =
     (if \<not> IdempotencyScope_Valid scope \<or> claimID = uuid_Nil
      then fail (RepositoryError ErrorConstraint (PlainError ''invalid idempotency release''))
      else handle (pool_exec P (releaseIdempotencyClaim scope claimID)) (\<lambda>r.
        case r of
          Inl err \<Rightarrow> fail (Classify err)
        | Inr rowsAffected \<Rightarrow>
            if rowsAffected \<noteq> 1 then fail (ownership_lost ''idempotency release ownership lost'')
            else ok ()))"

section \<open>What the statements keep\<close>

text \<open>Claiming and releasing keys; completing one is the extension below.\<close>

locale claim_evolution = db_evolution +
  assumes R_claim: "R d (snd (insertIdempotencyClaim P request t d))"
    and R_reclaim: "R d (snd (reclaimIdempotencyClaim P request t d))"
    and R_release: "R d (snd (releaseIdempotencyClaim scope claimID t d))"
begin

lemma R_claim_reads:
  "R d (snd (selectIdempotencyClaimForUpdate scope t d))" "R d (snd (verifyIdempotencyOwner scope t d))"
  by (simp_all add: stmt_defs evo_refl)

lemma evolves_load: "evolves R (loadIdempotencyClaim P scope)"
  unfolding loadIdempotencyClaim_def
  by (intro evo_intros R_claim_reads) (auto split: sum.splits intro: evo_intros)

lemma evolves_existing_body: "evolves R (acquire_existing_body P request)"
  unfolding acquire_existing_body_def
  by (auto split: prod.splits bool.splits sum.splits intro!: evo_intros evolves_load R_reclaim)

lemma evolves_Acquire: "evolves R (IdempotencyStore_Acquire P request)"
  unfolding IdempotencyStore_Acquire_def acquireExisting_def
  by (auto split: sum.splits intro!: evo_intros evolves_existing_body R_claim)

lemma evolves_VerifyOwnership: "evolves R (IdempotencyStore_VerifyOwnership P scope claimID)"
  unfolding IdempotencyStore_VerifyOwnership_def
  by (auto split: sum.splits prod.splits intro!: evo_intros R_claim_reads)

lemma evolves_Release: "evolves R (IdempotencyStore_Release P scope claimID)"
  unfolding IdempotencyStore_Release_def
  by (auto split: sum.splits intro!: evo_intros R_release)

end

locale idempotency_evolution = claim_evolution +
  assumes R_complete: "R d (snd (completeIdempotencyClaim completion t d))"
begin

lemma evolves_Complete: "evolves R (IdempotencyStore_Complete P completion)"
  unfolding IdempotencyStore_Complete_def
  by (auto split: sum.splits intro!: evo_intros R_complete)

end

lemma row_updates_pk [simp]:
  "ik_pk (reclaim_row P request r) = ik_pk r" "ik_pk (complete_row response r) = ik_pk r"
  by (simp_all add: ik_pk_def reclaim_row_def complete_row_def)

lemma db_ok_update_keys:
  assumes "db_ok d" "\<And>r. ik_pk (f r) = ik_pk r"
    and "\<And>r. r \<in> set (idempotency_keys d) \<Longrightarrow> p r \<Longrightarrow> idempotency_row_ok d (f r)"
  shows "db_ok (d\<lparr>idempotency_keys := update_where p f (idempotency_keys d)\<rparr>)"
  using assms(3) db_okD(2,10)[OF assms(1)]
  by (auto intro!: db_ok_idempotency_keys[OF assms(1)] unique_by_update simp: assms(2)
        dest!: in_update_where)

interpretation schema: idempotency_evolution schema_kept
proof (unfold_locales, goal_cases)
  case (1 d P request t)
  have "db_ok (d\<lparr>idempotency_keys := idempotency_keys d @ [row]\<rparr>)"
    if "db_ok d" "idempotency_row_ok d row" "\<forall>r \<in> set (idempotency_keys d). ik_pk r \<noteq> ik_pk row" for row
    using that db_okD(2,10)[OF that(1)] by (auto intro!: db_ok_idempotency_keys unique_by_append)
  then show ?case unfolding schema_kept_def insertIdempotencyClaim_def
    by (auto simp: Let_def idempotency_row_ok_def split: sum.splits)
next
  case (2 d P request t)
  have "idempotency_row_ok d (reclaim_row P request r)"
    if "db_ok d" "r \<in> set (idempotency_keys d)" "idempotency_check (reclaim_row P request r)" for r
    using that(3) db_okD(10)[OF that(1,2)] by (auto simp: idempotency_row_ok_def reclaim_row_def)
  then show ?case unfolding schema_kept_def reclaimIdempotencyClaim_def
    by (auto simp: with_text_def intro!: db_ok_update_keys)
next
  case (3 d scope claimID t)
  show ?case unfolding schema_kept_def releaseIdempotencyClaim_def
    by (auto simp: with_text_def db_okD intro!: db_ok_idempotency_keys)
next
  case (4 d completion t)
  have "idempotency_row_ok d (complete_row response r)"
    if "db_ok d" "r \<in> set (idempotency_keys d)" "idempotency_check (complete_row response r)"
      "disbursement_exists d (rp_DisbursementID response)" for r response
    using that(3,4) db_okD(10)[OF that(1,2)] by (auto simp: idempotency_row_ok_def complete_row_def)
  then show ?case unfolding schema_kept_def completeIdempotencyClaim_def
    by (auto simp: with_text_def Let_def intro!: db_ok_update_keys split: sum.splits)
qed

interpretation history: idempotency_evolution history_kept
  by unfold_locales (rule history_same, simp add: stmt_defs Let_def split: sum.splits)+

interpretation logs: idempotency_evolution logs_kept
  by unfold_locales (auto simp: logs_kept_def stmt_defs Let_def split: sum.splits)

section \<open>Successful runs\<close>

lemma VerifyOwnership_Inr:
  assumes "IdempotencyStore_VerifyOwnership P scope claimID w = (Inr u, w')"
  shows "\<exists>d r. working w = Some d \<and> first_where (in_scope scope) (idempotency_keys d) = Some r
     \<and> owned scope claimID r \<and> w' = w\<lparr>calls := Suc (calls w), working := Some d\<rparr>"
  using assms
  by (auto simp: IdempotencyStore_VerifyOwnership_def run_Inr verifyIdempotencyOwner_def with_text_def
        owned_def split: if_splits option.splits dest: first_where_Some)

lemma Complete_Inr:
  assumes "IdempotencyStore_Complete P completion w = (Inr u, w')"
  shows "\<exists>d. working w = Some d \<and> IdempotencyCompletion_Valid completion
     \<and> affected (owned (cm_Scope completion) (cm_ClaimID completion)) (idempotency_keys d) = 1
     \<and> w' = w\<lparr>calls := Suc (calls w), working := Some (d\<lparr>idempotency_keys :=
         update_where (owned (cm_Scope completion) (cm_ClaimID completion))
           (complete_row (cm_Response completion)) (idempotency_keys d)\<rparr>)\<rparr>"
  using assms
  by (auto simp: IdempotencyStore_Complete_def run_Inr completeIdempotencyClaim_def with_text_def Let_def
        split: if_splits sum.splits)

lemma in_scope_same: "in_scope scope r \<Longrightarrow> in_scope scope s \<Longrightarrow> ik_pk r = ik_pk s"
  by (simp add: in_scope_def)

text \<open>The row of a request that holds the key.\<close>

definition claimed_row :: "platform \<Rightarrow> IdempotencyClaimRequest \<Rightarrow> idempotency_row \<Rightarrow> bool" where
  "claimed_row P request k \<longleftrightarrow>
     in_scope (cr_Scope request) k \<and> ik_claim_id k = cr_ClaimID request
     \<and> ik_request_hash k = cr_Fingerprint request \<and> ik_state k = IdempotencyInProgress
     \<and> ik_lease_until k = pg_timestamptz P (cr_LeaseUntil request)
     \<and> ik_expires_at k = pg_timestamptz P (cr_ExpiresAt request)"

definition acquired_result :: "IdempotencyClaimRequest \<Rightarrow> IdempotencyClaimResult" where
  "acquired_result request = zero_claim_result\<lparr>res_Outcome := ClaimAcquired, res_ClaimID := cr_ClaimID request\<rparr>"

lemma tx_only_existing_body: "tx_only (acquire_existing_body P request)"
  unfolding acquire_existing_body_def loadIdempotencyClaim_def
  by (auto split: sum.splits prod.splits bool.splits
        intro!: tx_only_env tx_only_tx tx_only_handle tx_only_andThen)

lemma reclaim_affected:
  assumes "affected (reclaimable P request) rows = 1"
  shows "\<exists>k \<in> set (update_where (reclaimable P request) (reclaim_row P request) rows). claimed_row P request k"
proof -
  from assms obtain r where r: "r \<in> set rows" "reclaimable P request r"
    by (metis affected_0 one_neq_zero)
  then have "reclaim_row P request r \<in> set (update_where (reclaimable P request) (reclaim_row P request) rows)"
    by (force simp: update_where_def)
  moreover have "claimed_row P request (reclaim_row P request r)"
    using r(2) by (auto simp: reclaimable_def in_scope_def ik_pk_def claimed_row_def reclaim_row_def)
  ultimately show ?thesis by blast
qed

text \<open>Taking over an existing key, when the transaction's body succeeds.\<close>

lemma existing_body_Inr:
  assumes "acquire_existing_body P request w = (Inr res, w')" "working w = Some d"
  shows "\<exists>d'. working w' = Some d' \<and>
     (res = acquired_result request \<and> (\<exists>k \<in> set (idempotency_keys d'). claimed_row P request k)
      \<or> d' = d \<and> (\<exists>k. first_where (in_scope (cr_Scope request)) (idempotency_keys d) = Some k
           \<and> classifyIdempotencyClaim P (scan_claim P k) request = (res, False)))"
proof -
  obtain stored w1 where l: "loadIdempotencyClaim P (cr_Scope request) w = (Inr stored, w1)"
    and rest: "(case classifyIdempotencyClaim P stored request of
       (result, False) \<Rightarrow> ok result
     | (_, True) \<Rightarrow> handle (tx_exec P (reclaimIdempotencyClaim P request)) (\<lambda>r. case r of
             Inl err \<Rightarrow> fail (Classify err)
           | Inr n \<Rightarrow> if n \<noteq> 1
               then fail (RepositoryError ErrorConflict (PlainError ''idempotency claim changed before reclaim''))
               else ok (acquired_result request))) w1 = (Inr res, w')"
    using assms(1) unfolding acquire_existing_body_def acquired_result_def[symmetric] andThen_Inr by blast
  from l assms(2) obtain k where k: "first_where (in_scope (cr_Scope request)) (idempotency_keys d) = Some k"
      "stored = scan_claim P k" and w1: "working w1 = Some d"
    by (auto simp: loadIdempotencyClaim_def run_Inr selectIdempotencyClaimForUpdate_def with_text_def
          split: option.splits if_splits)
  show ?thesis
  proof (cases "classifyIdempotencyClaim P stored request")
    case (Pair result reclaim)
    show ?thesis
    proof (cases reclaim)
      case False
      then have "res = result" "w' = w1" using rest Pair by auto
      then show ?thesis using w1 k Pair False by auto
    next
      case True
      then have "res = acquired_result request
          \<and> (\<exists>d'. working w' = Some d' \<and> (\<exists>k \<in> set (idempotency_keys d'). claimed_row P request k))"
        using rest Pair w1 reclaim_affected[of P request "idempotency_keys d"]
        by (auto simp: run_Inr reclaimIdempotencyClaim_def with_text_def split: if_splits)
      then show ?thesis by auto
    qed
  qed
qed

lemma insert_claim_Inr:
  assumes "insertIdempotencyClaim P request t d = (Inr c, d')"
    and "varchar 128 (sc_Endpoint (cr_Scope request)) = Inr (sc_Endpoint (cr_Scope request))"
  shows "c = cr_ClaimID request \<and> (\<exists>k \<in> set (idempotency_keys d'). claimed_row P request k)"
  using assms
  by (auto simp: insertIdempotencyClaim_def Let_def claimed_row_def in_scope_def ik_pk_def split: if_splits)

lemma Acquire_Inr:
  assumes "IdempotencyStore_Acquire P request w = (Inr res, w')"
    and "varchar 128 (sc_Endpoint (cr_Scope request)) = Inr (sc_Endpoint (cr_Scope request))"
  shows "(res = acquired_result request \<and> (\<exists>k \<in> set (idempotency_keys (committed w')). claimed_row P request k))
     \<or> (committed w' = committed w
        \<and> (\<exists>k. first_where (in_scope (cr_Scope request)) (idempotency_keys (committed w)) = Some k
             \<and> classifyIdempotencyClaim P (scan_claim P k) request = (res, False)))"
proof -
  obtain r1 w1 where p: "pool_exec P (insertIdempotencyClaim P request) w = (r1, w1)" by force
  show ?thesis
  proof (cases r1)
    case (Inr c)
    then have "res = zero_claim_result\<lparr>res_Outcome := ClaimAcquired, res_ClaimID := c\<rparr>" "w' = w1"
      using assms(1) p by (auto simp: IdempotencyStore_Acquire_def handle_def split: if_splits)
    moreover have "c = cr_ClaimID request" "\<exists>k \<in> set (idempotency_keys (committed w1)). claimed_row P request k"
      using p Inr insert_claim_Inr[OF _ assms(2)] by (auto simp: pool_exec_Inr)
    ultimately show ?thesis by (simp add: acquired_result_def)
  next
    case (Inl err)
    then have ex: "acquireExisting P request w1 = (Inr res, w')" and e: "errors_Is err ErrNoRows"
      using assms(1) p by (auto simp: IdempotencyStore_Acquire_def handle_def split: if_splits)
    have c1: "committed w1 = committed w"
      using p Inl e
      by (auto simp: pool_exec_def Let_def insertIdempotencyClaim_def pg_error_def
            split: option.splits db_fault.splits sum.splits if_splits)
    from ex[unfolded acquireExisting_def] tx_only_existing_body show ?thesis
    proof (cases rule: WithinTransaction_cases)
      case (committed x v1 v2)
      then have "x = res" by auto
      then show ?thesis using existing_body_Inr[OF committed(5,1)] committed(6) c1 by auto
    qed auto
  qed
qed

section \<open>Runs without faults\<close>

text \<open>The row of a valid request passes the table's check: rounding is monotone.\<close>

definition claim_row :: "platform \<Rightarrow> IdempotencyClaimRequest \<Rightarrow> idempotency_row" where
  "claim_row P request =
     \<lparr>ik_user_id = sc_UserID (cr_Scope request), ik_endpoint = sc_Endpoint (cr_Scope request),
      ik_key = sc_Key (cr_Scope request), ik_request_hash = cr_Fingerprint request,
      ik_state = IdempotencyInProgress, ik_claim_id = cr_ClaimID request,
      ik_lease_until = pg_timestamptz P (cr_LeaseUntil request),
      ik_expires_at = pg_timestamptz P (cr_ExpiresAt request),
      ik_disbursement_id = None, ik_response_status = None, ik_response_body = None\<rparr>"

definition storable :: "platform \<Rightarrow> IdempotencyClaimRequest \<Rightarrow> bool" where
  "storable P request \<longleftrightarrow>
     timestamptz_ok P \<and> IdempotencyClaimRequest_Valid request
     \<and> varchar 128 (sc_Endpoint (cr_Scope request)) = Inr (sc_Endpoint (cr_Scope request))"

lemma storable_times:
  "storable P request \<Longrightarrow> pg_timestamptz P (cr_LeaseUntil request) \<le> pg_timestamptz P (cr_ExpiresAt request)"
  by (auto simp: storable_def timestamptz_ok_def IdempotencyClaimRequest_Valid_def)

lemma storable_text: "storable P request \<Longrightarrow> pg_text_ok (sc_Endpoint (cr_Scope request))"
  by (auto simp: storable_def varchar_def split: if_splits)

lemma storable_checks:
  assumes "storable P request"
  shows "idempotency_check (claim_row P request)" "idempotency_check (reclaim_row P request r)"
  using storable_times[OF assms] by (simp_all add: idempotency_check_def claim_row_def reclaim_row_def)

lemma insert_claim_eq:
  assumes "storable P request"
  shows "insertIdempotencyClaim P request t d =
     (if \<exists>r \<in> set (idempotency_keys d). in_scope (cr_Scope request) r then (Inl ErrNoRows, d)
      else if \<not> user_exists d (sc_UserID (cr_Scope request)) then (Inl (pg_error ''23503''), d)
      else (Inr (cr_ClaimID request), d\<lparr>idempotency_keys := idempotency_keys d @ [claim_row P request]\<rparr>))"
  using assms storable_checks(1)[OF assms]
  by (auto simp: insertIdempotencyClaim_def Let_def claim_row_def in_scope_def ik_pk_def storable_def)

lemma Acquire_fresh:
  assumes "faultless P" "storable P request" "\<forall>r \<in> set (idempotency_keys (committed w)). \<not> in_scope (cr_Scope request) r"
    and "user_exists (committed w) (sc_UserID (cr_Scope request))"
  shows "IdempotencyStore_Acquire P request w = (Inr (acquired_result request),
     w\<lparr>calls := Suc (calls w), committed := (committed w)\<lparr>idempotency_keys :=
        idempotency_keys (committed w) @ [claim_row P request]\<rparr>\<rparr>)"
proof -
  have "IdempotencyClaimRequest_Valid request" using assms(2) by (simp add: storable_def)
  then show ?thesis using assms(3,4)
    by (auto simp: IdempotencyStore_Acquire_def handle_def pool_exec_faultless[OF assms(1)]
          insert_claim_eq[OF assms(2)] acquired_result_def ok_def)
qed

lemma scope_lookup:
  assumes "unique_by ik_pk rows" "k \<in> set rows" "in_scope scope k"
  shows "first_where (in_scope scope) rows = Some k"
  by (rule first_where_unique[where p = "in_scope scope" and key = ik_pk, OF assms(1,2,3)]) (use assms(3) in \<open>simp add: in_scope_def\<close>)

text \<open>A key that exists goes through \<open>acquireExisting\<close> and its classification.\<close>

lemma Acquire_existing:
  assumes "faultless P" "storable P request" "unique_by ik_pk (idempotency_keys (committed w))"
    and "k \<in> set (idempotency_keys (committed w))" "in_scope (cr_Scope request) k"
    and "classifyIdempotencyClaim P (scan_claim P k) request = (res, False)"
  shows "\<exists>w'. IdempotencyStore_Acquire P request w = (Inr res, w') \<and> committed w' = committed w
     \<and> working w' = working w \<and> collector w' = collector w \<and> calls w \<le> calls w'"
proof -
  have v: "IdempotencyClaimRequest_Valid request" using assms(2) by (simp add: storable_def)
  let ?w1 = "w\<lparr>calls := Suc (calls w)\<rparr>"
  let ?b = "?w1\<lparr>calls := Suc (calls ?w1), working := Some (committed w), tx_now := pg_now P (calls ?w1)\<rparr>"
  have body: "acquire_existing_body P request ?b = (Inr res, ?b\<lparr>calls := Suc (calls ?b)\<rparr>)"
    using assms(6) scope_lookup[OF assms(3-5)] storable_text[OF assms(2)]
    by (simp add: acquire_existing_body_def loadIdempotencyClaim_def andThen_def handle_def ok_def
          tx_exec_faultless[OF assms(1)] selectIdempotencyClaimForUpdate_def with_text_def)
  have "IdempotencyStore_Acquire P request w = acquireExisting P request ?w1"
    using v assms(4,5)
    by (auto simp: IdempotencyStore_Acquire_def handle_def pool_exec_faultless[OF assms(1)] insert_claim_eq[OF assms(2)])
  also have "\<dots> = (Inr res, ?b\<lparr>calls := Suc (Suc (calls ?b)), working := working w\<rparr>)"
    unfolding acquireExisting_def using WithinTransaction_faultless[OF assms(1), of "acquire_existing_body P request" ?w1] body by simp
  finally show ?thesis by simp
qed

text \<open>
  When the classification asks for the key to be taken over, the guard of the SQL update agrees
  with it, on the stored (rounded) times: exactly the one row of the scope is updated.
\<close>

lemma reclaim_agrees:
  assumes "timestamptz_ok P" "in_scope (cr_Scope request) k"
    and "pg_timestamptz P (ik_expires_at k) = ik_expires_at k" "pg_timestamptz P (ik_lease_until k) = ik_lease_until k"
    and "classifyIdempotencyClaim P (scan_claim P k) request = (res, True)"
  shows "reclaimable P request k"
proof -
  have "ik_expires_at k \<le> cr_Now request
      \<or> (ik_state k = IdempotencyInProgress \<and> ik_request_hash k = cr_Fingerprint request
         \<and> ik_lease_until k \<le> cr_Now request)"
    using assms(5) by (cases "ik_state k")
      (auto simp: classifyIdempotencyClaim_def scan_claim_def not_less split: if_splits sum.splits)
  then show ?thesis
    using stored_le_iff[OF assms(1,3)] stored_le_iff[OF assms(1,4)] assms(2) by (auto simp: reclaimable_def)
qed

lemma Acquire_reclaim:
  assumes "faultless P" "storable P request" "unique_by ik_pk (idempotency_keys (committed w))"
    and "k \<in> set (idempotency_keys (committed w))" "in_scope (cr_Scope request) k"
    and "pg_timestamptz P (ik_expires_at k) = ik_expires_at k" "pg_timestamptz P (ik_lease_until k) = ik_lease_until k"
    and "classifyIdempotencyClaim P (scan_claim P k) request = (res, True)"
  shows "\<exists>w'. IdempotencyStore_Acquire P request w = (Inr (acquired_result request), w')
     \<and> committed w' = (committed w)\<lparr>idempotency_keys :=
         update_where (reclaimable P request) (reclaim_row P request) (idempotency_keys (committed w))\<rparr>
     \<and> working w' = working w \<and> collector w' = collector w"
proof -
  have v: "IdempotencyClaimRequest_Valid request" "timestamptz_ok P" using assms(2) by (simp_all add: storable_def)
  have r: "reclaimable P request k" by (rule reclaim_agrees[OF v(2) assms(5-8)])
  have one: "affected (reclaimable P request) (idempotency_keys (committed w)) = 1"
    by (rule affected_unique[where p = "reclaimable P request" and key = ik_pk, OF assms(3,4) r]) (use assms(5) in \<open>simp add: reclaimable_def in_scope_def\<close>)
  let ?w1 = "w\<lparr>calls := Suc (calls w)\<rparr>"
  let ?b = "?w1\<lparr>calls := Suc (calls ?w1), working := Some (committed w), tx_now := pg_now P (calls ?w1)\<rparr>"
  let ?d = "(committed w)\<lparr>idempotency_keys :=
         update_where (reclaimable P request) (reclaim_row P request) (idempotency_keys (committed w))\<rparr>"
  have body: "acquire_existing_body P request ?b =
      (Inr (acquired_result request), ?b\<lparr>calls := Suc (Suc (calls ?b)), working := Some ?d\<rparr>)"
    using assms(8) scope_lookup[OF assms(3-5)] storable_text[OF assms(2)] storable_checks(2)[OF assms(2)] one
    by (simp add: acquire_existing_body_def loadIdempotencyClaim_def andThen_def handle_def ok_def acquired_result_def
          tx_exec_faultless[OF assms(1)] selectIdempotencyClaimForUpdate_def with_text_def reclaimIdempotencyClaim_def)
  have "IdempotencyStore_Acquire P request w = acquireExisting P request ?w1"
    using v assms(4,5)
    by (auto simp: IdempotencyStore_Acquire_def handle_def pool_exec_faultless[OF assms(1)] insert_claim_eq[OF assms(2)])
  also have "\<dots> = (Inr (acquired_result request),
      ?b\<lparr>calls := Suc (Suc (Suc (calls ?b))), working := working w, committed := ?d\<rparr>)"
    unfolding acquireExisting_def using WithinTransaction_faultless[OF assms(1), of "acquire_existing_body P request" ?w1] body by simp
  finally show ?thesis by simp
qed


section \<open>Runs without faults\<close>

lemma VerifyOwnership_run:
  assumes "faultless P" "working w = Some d" "IdempotencyScope_Valid scope" "c \<noteq> uuid_Nil" "pg_text_ok (sc_Endpoint scope)"
    and "first_where (in_scope scope) (idempotency_keys d) = Some k" "owned scope c k"
  shows "IdempotencyStore_VerifyOwnership P scope c w = (Inr (), w\<lparr>calls := Suc (calls w)\<rparr>)"
  using assms
  by (simp add: IdempotencyStore_VerifyOwnership_def andThen_def handle_def unwrapTransaction_def fail_def ok_def
        tx_exec_faultless verifyIdempotencyOwner_def with_text_def owned_def)

lemma owned_once:
  assumes "unique_by ik_pk rows" "k \<in> set rows" "owned scope c k"
  shows "affected (owned scope c) rows = 1" "r \<in> set rows \<Longrightarrow> owned scope c r \<Longrightarrow> r = k"
proof -
  have same: "ik_pk r = ik_pk k" if "owned scope c r" for r
    using that assms(3) by (simp add: owned_def in_scope_def)
  show "affected (owned scope c) rows = 1"
    by (rule affected_unique[where p = "owned scope c" and key = ik_pk, OF assms]) (rule same)
  show "r \<in> set rows \<Longrightarrow> owned scope c r \<Longrightarrow> r = k"
    using unique_by_same[OF assms(1) _ assms(2)] same by blast
qed

lemma Complete_run:
  assumes f: "faultless P" and w: "working w = Some d" and v: "IdempotencyCompletion_Valid m"
    and u: "unique_by ik_pk (idempotency_keys d)"
    and k: "k \<in> set (idempotency_keys d)" "owned (cm_Scope m) (cm_ClaimID m) k"
    and chk: "idempotency_check (complete_row (cm_Response m) k)" and t: "pg_text_ok (sc_Endpoint (cm_Scope m))"
    and r: "int2 (rp_StatusCode (cm_Response m))" "rp_Body (cm_Response m) = Some b" "json_no_nul b"
      "disbursement_exists d (rp_DisbursementID (cm_Response m))"
  shows "IdempotencyStore_Complete P m w = (Inr (), w\<lparr>calls := Suc (calls w), working := Some (d\<lparr>idempotency_keys :=
         update_where (owned (cm_Scope m) (cm_ClaimID m)) (complete_row (cm_Response m)) (idempotency_keys d)\<rparr>)\<rparr>)"
proof -
  have bad: "\<not> (\<exists>x \<in> set (idempotency_keys d). owned (cm_Scope m) (cm_ClaimID m) x
      \<and> \<not> idempotency_check (complete_row (cm_Response m) x))"
    using owned_once(2)[OF u k] chk by auto
  show ?thesis using f w v t r bad owned_once(1)[OF u k]
    by (simp add: IdempotencyStore_Complete_def andThen_def handle_def unwrapTransaction_def ok_def
          tx_exec_faultless completeIdempotencyClaim_def with_text_def jsonb_def Let_def)
qed

end
