(* ===== verification/Coordinator.thy ===== *)
theory Coordinator
  imports Idempotency_Store
begin

text \<open>
  \<open>internal/service/idempotency\<close>: request fingerprints over canonical JSON and the coordinator that
  claims, verifies, completes and releases idempotency keys. A payload of type \<open>any\<close> is given by
  what \<open>json.Marshal\<close> makes of it: an error, or the value its text denotes. What \<open>json.Marshal\<close>
  prints is always one JSON value, so the decoding steps of \<open>canonicalJSON\<close> cannot fail.
  \<open>hash.Write\<close> in pieces hashes their concatenation.
\<close>

section \<open>Fingerprints\<close>

definition canonicalJSON :: "go_error + json \<Rightarrow> go_error + json" where
  "canonicalJSON marshalled =
     (case marshalled of
        Inl err \<Rightarrow> Inl (WrapError ''marshal idempotency payload'' err)
      | Inr encoded \<Rightarrow> Inr (canon encoded))"

definition fingerprint_text :: "string \<Rightarrow> string \<Rightarrow> json \<Rightarrow> string" where
  "fingerprint_text canonicalMethod canonicalEndpoint payload =
     canonicalMethod @ [byte_chr 0] @ canonicalEndpoint @ [byte_chr 0] @ json_text payload"

definition Fingerprint :: "platform \<Rightarrow> string \<Rightarrow> string \<Rightarrow> go_error + json \<Rightarrow> go_error + string" where
  "Fingerprint P m endpoint payload =
     (case canonicalJSON payload of
        Inl err \<Rightarrow> Inl err
      | Inr canonicalPayload \<Rightarrow>
          (let canonicalMethod = ToUpper (unicode_upper P) (TrimSpace m);
               canonicalEndpoint = TrimSpace endpoint
           in if canonicalMethod = '''' \<or> canonicalEndpoint = ''''
              then Inl (PlainError ''method and endpoint are required for idempotency fingerprint'')
              else Inr (Sum256 P (fingerprint_text canonicalMethod canonicalEndpoint canonicalPayload))))"

section \<open>The coordinator\<close>

record Coordinator =
  co_leaseTTL :: duration
  co_replayTTL :: duration

definition NewCoordinator :: "duration \<Rightarrow> duration \<Rightarrow> go_error + Coordinator" where
  "NewCoordinator leaseTTL replayTTL =
     (if leaseTTL \<le> 0 \<or> replayTTL \<le> leaseTTL
      then Inl (PlainError ''invalid idempotency coordinator configuration'')
      else Inr \<lparr>co_leaseTTL = leaseTTL, co_replayTTL = replayTTL\<rparr>)"

definition claim_request ::
  "Coordinator \<Rightarrow> uuid \<Rightarrow> string \<Rightarrow> uuid \<Rightarrow> string \<Rightarrow> uuid \<Rightarrow> time \<Rightarrow> IdempotencyClaimRequest" where
  "claim_request coordinator userID endpoint key fingerprint claimID now =
     \<lparr>cr_Scope = \<lparr>sc_UserID = userID, sc_Endpoint = TrimSpace endpoint, sc_Key = key\<rparr>,
      cr_Fingerprint = fingerprint, cr_ClaimID = claimID,
      cr_LeaseUntil = now + co_leaseTTL coordinator,
      cr_ExpiresAt = now + co_replayTTL coordinator, cr_Now = now\<rparr>"

definition Coordinator_Claim ::
  "platform \<Rightarrow> Coordinator \<Rightarrow> uuid \<Rightarrow> string \<Rightarrow> string \<Rightarrow> string \<Rightarrow> go_error + json
   \<Rightarrow> IdempotencyClaimResult go" where
  "Coordinator_Claim P coordinator userID m endpoint keyValue payload =
     andThen (lift_result (ParseIdempotencyKey P keyValue)) (\<lambda>key.
     andThen (lift_result (Fingerprint P m endpoint payload)) (\<lambda>fingerprint.
     handle (new_random_uuid P) (\<lambda>r. case r of
       Inl err \<Rightarrow> fail (WrapError ''generate idempotency claim ID'' err)
     | Inr claimID \<Rightarrow>
         andThen (read_clock P) (\<lambda>now.
         andThen (IdempotencyStore_Acquire P
                    (claim_request coordinator userID endpoint key fingerprint claimID now)) (\<lambda>result.
         andThen (if res_Outcome result \<noteq> '''' then record_metric (RecordIdempotencyClaim (res_Outcome result))
                  else ok ()) (\<lambda>_.
         ok result))))))"

definition Coordinator_VerifyOwnership :: "platform \<Rightarrow> IdempotencyScope \<Rightarrow> uuid \<Rightarrow> unit go" where
  "Coordinator_VerifyOwnership P scope claimID = IdempotencyStore_VerifyOwnership P scope claimID"

text \<open>A \<open>json.RawMessage\<close> that is no JSON text does not marshal.\<close>

definition marshal_RawMessage :: "json option \<Rightarrow> go_error + json" where
  "marshal_RawMessage body =
     (case body of None \<Rightarrow> Inl (PlainError ''json: error calling MarshalJSON for type json.RawMessage'')
      | Some j \<Rightarrow> Inr j)"

definition Coordinator_Complete :: "platform \<Rightarrow> IdempotencyCompletion \<Rightarrow> unit go" where
  "Coordinator_Complete P completion =
     andThen (lift_result (canonicalJSON (marshal_RawMessage (rp_Body (cm_Response completion))))) (\<lambda>canonicalBody.
     IdempotencyStore_Complete P
       (completion\<lparr>cm_Response := (cm_Response completion)\<lparr>rp_Body := Some canonicalBody\<rparr>\<rparr>))"

definition Coordinator_Release :: "platform \<Rightarrow> IdempotencyScope \<Rightarrow> uuid \<Rightarrow> unit go" where
  "Coordinator_Release P scope claimID = IdempotencyStore_Release P scope claimID"

section \<open>What the coordinator keeps\<close>

context claim_evolution
begin

lemma evolves_Claim: "evolves R (Coordinator_Claim P co u m e k payload)"
  unfolding Coordinator_Claim_def
  by (auto split: sum.splits intro!: evo_intros evolves_Acquire)

end

end
