(* ===== verification/Disbursement_Store.thy ===== *)
theory Disbursement_Store
  imports Database
begin

text \<open>
  \<open>internal/repository/postgres/disbursement.go\<close>: the SQL statements on \<open>disbursements\<close> and the store's
  methods. The listing query is built the way the code builds it, a list of conditions with
  numbered placeholders and the list of their arguments, and evaluated on the table. PostgreSQL's
  \<open>ILIKE\<close> and its ordering of a result are arguments of \<open>List\<close>: \<open>ilike text pattern\<close> and
  \<open>order_by n column ascending rows\<close>, the arrangement that the database call \<open>n\<close> of the process returns:
  two queries may arrange rows of equal keys differently.
\<close>

section \<open>Statements\<close>

definition convert_disbursement :: "platform \<Rightarrow> dbDisbursement \<Rightarrow> go_error + dbDisbursement" where
  "convert_disbursement P r =
     bind_result (varchar 150 (row_RecipientName r)) (\<lambda>name.
     bind_result (varchar 34 (row_AccountNumber r)) (\<lambda>account.
     bind_result (varchar 10 (row_BankCode r)) (\<lambda>bank.
     bind_result (int4 (row_AdminFee r)) (\<lambda>fee.
     bind_result (status_enum (row_Status r)) (\<lambda>status.
     bind_result (varchar_option 500 (row_Note r)) (\<lambda>note.
     bind_result (varchar_option 500 (row_DecisionNote r)) (\<lambda>decisionNote.
     Inr (r\<lparr>row_RecipientName := name, row_AccountNumber := account, row_BankCode := bank,
            row_AdminFee := fee, row_Status := status, row_Note := note,
            row_DecisionNote := decisionNote,
            row_DecidedAt := map_option (pg_timestamptz P) (row_DecidedAt r),
            row_DeletedAt := map_option (pg_timestamptz P) (row_DeletedAt r),
            row_CreatedAt := pg_timestamptz P (row_CreatedAt r),
            row_UpdatedAt := pg_timestamptz P (row_UpdatedAt r)\<rparr>))))))))"

definition insertDisbursementQuery :: "platform \<Rightarrow> dbDisbursement \<Rightarrow> unit stmt" where
  "insertDisbursementQuery P values t d =
     (case convert_disbursement P values of
        Inl e \<Rightarrow> (Inl e, d)
      | Inr row \<Rightarrow>
          if \<not> disbursement_check row then (Inl (pg_error ''23514''), d)
          else if disbursement_exists d (row_ID row) then (Inl (pg_error ''23505''), d)
          else if \<not> user_exists d (row_CreatedBy row)
                  \<or> (case row_DecidedBy row of None \<Rightarrow> False | Some u \<Rightarrow> \<not> user_exists d u)
          then (Inl (pg_error ''23503''), d)
          else (Inr (), d\<lparr>disbursements := disbursements d @ [row]\<rparr>))"

definition findDisbursementByIDQuery :: "uuid \<Rightarrow> dbDisbursement stmt" where
  "findDisbursementByIDQuery i t d =
     (case first_where (\<lambda>r. row_ID r = i \<and> row_DeletedAt r = None) (disbursements d) of
        None \<Rightarrow> Inl ErrNoRows | Some r \<Rightarrow> Inr r, d)"

definition findDisbursementRawByIDQuery :: "uuid \<Rightarrow> dbDisbursement stmt" where
  "findDisbursementRawByIDQuery i t d =
     (case first_where (\<lambda>r. row_ID r = i) (disbursements d) of
        None \<Rightarrow> Inl ErrNoRows | Some r \<Rightarrow> Inr r, d)"

text \<open>The predicate of both conditional updates.\<close>

definition open_row :: "uuid \<Rightarrow> dbDisbursement \<Rightarrow> bool" where
  "open_row i r \<longleftrightarrow> row_ID r = i \<and> row_Status r = ''PENDING'' \<and> row_DeletedAt r = None"

definition decide_row :: "string \<Rightarrow> uuid \<Rightarrow> string option \<Rightarrow> time \<Rightarrow> dbDisbursement \<Rightarrow> dbDisbursement" where
  "decide_row status actor note now r =
     r\<lparr>row_Status := status, row_DecidedBy := Some actor, row_DecisionNote := note,
       row_DecidedAt := Some now, row_UpdatedAt := now\<rparr>"

definition delete_row :: "time \<Rightarrow> dbDisbursement \<Rightarrow> dbDisbursement" where
  "delete_row now r = r\<lparr>row_DeletedAt := Some now, row_UpdatedAt := now\<rparr>"

definition updateDisbursementStatusQuery ::
  "platform \<Rightarrow> string \<Rightarrow> uuid \<Rightarrow> string option \<Rightarrow> time \<Rightarrow> uuid \<Rightarrow> dbDisbursement stmt" where
  "updateDisbursementStatusQuery P status actor note now i t d =
     (case bind_result (status_enum status) (\<lambda>st.
           bind_result (varchar_option 500 note) (\<lambda>nt. Inr (st, nt))) of
        Inl e \<Rightarrow> (Inl e, d)
      | Inr (st, nt) \<Rightarrow>
          (let f = decide_row st actor nt (pg_timestamptz P now)
           in case first_where (open_row i) (disbursements d) of
                None \<Rightarrow> (Inl ErrNoRows, d)
              | Some r \<Rightarrow>
                  if \<not> disbursement_check (f r) then (Inl (pg_error ''23514''), d)
                  else if \<not> user_exists d actor then (Inl (pg_error ''23503''), d)
                  else (Inr (f r), d\<lparr>disbursements := update_where (open_row i) f (disbursements d)\<rparr>)))"

definition softDeleteDisbursementQuery :: "platform \<Rightarrow> time \<Rightarrow> uuid \<Rightarrow> dbDisbursement stmt" where
  "softDeleteDisbursementQuery P now i t d =
     (let f = delete_row (pg_timestamptz P now)
      in case first_where (open_row i) (disbursements d) of
           None \<Rightarrow> (Inl ErrNoRows, d)
         | Some r \<Rightarrow>
             if \<not> disbursement_check (f r) then (Inl (pg_error ''23514''), d)
             else (Inr (f r), d\<lparr>disbursements := update_where (open_row i) f (disbursements d)\<rparr>))"

section \<open>The store\<close>

definition mapDBDisbursementToDomain :: "dbDisbursement \<Rightarrow> Disbursement" where
  "mapDBDisbursementToDomain row =
     \<lparr>d_ID = row_ID row, d_RecipientName = row_RecipientName row,
      d_AccountNumber = row_AccountNumber row, d_BankCode = row_BankCode row,
      d_Amount = row_Amount row, d_AdminFee = row_AdminFee row, d_Status = row_Status row,
      d_Note = (case row_Note row of None \<Rightarrow> '''' | Some s \<Rightarrow> s),
      d_CreatedBy = row_CreatedBy row,
      d_DecidedBy = (case row_DecidedBy row of None \<Rightarrow> uuid_Nil | Some u \<Rightarrow> u),
      d_DecisionNote = (case row_DecisionNote row of None \<Rightarrow> '''' | Some s \<Rightarrow> s),
      d_DecidedAt = row_DecidedAt row, d_DeletedAt = row_DeletedAt row,
      d_CreatedAt = row_CreatedAt row, d_UpdatedAt = row_UpdatedAt row\<rparr>"

text \<open>The arguments \<open>Insert\<close> passes to its statement: empty notes and the nil decider become \<open>NULL\<close>.\<close>

definition insert_values :: "Disbursement \<Rightarrow> dbDisbursement" where
  "insert_values d =
     \<lparr>row_ID = d_ID d, row_RecipientName = d_RecipientName d,
      row_AccountNumber = d_AccountNumber d, row_BankCode = d_BankCode d,
      row_Amount = d_Amount d, row_AdminFee = d_AdminFee d, row_Status = d_Status d,
      row_Note = (if d_Note d \<noteq> '''' then Some (d_Note d) else None),
      row_CreatedBy = d_CreatedBy d,
      row_DecidedBy = (if d_DecidedBy d \<noteq> uuid_Nil then Some (d_DecidedBy d) else None),
      row_DecisionNote = (if d_DecisionNote d \<noteq> '''' then Some (d_DecisionNote d) else None),
      row_DecidedAt = d_DecidedAt d, row_DeletedAt = d_DeletedAt d,
      row_CreatedAt = d_CreatedAt d, row_UpdatedAt = d_UpdatedAt d\<rparr>"

definition DisbursementStore_Insert :: "platform \<Rightarrow> Disbursement \<Rightarrow> unit go" where
  "DisbursementStore_Insert P d =
     andThen unwrapTransaction (\<lambda>_.
     handle (tx_exec P (insertDisbursementQuery P (insert_values d))) (\<lambda>r.
       case r of Inl err \<Rightarrow> fail (Classify err) | Inr _ \<Rightarrow> ok ()))"

definition disbursement_not_found :: go_error where
  "disbursement_not_found = RepositoryError ErrorNotFound (PlainError ''disbursement not found'')"

definition DisbursementStore_FindByID :: "platform \<Rightarrow> uuid \<Rightarrow> Disbursement go" where
  "DisbursementStore_FindByID P i =
     handle (pool_exec P (findDisbursementByIDQuery i)) (\<lambda>r.
       case r of
         Inl err \<Rightarrow> if errors_Is err ErrNoRows then fail disbursement_not_found else fail (Classify err)
       | Inr row \<Rightarrow> ok (mapDBDisbursementToDomain row))"

text \<open>After the conditional update matched no row, a second query tells why.\<close>

definition explain_update :: "platform \<Rightarrow> uuid \<Rightarrow> Disbursement go" where
  "explain_update P i =
     handle (tx_exec P (findDisbursementRawByIDQuery i)) (\<lambda>r.
       case r of
         Inl checkErr \<Rightarrow>
           if errors_Is checkErr ErrNoRows then fail disbursement_not_found else fail (Classify checkErr)
       | Inr existing \<Rightarrow>
           if row_DeletedAt existing \<noteq> None
           then fail (RepositoryError ErrorNotFound (PlainError ''disbursement deleted''))
           else if row_Status existing \<noteq> StatusPending
           then fail (RepositoryError ErrorConflict (PlainError ''disbursement already finalized''))
           else fail (RepositoryError ErrorConflict (PlainError ''concurrent status update conflict'')))"

definition DisbursementStore_UpdateStatus :: "platform \<Rightarrow> uuid \<Rightarrow> Decision \<Rightarrow> Disbursement go" where
  "DisbursementStore_UpdateStatus P i decision =
     andThen unwrapTransaction (\<lambda>_.
     andThen (read_clock P) (\<lambda>now.
     let decisionNote = (if dec_Note decision \<noteq> '''' then Some (dec_Note decision) else None) in
     handle (tx_exec P (updateDisbursementStatusQuery P (dec_Status decision) (dec_ActorID decision)
               decisionNote now i)) (\<lambda>r.
       case r of
         Inr updated \<Rightarrow> ok (mapDBDisbursementToDomain updated)
       | Inl err \<Rightarrow> if \<not> errors_Is err ErrNoRows then fail (Classify err) else explain_update P i)))"

definition explain_delete :: "platform \<Rightarrow> uuid \<Rightarrow> (Disbursement \<times> bool) go" where
  "explain_delete P i =
     handle (tx_exec P (findDisbursementRawByIDQuery i)) (\<lambda>r.
       case r of
         Inl checkErr \<Rightarrow>
           if errors_Is checkErr ErrNoRows then fail disbursement_not_found else fail (Classify checkErr)
       | Inr existing \<Rightarrow>
           if row_DeletedAt existing \<noteq> None
           then ok (mapDBDisbursementToDomain existing, True)
           else if row_Status existing \<noteq> StatusPending
           then fail (RepositoryError ErrorConstraint (PlainError ''cannot delete finalized disbursement''))
           else fail (RepositoryError ErrorConflict (PlainError ''concurrent delete conflict'')))"

definition DisbursementStore_SoftDelete :: "platform \<Rightarrow> uuid \<Rightarrow> (Disbursement \<times> bool) go" where
  "DisbursementStore_SoftDelete P i =
     andThen unwrapTransaction (\<lambda>_.
     andThen (read_clock P) (\<lambda>now.
     handle (tx_exec P (softDeleteDisbursementQuery P now i)) (\<lambda>r.
       case r of
         Inr deleted \<Rightarrow> ok (mapDBDisbursementToDomain deleted, False)
       | Inl err \<Rightarrow> if \<not> errors_Is err ErrNoRows then fail (Classify err) else explain_delete P i)))"

section \<open>Listing\<close>

record DisbursementFilter =
  fl_Page :: int
  fl_Limit :: int
  fl_Status :: string
  fl_Search :: string
  fl_SortBy :: string
  fl_SortOrder :: string
  fl_DateRange :: "DateRange option"

datatype sql_arg = ArgText string | ArgTime time

text \<open>The conditions of the WHERE clause, with the placeholder numbers the code prints into them.\<close>

datatype condition =
    DeletedAtIsNull
  | StatusEq nat
  | NameOrAccountILike nat nat
  | CreatedAtGe nat
  | CreatedAtLt nat

definition list_query ::
  "DisbursementFilter \<Rightarrow> condition list \<times> sql_arg list \<times> nat" where
  "list_query filt =
     (let q0 = ([DeletedAtIsNull], [], 1);
          q1 = (if fl_Status filt \<noteq> '''' then
                  (case q0 of (conditions, args, argIndex) \<Rightarrow>
                     (conditions @ [StatusEq argIndex], args @ [ArgText (fl_Status filt)], argIndex + 1))
                else q0);
          q2 = (if TrimSpace (fl_Search filt) \<noteq> '''' then
                  (case q1 of (conditions, args, argIndex) \<Rightarrow>
                     (conditions @ [NameOrAccountILike argIndex argIndex],
                      args @ [ArgText (''%'' @ TrimSpace (fl_Search filt) @ ''%'')], argIndex + 1))
                else q1)
      in case fl_DateRange filt of
           None \<Rightarrow> q2
         | Some dr \<Rightarrow>
             (case q2 of (conditions, args, argIndex) \<Rightarrow>
                (conditions @ [CreatedAtGe argIndex] @ [CreatedAtLt (argIndex + 1)],
                 args @ [ArgTime (FromInclusive dr)] @ [ArgTime (ToExclusive dr)],
                 argIndex + 2)))"

text \<open>The argument of placeholder \<open>$n\<close>; placeholders count from one.\<close>

definition placeholder :: "sql_arg list \<Rightarrow> nat \<Rightarrow> sql_arg option" where
  "placeholder args n = (if 1 \<le> n \<and> n \<le> length args then Some (args ! (n - 1)) else None)"

text \<open>
  A condition on a row; \<open>None\<close> where a placeholder is missing or its argument has the wrong type,
  which the server refuses.
\<close>

fun eval_condition ::
  "platform \<Rightarrow> (string \<Rightarrow> string \<Rightarrow> bool) \<Rightarrow> sql_arg list \<Rightarrow> condition \<Rightarrow> dbDisbursement \<Rightarrow> bool option" where
  "eval_condition P ilike args DeletedAtIsNull r = Some (row_DeletedAt r = None)"
| "eval_condition P ilike args (StatusEq n) r =
     (case placeholder args n of Some (ArgText s) \<Rightarrow> Some (row_Status r = s) | _ \<Rightarrow> None)"
| "eval_condition P ilike args (NameOrAccountILike m n) r =
     (case (placeholder args m, placeholder args n) of
        (Some (ArgText p), Some (ArgText q)) \<Rightarrow>
          Some (ilike (row_RecipientName r) p \<or> ilike (row_AccountNumber r) q)
      | _ \<Rightarrow> None)"
| "eval_condition P ilike args (CreatedAtGe n) r =
     (case placeholder args n of Some (ArgTime t) \<Rightarrow> Some (pg_timestamptz P t \<le> row_CreatedAt r) | _ \<Rightarrow> None)"
| "eval_condition P ilike args (CreatedAtLt n) r =
     (case placeholder args n of Some (ArgTime t) \<Rightarrow> Some (row_CreatedAt r < pg_timestamptz P t) | _ \<Rightarrow> None)"

text \<open>
  Binding the arguments: a status that is no value of the enum is refused (22P02), a text that
  PostgreSQL cannot store is refused (22021).
\<close>

fun bind_error :: "sql_arg list \<Rightarrow> condition \<Rightarrow> go_error option" where
  "bind_error args (StatusEq n) =
     (case placeholder args n of
        Some (ArgText s) \<Rightarrow> (case status_enum s of Inl e \<Rightarrow> Some e | Inr _ \<Rightarrow> None)
      | _ \<Rightarrow> Some (pg_error ''42P18''))"
| "bind_error args (NameOrAccountILike m n) =
     (case placeholder args m of
        Some (ArgText s) \<Rightarrow> if pg_text_ok s then None else Some (pg_error ''22021'')
      | _ \<Rightarrow> Some (pg_error ''42P18''))"
| "bind_error args _ = None"

definition where_rows ::
  "platform \<Rightarrow> (string \<Rightarrow> string \<Rightarrow> bool) \<Rightarrow> condition list \<Rightarrow> sql_arg list \<Rightarrow> database
   \<Rightarrow> go_error + dbDisbursement list" where
  "where_rows P ilike conditions args d =
     (case List.map_filter (bind_error args) conditions of
        e # _ \<Rightarrow> Inl e
      | [] \<Rightarrow>
          if \<forall>c \<in> set conditions. \<forall>r \<in> set (disbursements d). eval_condition P ilike args c r \<noteq> None
          then Inr (select_where (\<lambda>r. \<forall>c \<in> set conditions. eval_condition P ilike args c r = Some True)
                      (disbursements d))
          else Inl (pg_error ''42P18''))"

definition countQuery ::
  "platform \<Rightarrow> (string \<Rightarrow> string \<Rightarrow> bool) \<Rightarrow> condition list \<Rightarrow> sql_arg list \<Rightarrow> int stmt" where
  "countQuery P ilike conditions args t d =
     (case where_rows P ilike conditions args d of
        Inl e \<Rightarrow> (Inl e, d) | Inr rows \<Rightarrow> (Inr (int (length rows)), d))"

text \<open>\<open>LIMIT\<close> and \<open>OFFSET\<close> refuse negative values (2201W, 2201X).\<close>

definition listQuery ::
  "platform \<Rightarrow> (string \<Rightarrow> string \<Rightarrow> bool) \<Rightarrow> (string \<Rightarrow> bool \<Rightarrow> dbDisbursement list \<Rightarrow> dbDisbursement list)
   \<Rightarrow> condition list \<Rightarrow> sql_arg list \<Rightarrow> string \<Rightarrow> bool \<Rightarrow> int \<Rightarrow> int \<Rightarrow> dbDisbursement list stmt" where
  "listQuery P ilike order_by conditions args sortColumn asc limit offset t d =
     (case where_rows P ilike conditions args d of
        Inl e \<Rightarrow> (Inl e, d)
      | Inr rows \<Rightarrow>
          if limit < 0 then (Inl (pg_error ''2201W''), d)
          else if offset < 0 then (Inl (pg_error ''2201X''), d)
          else (Inr (take (nat limit) (drop (nat offset) (order_by sortColumn asc rows))), d))"

definition sort_column :: "string \<Rightarrow> string" where
  "sort_column sortBy =
     (if sortBy = ''amount'' then ''amount''
      else if sortBy = ''recipient_name'' then ''recipient_name''
      else if sortBy = ''status'' then ''status''
      else if sortBy = ''created_at'' then ''created_at''
      else ''created_at'')"

definition effective_page :: "int \<Rightarrow> int" where
  "effective_page page = (if page < 1 then DefaultPage else page)"

definition effective_limit :: "int \<Rightarrow> int" where
  "effective_limit limit = (if limit < 1 \<or> limit > MaximumLimit then DefaultLimit else limit)"

definition list_offset :: "int \<Rightarrow> int \<Rightarrow> int" where
  "list_offset page limit = wrap64 (wrap64 (page - 1) * limit)"

definition DisbursementStore_List ::
  "platform \<Rightarrow> (string \<Rightarrow> string \<Rightarrow> bool) \<Rightarrow> (nat \<Rightarrow> string \<Rightarrow> bool \<Rightarrow> dbDisbursement list \<Rightarrow> dbDisbursement list)
   \<Rightarrow> DisbursementFilter \<Rightarrow> (Disbursement list \<times> int) go" where
  "DisbursementStore_List P ilike order_by filt =
     (case list_query filt of (conditions, args, argIndex) \<Rightarrow>
      handle (pool_exec P (countQuery P ilike conditions args)) (\<lambda>r.
        case r of
          Inl err \<Rightarrow> fail (Classify err)
        | Inr count \<Rightarrow>
            if count = 0 then ok ([], 0)
            else
              (let sortColumn = sort_column (fl_SortBy filt);
                   asc = (ToLower (unicode_lower P) (fl_SortOrder filt) = ''asc'');
                   page = effective_page (fl_Page filt);
                   limit = effective_limit (fl_Limit filt)
               in handle (\<lambda>w. pool_exec P (listQuery P ilike (order_by (calls w)) conditions args sortColumn asc
                                limit (list_offset page limit)) w) (\<lambda>r'.
                    case r' of
                      Inl err \<Rightarrow> fail (Classify err)
                    | Inr rows \<Rightarrow> ok (map mapDBDisbursementToDomain rows, count)))))"

lemmas disbursement_stmts [stmt_defs] =
  insertDisbursementQuery_def findDisbursementByIDQuery_def findDisbursementRawByIDQuery_def
  updateDisbursementStatusQuery_def softDeleteDisbursementQuery_def countQuery_def listQuery_def

section \<open>What the statements keep\<close>

text \<open>Reading keeps every relation.\<close>

context db_evolution begin

lemma R_reads:
  "R d (snd (findDisbursementByIDQuery i t d))" "R d (snd (findDisbursementRawByIDQuery i t d))"
  "R d (snd (countQuery P ilike cs as t d))" "R d (snd (listQuery P ilike ob cs as sc asc l off t d))"
  by (auto simp: stmt_defs evo_refl split: sum.splits)

lemma evolves_FindByID: "evolves R (DisbursementStore_FindByID P i)"
  unfolding DisbursementStore_FindByID_def
  by (intro evo_intros R_reads) (auto split: sum.splits intro: evo_intros)

lemma evo_pool_call: "(\<And>n t d. R d (snd (st n t d))) \<Longrightarrow> evolves R (\<lambda>w. pool_exec P (st (calls w)) w)"
  by (rule evolvesI) (auto simp: pool_exec_def Let_def evo_refl split: option.splits db_fault.splits)

lemma evolves_List: "evolves R (DisbursementStore_List P ilike order_by filt)"
  unfolding DisbursementStore_List_def Let_def
  by (auto split: prod.splits sum.splits intro!: evo_pool_call evo_intros R_reads)

end

text \<open>
  A relation that the three writing statements respect is respected by every method of the store,
  whatever the environment does.
\<close>

locale disbursement_evolution = db_evolution +
  assumes R_insert: "R d (snd (insertDisbursementQuery P v t d))"
    and R_update: "R d (snd (updateDisbursementStatusQuery P s a n now i t d))"
    and R_delete: "R d (snd (softDeleteDisbursementQuery P now i t d))"
begin

lemma evolves_Insert: "evolves R (DisbursementStore_Insert P d)"
  unfolding DisbursementStore_Insert_def
  by (intro evo_intros R_insert) (auto split: sum.splits intro: evo_intros)

lemma evolves_UpdateStatus: "evolves R (DisbursementStore_UpdateStatus P i decision)"
  unfolding DisbursementStore_UpdateStatus_def explain_update_def Let_def
  by (intro evo_intros R_update)
     (auto split: sum.splits intro!: evo_intros R_reads)

lemma evolves_SoftDelete: "evolves R (DisbursementStore_SoftDelete P i)"
  unfolding DisbursementStore_SoftDelete_def explain_delete_def Let_def
  by (intro evo_intros R_delete)
     (auto split: sum.splits intro!: evo_intros R_reads)

end

lemma open_row_key: "open_row i r \<Longrightarrow> row_ID r = i"
  by (simp add: open_row_def)

lemma open_row_updates [simp]:
  "row_ID (decide_row s a n t r) = row_ID r" "row_ID (delete_row t r) = row_ID r"
  by (simp_all add: decide_row_def delete_row_def)

text \<open>Both conditional updates change one row of the table in place and check the new row.\<close>

lemma db_ok_update_open:
  assumes "db_ok d" "first_where (open_row i) (disbursements d) = Some r"
    and "disbursement_row_ok d (f r)" "\<And>x. row_ID (f x) = row_ID x"
  shows "db_ok (d\<lparr>disbursements := update_where (open_row i) f (disbursements d)\<rparr>)"
proof (rule db_ok_disbursements[OF assms(1)])
  show "unique_by row_ID (update_where (open_row i) f (disbursements d))"
    using db_okD(1)[OF assms(1)] assms(4) by (intro unique_by_update) auto
  have r: "r \<in> set (disbursements d)" "open_row i r" using first_where_Some[OF assms(2)] by auto
  fix x assume "x \<in> set (update_where (open_row i) f (disbursements d))"
  then obtain y where y: "y \<in> set (disbursements d)" "open_row i y \<and> x = f y \<or> \<not> open_row i y \<and> x = y"
    by (auto dest: in_update_where)
  have "y = r" if "open_row i y"
    using unique_by_same[OF db_okD(1)[OF assms(1)] y(1) r(1)] that r(2) by (simp add: open_row_key)
  then show "disbursement_row_ok d x" using y assms(3) db_okD(9)[OF assms(1) y(1)] by auto
next
  show "row_ID ` set (disbursements d) \<subseteq> row_ID ` set (update_where (open_row i) f (disbursements d))"
    using map_update_where_key[of "open_row i" row_ID f "disbursements d"] assms(4)
    by (metis list.set_map subset_refl)
qed

lemma history_update_open:
  assumes "\<And>r. open_row i r \<Longrightarrow> row_progress r (f r)"
  shows "history_kept d (d\<lparr>disbursements := update_where (open_row i) f (disbursements d)\<rparr>)"
  unfolding history_kept_def
  by (rule exI[of _ "update_where (open_row i) f (disbursements d)"])
     (use assms in \<open>auto simp: update_where_def list_all2_map2 intro!: list.rel_refl_strong\<close>)

lemma first_open_row_ok:
  assumes "db_ok d" "first_where (open_row i) (disbursements d) = Some r"
  shows "disbursement_row_ok d r" "open_row i r" "r \<in> set (disbursements d)"
  using first_where_Some[OF assms(2)] db_okD(9)[OF assms(1)] by auto

interpretation schema: disbursement_evolution schema_kept
proof (unfold_locales, goal_cases)
  case (1 d P v t)
  have "db_ok (d\<lparr>disbursements := disbursements d @ [row]\<rparr>)"
    if "db_ok d" "disbursement_row_ok d row" "\<not> disbursement_exists d (row_ID row)" for row
    using that db_okD(1,9)[OF that(1)]
    by (auto intro!: db_ok_disbursements unique_by_append simp: disbursement_exists_def)
  then show ?case unfolding schema_kept_def insertDisbursementQuery_def
    by (auto split: sum.splits option.splits simp: disbursement_row_ok_def)
next
  case (2 d P s a n now i t)
  show ?case unfolding schema_kept_def updateDisbursementStatusQuery_def
    by (auto simp: Let_def split: sum.splits option.splits prod.splits
          intro!: db_ok_update_open)
       (auto dest: first_open_row_ok(1) simp: disbursement_row_ok_def decide_row_def)
next
  case (3 d P now i t)
  show ?case unfolding schema_kept_def softDeleteDisbursementQuery_def
    by (auto simp: Let_def split: option.splits intro!: db_ok_update_open)
       (auto dest: first_open_row_ok(1) simp: disbursement_row_ok_def delete_row_def)
qed

interpretation history: disbursement_evolution history_kept
proof (unfold_locales, goal_cases)
  case (1 d P v t)
  have "history_kept d (d\<lparr>disbursements := disbursements d @ [row]\<rparr>)" for row
    unfolding history_kept_def by (rule exI[of _ "disbursements d"]) (simp add: list.rel_refl)
  then show ?case unfolding insertDisbursementQuery_def
    by (auto split: sum.splits option.splits intro: history_kept_refl)
next
  case (2 d P s a n now i t)
  have "history_kept d (d\<lparr>disbursements := update_where (open_row i) (decide_row x y z u) (disbursements d)\<rparr>)" for x y z u
    by (rule history_update_open) (auto simp: open_row_def row_progress_def decide_row_def StatusPending_def)
  then show ?case unfolding updateDisbursementStatusQuery_def
    by (auto simp: Let_def split: sum.splits option.splits prod.splits intro: history_kept_refl)
next
  case (3 d P now i t)
  have "history_kept d (d\<lparr>disbursements := update_where (open_row i) (delete_row u) (disbursements d)\<rparr>)" for u
    by (rule history_update_open) (auto simp: open_row_def row_progress_def delete_row_def StatusPending_def)
  then show ?case unfolding softDeleteDisbursementQuery_def
    by (auto simp: Let_def split: option.splits intro: history_kept_refl)
qed

interpretation logs: disbursement_evolution logs_kept
  by unfold_locales
     (auto simp: logs_kept_def stmt_defs Let_def split: sum.splits option.splits prod.splits)

section \<open>Successful runs\<close>

lemma Insert_Inr:
  assumes "DisbursementStore_Insert P x w = (Inr u, w')"
  shows "\<exists>d row. working w = Some d \<and> convert_disbursement P (insert_values x) = Inr row
     \<and> disbursement_check row \<and> \<not> disbursement_exists d (row_ID row) \<and> user_exists d (row_CreatedBy row)
     \<and> w' = w\<lparr>calls := Suc (calls w), working := Some (d\<lparr>disbursements := disbursements d @ [row]\<rparr>)\<rparr>"
  using assms
  by (cases "convert_disbursement P (insert_values x)")
     (auto simp: DisbursementStore_Insert_def run_Inr insertDisbursementQuery_def split: if_splits)

text \<open>What an inserted row has of the disbursement.\<close>

lemma convert_disbursement_Inr:
  assumes "convert_disbursement P v = Inr row"
  shows "row_ID row = row_ID v" "row_Amount row = row_Amount v" "row_AdminFee row = row_AdminFee v"
    "row_Status row = row_Status v" "row_CreatedBy row = row_CreatedBy v"
    "row_DecidedBy row = row_DecidedBy v" "row_DeletedAt row = map_option (pg_timestamptz P) (row_DeletedAt v)"
  using assms by (auto simp: convert_disbursement_def bind_result_Inr int4_def status_enum_def split: if_splits)

text \<open>What a decision and a delete that succeeded did to the transaction's database.\<close>

lemma explain_update_Inr [simp]: "explain_update P i w \<noteq> (Inr x, w')"
proof (cases "tx_exec P (findDisbursementRawByIDQuery i) w")
  case (Pair r w1)
  then show ?thesis by (cases r) (auto simp: explain_update_def handle_def)
qed

lemma UpdateStatus_Inr:
  assumes "DisbursementStore_UpdateStatus P i dec w = (Inr x, w')" "working w = Some d"
  shows "\<exists>r note t. first_where (open_row i) (disbursements d) = Some r
     \<and> x = mapDBDisbursementToDomain (decide_row (dec_Status dec) (dec_ActorID dec) note t r)
     \<and> disbursement_check (decide_row (dec_Status dec) (dec_ActorID dec) note t r)
     \<and> w' = w\<lparr>calls := calls w + 2, working := Some (d\<lparr>disbursements := update_where (open_row i)
          (decide_row (dec_Status dec) (dec_ActorID dec) note t) (disbursements d)\<rparr>)\<rparr>"
proof -
  let ?note = "if dec_Note dec \<noteq> '''' then Some (dec_Note dec) else None"
  let ?st = "updateDisbursementStatusQuery P (dec_Status dec) (dec_ActorID dec) ?note"
  obtain t w1 r1 w2 where w1: "w1 = w\<lparr>calls := Suc (calls w)\<rparr>"
    and e: "tx_exec P (?st t i) w1 = (r1, w2)"
    and rest: "(case r1 of Inr updated \<Rightarrow> ok (mapDBDisbursementToDomain updated)
       | Inl err \<Rightarrow> if \<not> errors_Is err ErrNoRows then fail (Classify err) else explain_update P i) w2 = (Inr x, w')"
    using assms unfolding DisbursementStore_UpdateStatus_def Let_def andThen_Inr handle_eq read_clock_Inr
      unwrapTransaction_Inr by blast
  then obtain u where u: "r1 = Inr u" "x = mapDBDisbursementToDomain u" "w' = w2"
    by (cases r1) (auto split: if_splits)
  from e u(1) assms(2) w1 obtain d' where st: "?st t i (tx_now w) d = (Inr u, d')"
    and w2: "w2 = w\<lparr>calls := calls w + 2, working := Some d'\<rparr>"
    by (auto simp: tx_exec_Inr)
  from st obtain nt r where "first_where (open_row i) (disbursements d) = Some r"
    "u = decide_row (dec_Status dec) (dec_ActorID dec) nt (pg_timestamptz P t) r" "disbursement_check u"
    "d' = d\<lparr>disbursements := update_where (open_row i)
          (decide_row (dec_Status dec) (dec_ActorID dec) nt (pg_timestamptz P t)) (disbursements d)\<rparr>"
    by (auto simp: updateDisbursementStatusQuery_def Let_def status_enum_def bind_result_def
          split: sum.splits option.splits if_splits)
  then show ?thesis using u w2 by blast
qed

lemma explain_delete_Inr:
  assumes "explain_delete P i w = (Inr x, w')" "working w = Some d"
  shows "\<exists>r. r \<in> set (disbursements d) \<and> row_ID r = i \<and> row_DeletedAt r \<noteq> None
     \<and> x = (mapDBDisbursementToDomain r, True) \<and> w' = w\<lparr>calls := Suc (calls w)\<rparr>"
proof -
  obtain r1 w1 where e: "tx_exec P (findDisbursementRawByIDQuery i) w = (r1, w1)" by force
  obtain r where r: "r1 = Inr r" "row_DeletedAt r \<noteq> None" "x = (mapDBDisbursementToDomain r, True)" "w' = w1"
    using assms(1) e by (cases r1) (auto simp: explain_delete_def handle_def split: if_splits)
  from e r(1) assms(2) have "r \<in> set (disbursements d)" "row_ID r = i" "w1 = w\<lparr>calls := Suc (calls w)\<rparr>"
    by (auto simp: tx_exec_Inr findDisbursementRawByIDQuery_def split: option.splits dest!: first_where_Some)
  then show ?thesis using r by blast
qed

lemma SoftDelete_Inr:
  assumes "DisbursementStore_SoftDelete P i w = (Inr (x, already), w')" "working w = Some d"
  shows "(\<not> already \<and> (\<exists>r t. first_where (open_row i) (disbursements d) = Some r
       \<and> x = mapDBDisbursementToDomain (delete_row t r)
       \<and> w' = w\<lparr>calls := calls w + 2, working := Some (d\<lparr>disbursements := update_where (open_row i)
            (delete_row t) (disbursements d)\<rparr>)\<rparr>))
     \<or> (already \<and> working w' = Some d
       \<and> (\<exists>r \<in> set (disbursements d). row_ID r = i \<and> row_DeletedAt r \<noteq> None \<and> x = mapDBDisbursementToDomain r))"
proof -
  obtain t w1 r1 w2 where w1: "w1 = w\<lparr>calls := Suc (calls w)\<rparr>"
    and e: "tx_exec P (softDeleteDisbursementQuery P t i) w1 = (r1, w2)"
    and rest: "(case r1 of Inr deleted \<Rightarrow> ok (mapDBDisbursementToDomain deleted, False)
       | Inl err \<Rightarrow> if \<not> errors_Is err ErrNoRows then fail (Classify err) else explain_delete P i) w2 = (Inr (x, already), w')"
    using assms unfolding DisbursementStore_SoftDelete_def Let_def andThen_Inr handle_eq read_clock_Inr
      unwrapTransaction_Inr by blast
  show ?thesis
  proof (cases r1)
    case (Inr u)
    then have u: "\<not> already" "x = mapDBDisbursementToDomain u" "w' = w2" using rest by auto
    from e Inr assms(2) w1 obtain d' where "softDeleteDisbursementQuery P t i (tx_now w) d = (Inr u, d')"
      "w2 = w\<lparr>calls := calls w + 2, working := Some d'\<rparr>" by (auto simp: tx_exec_Inr)
    then show ?thesis using u
      by (auto simp: softDeleteDisbursementQuery_def Let_def split: option.splits if_splits)
  next
    case (Inl err)
    then have ex: "explain_delete P i w2 = (Inr (x, already), w')" and n: "errors_Is err ErrNoRows"
      using rest by (auto split: if_splits)
    have "working w2 = Some d" using e Inl n w1 assms(2)
      by (auto simp: tx_exec_def Let_def softDeleteDisbursementQuery_def pg_error_def
            split: option.splits db_fault.splits if_splits)
    from explain_delete_Inr[OF ex this] this show ?thesis by auto
  qed
qed


lemma Insert_run:
  assumes "faultless P" "working w = Some d" "convert_disbursement P (insert_values x) = Inr row" "disbursement_check row"
    and "\<not> disbursement_exists d (row_ID row)" "user_exists d (row_CreatedBy row)" "row_DecidedBy row = None"
  shows "DisbursementStore_Insert P x w =
     (Inr (), w\<lparr>calls := Suc (calls w), working := Some (d\<lparr>disbursements := disbursements d @ [row]\<rparr>)\<rparr>)"
  using assms
  by (simp add: DisbursementStore_Insert_def andThen_def handle_def unwrapTransaction_def fail_def ok_def
        tx_exec_faultless insertDisbursementQuery_def)

end
