(* ===== verification/Outbox_Store.thy ===== *)
theory Outbox_Store
  imports Database
begin

text \<open>
  \<open>internal/repository/postgres/outbox.go\<close> and \<open>projection.go\<close>: the transactional outbox of audit
  events and the audit log it is projected to. The stores are built with a database, so the
  branches for a missing one do not arise. The clock \<open>store.now\<close> is \<open>time.Now().UTC()\<close>.

  The order of rows that tie in \<open>ORDER BY\<close>, the order of the returned rows and the rows that
  \<open>SKIP LOCKED\<close> passes over are PostgreSQL's choice: the environment's \<open>row_rank\<close> and \<open>row_locked\<close>.
\<close>

section \<open>Statements\<close>

text \<open>The columns of an event as PostgreSQL stores them, shared by both tables.\<close>

definition convert_event :: "platform \<Rightarrow> AuditEvent \<Rightarrow> go_error + AuditEvent" where
  "convert_event P e =
     bind_result (varchar 64 (ev_EntityType e)) (\<lambda>entityType.
     bind_result (varchar 64 (ev_Action e)) (\<lambda>action.
     bind_result (jsonb (ev_BeforeData e)) (\<lambda>before.
     bind_result (jsonb (ev_AfterData e)) (\<lambda>after.
     Inr (e\<lparr>ev_EntityType := entityType, ev_Action := action, ev_BeforeData := before,
            ev_AfterData := after, ev_OccurredAt := pg_timestamptz P (ev_OccurredAt e)\<rparr>)))))"

definition new_outbox_row :: "time \<Rightarrow> AuditEvent \<Rightarrow> outbox_row" where
  "new_outbox_row now e =
     \<lparr>ob_event = e, ob_delivery_state = DeliveryPending, ob_available_at = now,
      ob_delivered_at = None, ob_delivery_attempts = 0, ob_last_delivery_error = None\<rparr>"

definition insertAuditOutboxEvent :: "platform \<Rightarrow> AuditEvent \<Rightarrow> nat stmt" where
  "insertAuditOutboxEvent P event t d =
     (case convert_event P event of
        Inl e \<Rightarrow> (Inl e, d)
      | Inr ev \<Rightarrow>
          if \<exists>r \<in> set (audit_outbox d). ob_id r = ev_EventID ev then (Inl (pg_error ''23505''), d)
          else if \<not> user_exists d (ev_ActorID ev) then (Inl (pg_error ''23503''), d)
          else (Inr 1, d\<lparr>audit_outbox := audit_outbox d @ [new_outbox_row t ev]\<rparr>))"

text \<open>The rows the sub-select of \<open>fetchPendingOutboxEvents\<close> picks.\<close>

definition outbox_due :: "time \<Rightarrow> outbox_row \<Rightarrow> bool" where
  "outbox_due now r \<longleftrightarrow> ob_delivery_state r = DeliveryPending \<and> ob_available_at r \<le> now"

definition outbox_before :: "(uuid \<Rightarrow> nat) \<Rightarrow> outbox_row \<Rightarrow> outbox_row \<Rightarrow> bool" where
  "outbox_before rank r s \<longleftrightarrow>
     ob_available_at r < ob_available_at s
     \<or> (ob_available_at r = ob_available_at s
        \<and> (ev_OccurredAt (ob_event r) < ev_OccurredAt (ob_event s)
           \<or> (ev_OccurredAt (ob_event r) = ev_OccurredAt (ob_event s)
              \<and> rank (ob_id r) \<le> rank (ob_id s))))"

fun insert_ordered :: "('a \<Rightarrow> 'a \<Rightarrow> bool) \<Rightarrow> 'a \<Rightarrow> 'a list \<Rightarrow> 'a list" where
  "insert_ordered le x [] = [x]"
| "insert_ordered le x (y # ys) = (if le x y then x # y # ys else y # insert_ordered le x ys)"

definition order_rows :: "('a \<Rightarrow> 'a \<Rightarrow> bool) \<Rightarrow> 'a list \<Rightarrow> 'a list" where
  "order_rows le xs = foldr (insert_ordered le) xs []"

definition pick_due ::
  "(uuid \<Rightarrow> nat) \<Rightarrow> (uuid \<Rightarrow> bool) \<Rightarrow> time \<Rightarrow> nat \<Rightarrow> outbox_row list \<Rightarrow> outbox_row list" where
  "pick_due rank locked now limit rows =
     take limit (order_rows (outbox_before rank)
       (select_where (\<lambda>r. outbox_due now r \<and> \<not> locked (ob_id r)) rows))"

definition fetchPendingOutboxEvents ::
  "platform \<Rightarrow> (uuid \<Rightarrow> nat) \<Rightarrow> (uuid \<Rightarrow> bool) \<Rightarrow> time \<Rightarrow> time \<Rightarrow> int \<Rightarrow> AuditEvent list stmt" where
  "fetchPendingOutboxEvents P rank locked leaseUntil now limit t d =
     (if limit < 0 then (Inl (pg_error ''2201W''), d)
      else
        let picked = pick_due rank locked (pg_timestamptz P now) (nat limit) (audit_outbox d);
            ids = map ob_id picked
        in (Inr (map ob_event (order_rows (\<lambda>r s. rank (ob_id r) \<le> rank (ob_id s)) picked)),
            d\<lparr>audit_outbox := update_where (\<lambda>r. ob_id r \<in> set ids)
                (\<lambda>r. r\<lparr>ob_available_at := pg_timestamptz P leaseUntil\<rparr>) (audit_outbox d)\<rparr>))"

definition pending_event :: "uuid \<Rightarrow> outbox_row \<Rightarrow> bool" where
  "pending_event i r \<longleftrightarrow> ob_id r = i \<and> ob_delivery_state r = DeliveryPending"

definition deliver_row :: "time \<Rightarrow> outbox_row \<Rightarrow> outbox_row" where
  "deliver_row at r =
     r\<lparr>ob_delivery_state := DeliveryDelivered, ob_delivered_at := Some at,
       ob_delivery_attempts := ob_delivery_attempts r + 1, ob_last_delivery_error := None\<rparr>"

definition fail_row :: "string \<Rightarrow> time \<Rightarrow> outbox_row \<Rightarrow> outbox_row" where
  "fail_row message at r =
     r\<lparr>ob_delivery_attempts := ob_delivery_attempts r + 1, ob_last_delivery_error := Some message,
       ob_available_at := at\<rparr>"

text \<open>\<open>delivery_attempts\<close> is an \<open>INTEGER\<close>: adding one to its largest value is refused (22003).\<close>

definition attempts_full :: "outbox_row \<Rightarrow> bool" where
  "attempts_full r \<longleftrightarrow> \<not> ob_delivery_attempts r + 1 < 2 ^ 31"

definition markOutboxDelivered :: "platform \<Rightarrow> uuid \<Rightarrow> time \<Rightarrow> nat stmt" where
  "markOutboxDelivered P i at t d =
     (if \<exists>r \<in> set (audit_outbox d). pending_event i r \<and> attempts_full r
      then (Inl (pg_error ''22003''), d)
      else (Inr (affected (pending_event i) (audit_outbox d)),
            d\<lparr>audit_outbox := update_where (pending_event i) (deliver_row (pg_timestamptz P at)) (audit_outbox d)\<rparr>))"

definition recordOutboxFailure :: "platform \<Rightarrow> uuid \<Rightarrow> string \<Rightarrow> time \<Rightarrow> nat stmt" where
  "recordOutboxFailure P i message at t d =
     (case text_column message of
        Inl e \<Rightarrow> (Inl e, d)
      | Inr m \<Rightarrow>
          if \<exists>r \<in> set (audit_outbox d). pending_event i r \<and> attempts_full r
          then (Inl (pg_error ''22003''), d)
          else (Inr (affected (pending_event i) (audit_outbox d)),
                d\<lparr>audit_outbox := update_where (pending_event i) (fail_row m (pg_timestamptz P at)) (audit_outbox d)\<rparr>))"

definition pending_since :: "time \<Rightarrow> outbox_row \<Rightarrow> bool" where
  "pending_since at r \<longleftrightarrow>
     ob_delivery_state r = DeliveryPending \<and> ev_OccurredAt (ob_event r) \<le> at"

definition reconcileOutboxPending :: "platform \<Rightarrow> time \<Rightarrow> time \<Rightarrow> (nat \<times> nat) stmt" where
  "reconcileOutboxPending P warning critical t d =
     (Inr (affected (pending_since (pg_timestamptz P warning)) (audit_outbox d),
           affected (pending_since (pg_timestamptz P critical)) (audit_outbox d)), d)"

definition delivered_before :: "time \<Rightarrow> outbox_row \<Rightarrow> bool" where
  "delivered_before at r \<longleftrightarrow>
     ob_delivery_state r = DeliveryDelivered
     \<and> (case ob_delivered_at r of None \<Rightarrow> False | Some x \<Rightarrow> x < at)"

definition cleanupDeliveredOutbox :: "platform \<Rightarrow> time \<Rightarrow> nat stmt" where
  "cleanupDeliveredOutbox P cutoff t d =
     (Inr (affected (delivered_before (pg_timestamptz P cutoff)) (audit_outbox d)),
      d\<lparr>audit_outbox := delete_where (delivered_before (pg_timestamptz P cutoff)) (audit_outbox d)\<rparr>)"

definition insertAuditProjectionLog :: "platform \<Rightarrow> AuditEvent \<Rightarrow> nat stmt" where
  "insertAuditProjectionLog P event t d =
     (case convert_event P event of
        Inl e \<Rightarrow> (Inl e, d)
      | Inr ev \<Rightarrow>
          if \<exists>l \<in> set (audit_logs d). ev_EventID l = ev_EventID ev then (Inr 0, d)
          else if \<not> user_exists d (ev_ActorID ev) then (Inl (pg_error ''23503''), d)
          else (Inr 1, d\<lparr>audit_logs := audit_logs d @ [ev]\<rparr>))"

definition findAuditProjectionLogBySourceEventID :: "uuid \<Rightarrow> AuditEvent stmt" where
  "findAuditProjectionLogBySourceEventID i t d =
     (case first_where (\<lambda>l. ev_EventID l = i) (audit_logs d) of
        None \<Rightarrow> Inl ErrNoRows | Some l \<Rightarrow> Inr l, d)"

lemmas outbox_stmts [stmt_defs] =
  insertAuditOutboxEvent_def fetchPendingOutboxEvents_def markOutboxDelivered_def
  recordOutboxFailure_def reconcileOutboxPending_def cleanupDeliveredOutbox_def
  insertAuditProjectionLog_def findAuditProjectionLogBySourceEventID_def

section \<open>The stores\<close>

definition fallbackReconcileWarningAge :: duration where
  "fallbackReconcileWarningAge = 5 * Minute"

definition fallbackReconcileCriticalMultiplier :: int where
  "fallbackReconcileCriticalMultiplier = 3"

definition fallbackCleanupDeliveredRetention :: duration where
  "fallbackCleanupDeliveredRetention = 30 * 24 * Hour"

definition NewAuditOutboxStoreWithLease :: "duration \<Rightarrow> duration" where
  "NewAuditOutboxStoreWithLease leaseDuration = (if leaseDuration \<le> 0 then 5 * Minute else leaseDuration)"

definition incomplete_event :: "AuditEvent \<Rightarrow> bool" where
  "incomplete_event event \<longleftrightarrow>
     ev_EventID event = uuid_Nil \<or> ev_EntityID event = uuid_Nil \<or> ev_ActorID event = uuid_Nil
     \<or> ev_RequestID event = uuid_Nil \<or> ev_EntityType event = '''' \<or> ev_Action event = ''''
     \<or> IsZero (ev_OccurredAt event)"

definition AuditOutboxStore_Insert :: "platform \<Rightarrow> AuditEvent \<Rightarrow> unit go" where
  "AuditOutboxStore_Insert P event =
     (if incomplete_event event
      then fail (RepositoryError ErrorConstraint (PlainError ''invalid audit event''))
      else andThen unwrapTransaction (\<lambda>_.
        handle (tx_exec P (insertAuditOutboxEvent P event)) (\<lambda>r.
          case r of
            Inl err \<Rightarrow> fail (Classify err)
          | Inr rowsAffected \<Rightarrow>
              if rowsAffected \<noteq> 1
              then fail (RepositoryError ErrorConstraint (PlainError ''audit outbox insert affected rows''))
              else ok ())))"

definition AuditOutboxStore_FetchPending :: "platform \<Rightarrow> duration \<Rightarrow> int \<Rightarrow> AuditEvent list go" where
  "AuditOutboxStore_FetchPending P leaseDuration limit0 =
     (let limit = (if limit0 \<le> 0 then 50 else limit0);
          leaseTTL = (if leaseDuration \<le> 0 then 5 * Minute else leaseDuration)
      in andThen (read_clock P) (\<lambda>now.
         handle (\<lambda>w. pool_exec P (fetchPendingOutboxEvents P (row_rank P (calls w)) (row_locked P (calls w))
                        (now + leaseTTL) now limit) w) (\<lambda>r.
           case r of Inl err \<Rightarrow> fail (Classify err) | Inr rows \<Rightarrow> ok rows)))"

definition AuditOutboxStore_MarkDelivered :: "platform \<Rightarrow> uuid \<Rightarrow> time \<Rightarrow> unit go" where
  "AuditOutboxStore_MarkDelivered P eventID deliveredAt =
     (if eventID = uuid_Nil
      then fail (RepositoryError ErrorConstraint (PlainError ''event ID required''))
      else andThen (if IsZero deliveredAt then read_clock P else ok deliveredAt) (\<lambda>at.
        handle (pool_exec P (markOutboxDelivered P eventID at)) (\<lambda>r.
          case r of Inl err \<Rightarrow> fail (Classify err) | Inr _ \<Rightarrow> ok ())))"

definition AuditOutboxStore_RecordFailure :: "platform \<Rightarrow> uuid \<Rightarrow> string \<Rightarrow> time \<Rightarrow> unit go" where
  "AuditOutboxStore_RecordFailure P eventID errMessage nextAvailableAt =
     (if eventID = uuid_Nil
      then fail (RepositoryError ErrorConstraint (PlainError ''event ID required''))
      else andThen (if IsZero nextAvailableAt
                    then andThen (read_clock P) (\<lambda>now. ok (now + 5 * Second)) else ok nextAvailableAt) (\<lambda>at.
        handle (pool_exec P (recordOutboxFailure P eventID errMessage at)) (\<lambda>r.
          case r of Inl err \<Rightarrow> fail (Classify err) | Inr _ \<Rightarrow> ok ())))"

definition reconcile_ages :: "duration \<Rightarrow> duration \<Rightarrow> duration \<times> duration" where
  "reconcile_ages minAge0 criticalAge0 =
     (let minAge = (if minAge0 \<le> 0 then fallbackReconcileWarningAge else minAge0);
          criticalAge = (if criticalAge0 \<le> minAge
                         then wrap64 (fallbackReconcileCriticalMultiplier * minAge) else criticalAge0)
      in (minAge, criticalAge))"

definition AuditOutboxStore_ReconcilePending ::
  "platform \<Rightarrow> duration \<Rightarrow> duration \<Rightarrow> (int \<times> int) go" where
  "AuditOutboxStore_ReconcilePending P minAge0 criticalAge0 =
     (case reconcile_ages minAge0 criticalAge0 of (minAge, criticalAge) \<Rightarrow>
      andThen (read_clock P) (\<lambda>now.
      handle (pool_exec P (reconcileOutboxPending P (now - minAge) (now - criticalAge))) (\<lambda>r.
        case r of
          Inl err \<Rightarrow> fail (Classify err)
        | Inr (warningCount, criticalCount) \<Rightarrow> ok (int warningCount, int criticalCount))))"

definition AuditOutboxStore_CleanupDelivered :: "platform \<Rightarrow> duration \<Rightarrow> int go" where
  "AuditOutboxStore_CleanupDelivered P olderThan0 =
     (let olderThan = (if olderThan0 \<le> 0 then fallbackCleanupDeliveredRetention else olderThan0)
      in andThen (read_clock P) (\<lambda>now.
         handle (pool_exec P (cleanupDeliveredOutbox P (now - olderThan))) (\<lambda>r.
           case r of Inl err \<Rightarrow> fail (Classify err) | Inr n \<Rightarrow> ok (int n))))"

text \<open>\<open>InsertProjection\<close> with a transaction or, when it is \<open>nil\<close>, through the pool.\<close>

definition AuditProjectionStore_InsertProjection :: "platform \<Rightarrow> bool \<Rightarrow> AuditEvent \<Rightarrow> unit go" where
  "AuditProjectionStore_InsertProjection P in_transaction event =
     (if incomplete_event event
      then fail (RepositoryError ErrorConstraint (PlainError ''invalid audit event for projection''))
      else if in_transaction
      then andThen unwrapTransaction (\<lambda>_.
             handle (tx_exec P (insertAuditProjectionLog P event)) (\<lambda>r.
               case r of Inl err \<Rightarrow> fail (Classify err) | Inr _ \<Rightarrow> ok ()))
      else handle (pool_exec P (insertAuditProjectionLog P event)) (\<lambda>r.
             case r of Inl err \<Rightarrow> fail (Classify err) | Inr _ \<Rightarrow> ok ()))"

definition AuditProjectionStore_FindLogBySourceEventID :: "platform \<Rightarrow> uuid \<Rightarrow> AuditEvent go" where
  "AuditProjectionStore_FindLogBySourceEventID P sourceEventID =
     handle (pool_exec P (findAuditProjectionLogBySourceEventID sourceEventID)) (\<lambda>r.
       case r of Inl err \<Rightarrow> fail (Classify err) | Inr l \<Rightarrow> ok l)"

section \<open>What the statements keep\<close>

text \<open>
  The writers of the outbox need the first law, the relay the second group; marking an event
  delivered is kept apart, because it is only right after the event's projection.
\<close>

locale outbox_append = db_evolution +
  assumes R_outbox_insert: "R d (snd (insertAuditOutboxEvent P event t d))"
begin

lemma evolves_outbox_Insert: "evolves R (AuditOutboxStore_Insert P event)"
  unfolding AuditOutboxStore_Insert_def
  by (auto split: sum.splits intro!: evo_intros R_outbox_insert)

end

locale outbox_relay = outbox_append +
  assumes R_fetch: "R d (snd (fetchPendingOutboxEvents P rank locked leaseUntil now limit t d))"
    and R_failure: "R d (snd (recordOutboxFailure P i message at t d))"
    and R_cleanup: "R d (snd (cleanupDeliveredOutbox P cutoff t d))"
    and R_project: "R d (snd (insertAuditProjectionLog P event t d))"
begin

lemma R_outbox_reads:
  "R d (snd (reconcileOutboxPending P x y t d))" "R d (snd (findAuditProjectionLogBySourceEventID i t d))"
  by (simp_all add: stmt_defs evo_refl)

text \<open>A pool statement whose text depends on the world evolves as each of them does.\<close>

lemma evolves_fetch:
  "evolves R (\<lambda>w. pool_exec P (fetchPendingOutboxEvents P (f w) (g w) leaseUntil now limit) w)"
proof (rule evolvesI)
  fix w d
  let ?m = "pool_exec P (fetchPendingOutboxEvents P (f w) (g w) leaseUntil now limit)"
  have e: "evolves R ?m" by (intro evo_pool R_fetch)
  show "R (committed w) (committed (snd (?m w)))" by (rule evolvesD(1)[OF e])
  show "working w = None \<Longrightarrow> working (snd (?m w)) = None" by (rule evolvesD(2)[OF e])
  show "working w = Some d \<Longrightarrow> \<exists>d'. working (snd (?m w)) = Some d' \<and> R d d'" by (rule evolvesD(3)[OF e])
qed

lemma evolves_FetchPending: "evolves R (AuditOutboxStore_FetchPending P leaseDuration limit)"
  unfolding AuditOutboxStore_FetchPending_def Let_def
  by (intro evo_andThen evo_env evo_handle evolves_fetch)
     (auto split: sum.splits intro!: evo_intros)

lemma evolves_RecordFailure: "evolves R (AuditOutboxStore_RecordFailure P i message at)"
  unfolding AuditOutboxStore_RecordFailure_def
  by (auto split: sum.splits intro!: evo_intros R_failure)

lemma evolves_ReconcilePending: "evolves R (AuditOutboxStore_ReconcilePending P minAge criticalAge)"
  unfolding AuditOutboxStore_ReconcilePending_def
  by (auto split: sum.splits prod.splits intro!: evo_intros R_outbox_reads)

lemma evolves_CleanupDelivered: "evolves R (AuditOutboxStore_CleanupDelivered P olderThan)"
  unfolding AuditOutboxStore_CleanupDelivered_def Let_def
  by (auto split: sum.splits intro!: evo_intros R_cleanup)

lemma evolves_InsertProjection: "evolves R (AuditProjectionStore_InsertProjection P tx event)"
  unfolding AuditProjectionStore_InsertProjection_def
  by (auto split: sum.splits intro!: evo_intros R_project)

end

locale outbox_evolution = outbox_relay +
  assumes R_mark: "R d (snd (markOutboxDelivered P i at t d))"
begin

lemma evolves_MarkDelivered: "evolves R (AuditOutboxStore_MarkDelivered P i at)"
  unfolding AuditOutboxStore_MarkDelivered_def
  by (auto split: sum.splits intro!: evo_intros R_mark)

end

lemma db_ok_update_outbox:
  assumes "db_ok d" "\<And>r. ob_id (f r) = ob_id r"
    and "\<And>r. outbox_row_ok d r \<Longrightarrow> p r \<Longrightarrow> outbox_row_ok d (f r)"
  shows "db_ok (d\<lparr>audit_outbox := update_where p f (audit_outbox d)\<rparr>)"
  using assms(3) db_okD(3,11)[OF assms(1)]
  by (auto intro!: db_ok_audit_outbox[OF assms(1)] unique_by_update simp: assms(2)
        dest!: in_update_where)

interpretation schema: outbox_evolution schema_kept
proof (unfold_locales, goal_cases)
  case (1 d P event t)
  have "db_ok (d\<lparr>audit_outbox := audit_outbox d @ [row]\<rparr>)"
    if "db_ok d" "outbox_row_ok d row" "\<forall>r \<in> set (audit_outbox d). ob_id r \<noteq> ob_id row" for row
    using that db_okD(3,11)[OF that(1)] by (auto intro!: db_ok_audit_outbox unique_by_append)
  then show ?case unfolding schema_kept_def insertAuditOutboxEvent_def
    by (auto simp: outbox_row_ok_def outbox_check_def new_outbox_row_def ob_id_def split: sum.splits)
next
  case (2 d P rank locked leaseUntil now limit t)
  show ?case unfolding schema_kept_def fetchPendingOutboxEvents_def
    by (auto simp: Let_def ob_id_def outbox_row_ok_def outbox_check_def intro!: db_ok_update_outbox)
next
  case (3 d P i message at t)
  show ?case unfolding schema_kept_def recordOutboxFailure_def
    by (auto simp: ob_id_def outbox_row_ok_def outbox_check_def fail_row_def split: sum.splits
          intro!: db_ok_update_outbox)
next
  case (4 d P cutoff t)
  show ?case unfolding schema_kept_def cleanupDeliveredOutbox_def
    by (auto simp: db_okD intro!: db_ok_audit_outbox)
next
  case (5 d P event t)
  have "db_ok (d\<lparr>audit_logs := audit_logs d @ [e]\<rparr>)"
    if "db_ok d" "user_exists d (ev_ActorID e)" "\<forall>l \<in> set (audit_logs d). ev_EventID l \<noteq> ev_EventID e" for e
    using that db_okD(4,12)[OF that(1)] by (auto intro!: db_ok_audit_logs unique_by_append)
  then show ?case unfolding schema_kept_def insertAuditProjectionLog_def
    by (auto split: sum.splits)
next
  case (6 d P i at t)
  show ?case unfolding schema_kept_def markOutboxDelivered_def
    by (auto simp: ob_id_def outbox_row_ok_def outbox_check_def deliver_row_def intro!: db_ok_update_outbox)
qed

interpretation history: outbox_evolution history_kept
  by unfold_locales (rule history_same, simp add: stmt_defs Let_def split: sum.splits)+

interpretation logs: outbox_evolution logs_kept
  by unfold_locales (auto simp: logs_kept_def stmt_defs Let_def split: sum.splits)

section \<open>Successful runs\<close>

lemma outbox_Insert_Inr:
  assumes "AuditOutboxStore_Insert P event w = (Inr u, w')"
  shows "\<exists>d ev. working w = Some d \<and> \<not> incomplete_event event \<and> convert_event P event = Inr ev
     \<and> (\<forall>r \<in> set (audit_outbox d). ob_id r \<noteq> ev_EventID ev)
     \<and> w' = w\<lparr>calls := Suc (calls w), working := Some (d\<lparr>audit_outbox := audit_outbox d @ [new_outbox_row (tx_now w) ev]\<rparr>)\<rparr>"
  using assms
  by (cases "convert_event P event")
     (auto simp: AuditOutboxStore_Insert_def run_Inr insertAuditOutboxEvent_def split: if_splits)

lemma convert_event_Inr:
  assumes "convert_event P e = Inr ev"
  shows "ev_EventID ev = ev_EventID e" "ev_EntityID ev = ev_EntityID e" "ev_ActorID ev = ev_ActorID e"
    "ev_RequestID ev = ev_RequestID e" "ev_BeforeData ev = ev_BeforeData e" "ev_AfterData ev = ev_AfterData e"
    "ev_OccurredAt ev = pg_timestamptz P (ev_OccurredAt e)"
  using assms by (auto simp: convert_event_def bind_result_Inr jsonb_def split: option.splits if_splits)

text \<open>Short texts are stored as they are.\<close>

lemma varchar_short: "pg_text_ok s \<Longrightarrow> RuneCountInString s \<le> n \<Longrightarrow> varchar n s = Inr s"
  by (simp add: varchar_def)


lemma outbox_Insert_run:
  assumes "faultless P" "working w = Some d" "\<not> incomplete_event event" "convert_event P event = Inr ev"
    and "\<forall>r \<in> set (audit_outbox d). ob_id r \<noteq> ev_EventID ev" "user_exists d (ev_ActorID ev)"
  shows "AuditOutboxStore_Insert P event w = (Inr (), w\<lparr>calls := Suc (calls w),
     working := Some (d\<lparr>audit_outbox := audit_outbox d @ [new_outbox_row (tx_now w) ev]\<rparr>)\<rparr>)"
  using assms
  by (simp add: AuditOutboxStore_Insert_def andThen_def handle_def unwrapTransaction_def fail_def ok_def
        tx_exec_faultless insertAuditOutboxEvent_def)

end
