(* ===== verification/Disbursement_Service.thy ===== *)
theory Disbursement_Service
  imports Coordinator Disbursement_Store Outbox_Store
begin

text \<open>
  \<open>internal/service/disbursement/service.go\<close>, with the response body of
  \<open>internal/httpapi/dto/disbursement.go\<close> that \<open>Create\<close> stores for replay. The closures passed to
  \<open>WithinTransaction\<close> are definitions of their own. The variables a closure assigns are its result.
\<close>

section \<open>Response bodies\<close>

record DisbursementResponse =
  dr_ID :: uuid
  dr_RecipientName :: string
  dr_AccountNumber :: string
  dr_BankCode :: string
  dr_Amount :: int
  dr_AdminFee :: int
  dr_Status :: DisbursementStatus
  dr_Note :: string
  dr_CreatedBy :: uuid
  dr_DecidedBy :: "uuid option"
  dr_ApprovedBy :: "uuid option"
  dr_DecisionNote :: string
  dr_DecidedAt :: "time option"
  dr_CreatedAt :: time
  dr_UpdatedAt :: time

definition NewDisbursementResponse :: "Disbursement \<Rightarrow> DisbursementResponse" where
  "NewDisbursementResponse d =
     (let decidedBy = (if d_DecidedBy d \<noteq> uuid_Nil then Some (d_DecidedBy d) else None)
      in \<lparr>dr_ID = d_ID d, dr_RecipientName = d_RecipientName d, dr_AccountNumber = d_AccountNumber d,
          dr_BankCode = d_BankCode d, dr_Amount = d_Amount d, dr_AdminFee = d_AdminFee d,
          dr_Status = d_Status d, dr_Note = d_Note d, dr_CreatedBy = d_CreatedBy d,
          dr_DecidedBy = decidedBy, dr_ApprovedBy = decidedBy, dr_DecisionNote = d_DecisionNote d,
          dr_DecidedAt = d_DecidedAt d, dr_CreatedAt = d_CreatedAt d, dr_UpdatedAt = d_UpdatedAt d\<rparr>)"

definition json_uuid_ptr :: "platform \<Rightarrow> uuid option \<Rightarrow> json" where
  "json_uuid_ptr P u = (case u of None \<Rightarrow> JNull | Some x \<Rightarrow> json_uuid P x)"

definition marshal_DisbursementResponse :: "platform \<Rightarrow> DisbursementResponse \<Rightarrow> go_error + json" where
  "marshal_DisbursementResponse P d =
     (case (json_time_ptr P (dr_DecidedAt d), json_time P (dr_CreatedAt d), json_time P (dr_UpdatedAt d)) of
        (Some decidedAt, Some createdAt, Some updatedAt) \<Rightarrow>
          Inr (JObj
            [(''id'', json_uuid P (dr_ID d)),
             (''recipient_name'', json_string (dr_RecipientName d)),
             (''account_number'', json_string (dr_AccountNumber d)),
             (''bank_code'', json_string (dr_BankCode d)),
             (''amount'', json_int (dr_Amount d)),
             (''admin_fee'', json_int (dr_AdminFee d)),
             (''status'', json_string (dr_Status d)),
             (''note'', json_string (dr_Note d)),
             (''created_by'', json_uuid P (dr_CreatedBy d)),
             (''decided_by'', json_uuid_ptr P (dr_DecidedBy d)),
             (''approved_by'', json_uuid_ptr P (dr_ApprovedBy d)),
             (''decision_note'', json_string (dr_DecisionNote d)),
             (''decided_at'', decidedAt),
             (''created_at'', createdAt),
             (''updated_at'', updatedAt)])
      | _ \<Rightarrow> Inl (PlainError ''Time.MarshalJSON: year outside of range [0,9999]''))"

text \<open>\<open>json.Marshal\<close> of a \<open>domain.CreateDisbursementInput\<close>, the payload of the fingerprint.\<close>

definition marshal_CreateDisbursementInput :: "CreateDisbursementInput \<Rightarrow> go_error + json" where
  "marshal_CreateDisbursementInput input =
     Inr (JObj
       [(''RecipientName'', json_string (in_RecipientName input)),
        (''AccountNumber'', json_string (in_AccountNumber input)),
        (''BankCode'', json_string (in_BankCode input)),
        (''Amount'', json_int (in_Amount input)),
        (''Note'', json_string (in_Note input))])"

section \<open>Errors\<close>

definition mapRepositoryError :: "go_error \<Rightarrow> go_error" where
  "mapRepositoryError err =
     (case err of
        DomainError domainErr \<Rightarrow> DomainError domainErr
      | _ \<Rightarrow>
          if IsNotFound err then DomainError DisbursementNotFound
          else if IsConflict err then DomainError DisbursementAlreadyFinalized
          else if IsConstraint err then DomainError DisbursementNotDeletable
          else DomainError Internal)"

definition mapIdempotencyError :: "go_error \<Rightarrow> go_error" where
  "mapIdempotencyError err =
     (case err of DomainError domainErr \<Rightarrow> DomainError domainErr | _ \<Rightarrow> DomainError Internal)"

section \<open>Create\<close>

record CreateResult =
  cres_Disbursement :: "Disbursement option"
  cres_IsReplay :: bool
  cres_ReplayResponse :: "ReplayResponse option"

definition disbursements_endpoint :: string where
  "disbursements_endpoint = ''/disbursements''"

definition new_disbursement ::
  "uuid \<Rightarrow> CreateDisbursementInput \<Rightarrow> string \<Rightarrow> int \<Rightarrow> uuid \<Rightarrow> time \<Rightarrow> Disbursement" where
  "new_disbursement disbursementID input bankCode adminFee actorID now =
     \<lparr>d_ID = disbursementID, d_RecipientName = in_RecipientName input,
      d_AccountNumber = in_AccountNumber input, d_BankCode = bankCode, d_Amount = in_Amount input,
      d_AdminFee = adminFee, d_Status = StatusPending, d_Note = in_Note input,
      d_CreatedBy = actorID, d_DecidedBy = uuid_Nil, d_DecisionNote = '''', d_DecidedAt = None,
      d_DeletedAt = None, d_CreatedAt = now, d_UpdatedAt = now\<rparr>"

definition create_body ::
  "platform \<Rightarrow> uuid \<Rightarrow> uuid \<Rightarrow> IdempotencyScope \<Rightarrow> uuid \<Rightarrow> Disbursement \<Rightarrow> time \<Rightarrow> unit go" where
  "create_body P actorID requestID scope claimID disbursement now =
     andThen (Coordinator_VerifyOwnership P scope claimID) (\<lambda>_.
     andThen (DisbursementStore_Insert P disbursement) (\<lambda>_.
     andThen (new_uuid P) (\<lambda>eventID.
     andThen (lift_result (NewAuditEvent P eventID ''disbursement'' (d_ID disbursement)
                ''disbursement.created'' actorID requestID None
                (Some (marshal_Disbursement P disbursement)) now)) (\<lambda>event.
     andThen (AuditOutboxStore_Insert P event) (\<lambda>_.
     andThen (lift_result (marshal_DisbursementResponse P (NewDisbursementResponse disbursement))) (\<lambda>bodyBytes.
     Coordinator_Complete P
       \<lparr>cm_Scope = scope, cm_ClaimID = claimID,
        cm_Response = \<lparr>rp_StatusCode = 201, rp_Body = Some bodyBytes, rp_DisbursementID = d_ID disbursement\<rparr>,
        cm_CompletedAt = now\<rparr>))))))"

text \<open>\<open>_ = s.coordinator.Release(...)\<close>: the release's outcome is discarded.\<close>

definition finish_create ::
  "platform \<Rightarrow> IdempotencyScope \<Rightarrow> uuid \<Rightarrow> Disbursement \<Rightarrow> unit go \<Rightarrow> CreateResult go" where
  "finish_create P scope claimID disbursement body =
     handle (WithinTransaction P body) (\<lambda>r.
       case r of
         Inl err \<Rightarrow>
           handle (Coordinator_Release P scope claimID) (\<lambda>_. fail (mapRepositoryError err))
       | Inr _ \<Rightarrow>
           ok \<lparr>cres_Disbursement = Some disbursement, cres_IsReplay = False, cres_ReplayResponse = None\<rparr>)"

text \<open>The switch on the claim's outcome and what follows it.\<close>

definition after_claim ::
  "platform \<Rightarrow> uuid \<Rightarrow> uuid \<Rightarrow> IdempotencyScope \<Rightarrow> Disbursement \<Rightarrow> time \<Rightarrow> IdempotencyClaimResult \<Rightarrow> CreateResult go" where
  "after_claim P actorID requestID scope disbursement now claimResult =
     (if res_Outcome claimResult = ClaimReplayed then
        (case res_Replay claimResult of
           Some replay \<Rightarrow>
             ok \<lparr>cres_Disbursement = None, cres_IsReplay = True, cres_ReplayResponse = Some replay\<rparr>
         | None \<Rightarrow> fail (DomainError Internal))
      else if res_Outcome claimResult = ClaimInProgress
      then fail (DomainError (IdempotencyRequestInProgressWithRetryAfter (res_RetryAfter claimResult)))
      else if res_Outcome claimResult = ClaimReused
      then fail (DomainError IdempotencyKeyReused)
      else finish_create P scope (res_ClaimID claimResult) disbursement
             (create_body P actorID requestID scope (res_ClaimID claimResult) disbursement now))"

definition Service_Create ::
  "platform \<Rightarrow> Coordinator \<Rightarrow> uuid \<Rightarrow> uuid \<Rightarrow> string \<Rightarrow> CreateDisbursementInput \<Rightarrow> CreateResult go" where
  "Service_Create P coordinator actorID requestID idempotencyKey input =
     (case Validate P input of
        Some err \<Rightarrow> fail err
      | None \<Rightarrow>
          andThen (lift_result (CalculateAdminFee (in_Amount input))) (\<lambda>adminFee.
          andThen (lift_result (CanonicalBankCode P (in_BankCode input))) (\<lambda>bankCode.
          andThen (read_clock P) (\<lambda>now.
          andThen (new_uuid P) (\<lambda>disbursementID.
          let disbursement = new_disbursement disbursementID input bankCode adminFee actorID now in
          andThen (lift_result (ParseIdempotencyKey P idempotencyKey)) (\<lambda>parsedKey.
          let scope = \<lparr>sc_UserID = actorID, sc_Endpoint = disbursements_endpoint, sc_Key = parsedKey\<rparr> in
          handle (Coordinator_Claim P coordinator actorID ''POST'' disbursements_endpoint idempotencyKey
                    (marshal_CreateDisbursementInput input)) (\<lambda>r.
            case r of
              Inl err \<Rightarrow> fail (mapIdempotencyError err)
            | Inr claimResult \<Rightarrow> after_claim P actorID requestID scope disbursement now claimResult)))))))"

section \<open>Reads\<close>

definition Service_GetByID :: "platform \<Rightarrow> uuid \<Rightarrow> Disbursement go" where
  "Service_GetByID P i =
     handle (DisbursementStore_FindByID P i) (\<lambda>r.
       case r of Inl err \<Rightarrow> fail (mapRepositoryError err) | Inr d \<Rightarrow> ok d)"

definition Service_List ::
  "platform \<Rightarrow> (string \<Rightarrow> string \<Rightarrow> bool) \<Rightarrow> (nat \<Rightarrow> string \<Rightarrow> bool \<Rightarrow> dbDisbursement list \<Rightarrow> dbDisbursement list)
   \<Rightarrow> DisbursementFilter \<Rightarrow> (Disbursement list \<times> Pagination) go" where
  "Service_List P ilike order_by filt =
     handle (DisbursementStore_List P ilike order_by filt) (\<lambda>r.
       case r of
         Inl err \<Rightarrow> fail (mapRepositoryError err)
       | Inr (items, count) \<Rightarrow>
           andThen (lift_result (NewPagination (fl_Page filt) (fl_Limit filt) count)) (\<lambda>pagination.
           ok (items, pagination)))"

section \<open>UpdateStatus and SoftDelete\<close>

definition decision_action :: "DisbursementStatus \<Rightarrow> string" where
  "decision_action status =
     (if status = StatusRejected then ''disbursement.rejected'' else ''disbursement.approved'')"

text \<open>
  The audit event of a change: \<open>occurredAt := time.Now().UTC()\<close>, replaced by the row's own time
  when it has one.
\<close>

definition emit_event ::
  "platform \<Rightarrow> uuid \<Rightarrow> uuid \<Rightarrow> string \<Rightarrow> time option \<Rightarrow> Disbursement \<Rightarrow> Disbursement \<Rightarrow> unit go" where
  "emit_event P actorID requestID action stamp before after =
     andThen (read_clock P) (\<lambda>now.
     let occurredAt = (case stamp of None \<Rightarrow> now | Some t \<Rightarrow> t) in
     andThen (new_uuid P) (\<lambda>eventID.
     andThen (lift_result (NewAuditEvent P eventID ''disbursement'' (d_ID after) action actorID requestID
                (Some (marshal_Disbursement P before)) (Some (marshal_Disbursement P after)) occurredAt)) (\<lambda>event.
     AuditOutboxStore_Insert P event)))"

definition update_body :: "platform \<Rightarrow> uuid \<Rightarrow> uuid \<Rightarrow> uuid \<Rightarrow> Decision \<Rightarrow> Disbursement go" where
  "update_body P actorID requestID i decision =
     andThen (DisbursementStore_FindByID P i) (\<lambda>before.
     andThen (DisbursementStore_UpdateStatus P i decision) (\<lambda>updated.
     andThen (emit_event P actorID requestID (decision_action (dec_Status decision)) (d_DecidedAt updated)
                before updated) (\<lambda>_.
     ok updated)))"

definition Service_UpdateStatus :: "platform \<Rightarrow> uuid \<Rightarrow> uuid \<Rightarrow> uuid \<Rightarrow> Decision \<Rightarrow> Disbursement go" where
  "Service_UpdateStatus P actorID requestID i decision0 =
     (let decision = decision0\<lparr>dec_ActorID := actorID\<rparr>
      in case Decision_Validate decision of
           Some err \<Rightarrow> fail err
         | None \<Rightarrow>
             handle (WithinTransaction P (update_body P actorID requestID i decision)) (\<lambda>r.
               case r of
                 Inl err \<Rightarrow>
                   (let mappedErr = mapRepositoryError err in
                    andThen (case mappedErr of
                               DomainError domainErr \<Rightarrow>
                                 if err_Code domainErr = CodeConcurrentModification
                                 then record_metric (RecordFinalizationOutcome ''conflict'') else ok ()
                             | _ \<Rightarrow> ok ()) (\<lambda>_.
                    fail mappedErr))
               | Inr updated \<Rightarrow>
                   andThen (if dec_Status decision = StatusApproved
                            then record_metric (RecordFinalizationOutcome ''approved'')
                            else if dec_Status decision = StatusRejected
                            then record_metric (RecordFinalizationOutcome ''rejected'')
                            else ok ()) (\<lambda>_.
                   ok updated)))"

text \<open>The zero value of \<open>domain.Disbursement\<close>, which \<open>before\<close> has when the row was not found.\<close>

definition zero_disbursement :: Disbursement where
  "zero_disbursement =
     \<lparr>d_ID = uuid_Nil, d_RecipientName = '''', d_AccountNumber = '''', d_BankCode = '''', d_Amount = 0,
      d_AdminFee = 0, d_Status = '''', d_Note = '''', d_CreatedBy = uuid_Nil, d_DecidedBy = uuid_Nil,
      d_DecisionNote = '''', d_DecidedAt = None, d_DeletedAt = None, d_CreatedAt = 0, d_UpdatedAt = 0\<rparr>"

definition delete_logged :: "platform \<Rightarrow> uuid \<Rightarrow> uuid \<Rightarrow> uuid \<Rightarrow> Disbursement \<Rightarrow> (Disbursement \<times> bool) go" where
  "delete_logged P actorID requestID i before =
     andThen (DisbursementStore_SoftDelete P i) (\<lambda>(deleted, wasAlreadyDeleted).
       if wasAlreadyDeleted then ok (deleted, wasAlreadyDeleted)
       else andThen (emit_event P actorID requestID ''disbursement.deleted'' (d_DeletedAt deleted) before deleted) (\<lambda>_.
            ok (deleted, wasAlreadyDeleted)))"

definition delete_body :: "platform \<Rightarrow> uuid \<Rightarrow> uuid \<Rightarrow> uuid \<Rightarrow> (Disbursement \<times> bool) go" where
  "delete_body P actorID requestID i =
     handle (DisbursementStore_FindByID P i) (\<lambda>r.
       case r of
         Inr before \<Rightarrow> delete_logged P actorID requestID i before
       | Inl err \<Rightarrow>
           if \<not> IsNotFound err then fail err else delete_logged P actorID requestID i zero_disbursement)"

definition Service_SoftDelete :: "platform \<Rightarrow> uuid \<Rightarrow> uuid \<Rightarrow> uuid \<Rightarrow> (Disbursement \<times> bool) go" where
  "Service_SoftDelete P actorID requestID i =
     handle (WithinTransaction P (delete_body P actorID requestID i)) (\<lambda>r.
       case r of Inl err \<Rightarrow> fail (mapRepositoryError err) | Inr x \<Rightarrow> ok x)"

section \<open>Audit events of the service\<close>

lemma event_literals:
  "TrimSpace ''disbursement'' = ''disbursement''" "TrimSpace ''disbursement.created'' = ''disbursement.created''"
  "TrimSpace ''disbursement.approved'' = ''disbursement.approved''"
  "TrimSpace ''disbursement.rejected'' = ''disbursement.rejected''"
  "TrimSpace ''disbursement.deleted'' = ''disbursement.deleted''"
  by (rule TrimSpace_graphic, code_simp)+

lemma event_columns:
  "varchar 64 ''disbursement'' = Inr ''disbursement''"
  "varchar 64 ''disbursement.created'' = Inr ''disbursement.created''"
  "varchar 64 ''disbursement.approved'' = Inr ''disbursement.approved''"
  "varchar 64 ''disbursement.rejected'' = Inr ''disbursement.rejected''"
  "varchar 64 ''disbursement.deleted'' = Inr ''disbursement.deleted''"
  by code_simp+

definition service_actions :: "string list" where
  "service_actions =
     [''disbursement.created'', ''disbursement.approved'', ''disbursement.rejected'', ''disbursement.deleted'']"

text \<open>A snapshot of a disbursement whose texts have no zero byte can be stored.\<close>

definition no_nul_texts :: "Disbursement \<Rightarrow> bool" where
  "no_nul_texts x \<longleftrightarrow> list_all (\<lambda>s. byte_chr 0 \<notin> set (to_valid_utf8 s))
     [d_RecipientName x, d_AccountNumber x, d_BankCode x, d_Status x, d_Note x, d_DecisionNote x]"

lemma nul_names: "byte_chr 0 = CHR 0x00" by code_simp

lemma marshal_Disbursement_no_nul:
  assumes "printable_ok P" "no_nul_texts x" "marshal_Disbursement P x = Inr j"
  shows "json_no_nul j"
proof -
  have t: "byte_chr 0 \<notin> set s" if "time_MarshalJSON P t = Some s" for t s
    using assms(1) that by (auto simp: printable_ok_def)
  have p: "json_no_nul v" if "json_time_ptr P t = Some v \<or> json_time P u = Some v" for t u v
    using that t by (auto simp: json_time_ptr_def json_time_def split: option.splits)
  have u: "json_no_nul (json_uuid P v)" for v
    using assms(1) by (simp add: json_uuid_def printable_ok_def)
  show ?thesis using assms(2,3) u p
    by (auto simp: marshal_Disbursement_def no_nul_texts_def json_string_def json_int_def nul_names
          split: option.splits) blast+
qed

lemma service_event:
  assumes "eventID \<noteq> uuid_Nil" "entityID \<noteq> uuid_Nil" "a \<noteq> uuid_Nil" "q \<noteq> uuid_Nil" "stamp \<noteq> 0"
    and "action \<in> set service_actions"
    and "before = None \<or> before = Some (Inr b) \<and> json_no_nul b" "json_no_nul j"
  shows "\<exists>event ev. NewAuditEvent P eventID ''disbursement'' entityID action a q before (Some (Inr j)) stamp = Inr event
     \<and> convert_event P event = Inr ev"
proof -
  have a: "TrimSpace action = action" "action \<noteq> ''''" "varchar 64 action = Inr action"
    using assms(6) event_literals event_columns by (auto simp: service_actions_def)
  have no: "json_no_nul (redactAuditValue P (canon v))" if "json_no_nul v" for v
    using that by (simp add: canon_no_nul redact_no_nul)
  show ?thesis
    using assms(1-5,7,8) a no event_literals(1) event_columns(1)
    by (auto simp: NewAuditEvent_def AuditSnapshot_def convert_event_def jsonb_def IsZero_def)
qed

section \<open>What the operations keep\<close>

context db_evolution begin

lemma evolves_Service_GetByID: "evolves R (Service_GetByID P i)"
  unfolding Service_GetByID_def
  by (auto split: sum.splits intro!: evo_intros evolves_FindByID)

lemma evolves_Service_List: "evolves R (Service_List P ilike order_by filt)"
  unfolding Service_List_def
  by (auto split: sum.splits prod.splits intro!: evo_intros evolves_List)

end

locale service_evolution =
  disbursement_evolution R + idempotency_evolution R + outbox_append R
  for R :: "database \<Rightarrow> database \<Rightarrow> bool"
begin

lemma evolves_create_body: "evolves R (create_body P a q scope claim d now)"
  unfolding create_body_def Coordinator_VerifyOwnership_def Coordinator_Complete_def
  by (intro evo_intros evolves_VerifyOwnership evolves_Insert evolves_outbox_Insert evolves_Complete)

lemma evolves_finish_create: "evolves R body \<Longrightarrow> evolves R (finish_create P scope claim d body)"
  unfolding finish_create_def Coordinator_Release_def
  by (auto split: sum.splits intro!: evo_intros evolves_Release)

lemma evolves_Service_Create: "evolves R (Service_Create P co a q k input)"
  unfolding Service_Create_def after_claim_def Let_def
  by (auto split: option.splits sum.splits
        intro!: evo_intros evolves_Claim evolves_finish_create evolves_create_body)

lemma evolves_emit_event: "evolves R (emit_event P a q action stamp before after)"
  unfolding emit_event_def Let_def by (intro evo_intros evolves_outbox_Insert)

lemma evolves_update_body: "evolves R (update_body P a q i decision)"
  unfolding update_body_def
  by (intro evo_intros evolves_FindByID evolves_UpdateStatus evolves_emit_event)

lemma evolves_Service_UpdateStatus: "evolves R (Service_UpdateStatus P a q i decision)"
  unfolding Service_UpdateStatus_def Let_def
  by (auto split: option.splits sum.splits go_error.splits intro!: evo_intros evolves_update_body)

lemma evolves_delete_logged: "evolves R (delete_logged P a q i before)"
  unfolding delete_logged_def
  by (auto split: prod.splits intro!: evo_intros evolves_SoftDelete evolves_emit_event)

lemma evolves_delete_body: "evolves R (delete_body P a q i)"
  unfolding delete_body_def
  by (auto split: sum.splits intro!: evo_intros evolves_FindByID evolves_delete_logged)

lemma evolves_Service_SoftDelete: "evolves R (Service_SoftDelete P a q i)"
  unfolding Service_SoftDelete_def
  by (auto split: sum.splits intro!: evo_intros evolves_delete_body)

end

interpretation schema: service_evolution schema_kept
  by unfold_locales

interpretation history: service_evolution history_kept
  by unfold_locales

interpretation logs: service_evolution logs_kept
  by unfold_locales

end
