(* ===== verification/Scenario.thy ===== *)
theory Scenario
  imports Database
begin

text \<open>
  One concrete environment, database and request, on which the hypotheses of the theorems hold:
  printing a UUID as its 128 binary digits and parsing it back, a clock that ticks once per call,
  no faults, one user, empty tables, and the creation of one disbursement.
\<close>

definition demo_String :: "uuid \<Rightarrow> string" where
  "demo_String u = map (\<lambda>b. if b then CHR ''1'' else CHR ''0'') (map (bit u) [0..<128])"

definition demo_Parse :: "string \<Rightarrow> uuid option" where
  "demo_Parse s = (if length s = 128 then Some (horner_sum of_bool 2 (map (\<lambda>c. c = CHR ''1'') s)) else None)"

definition demo_time :: "nat \<Rightarrow> time" where
  "demo_time n = Second * (int n + 1)"

definition demo :: platform where
  "demo =
     \<lparr>unicode_upper = (\<lambda>r. r), unicode_lower = (\<lambda>r. r), uuid_Parse = demo_Parse,
      uuid_Version = (\<lambda>u. if u = uuid_Nil then 0 else 4), uuid_String = demo_String,
      Sum256 = (\<lambda>s. ''digest''), CompareHashAndPassword = (\<lambda>h p. h = p),
      time_MarshalJSON = (\<lambda>t. Some ''2026-01-01T00:00:00Z''),
      pg_timestamptz = (\<lambda>t. t div 1000 * 1000), time_Now = demo_time,
      uuid_New = (\<lambda>n. if of_nat n = (0::uuid) then 1 else of_nat n),
      uuid_NewRandom_error = (\<lambda>_. False), pg_now = demo_time, db_fault_at = (\<lambda>_. None),
      ctx_Err = (\<lambda>_. None), driver_Error = (\<lambda>_. ''driver error''), row_rank = (\<lambda>_ _. 0),
      row_locked = (\<lambda>_ _. False)\<rparr>"

definition demo_user :: uuid where "demo_user = 1"
definition demo_request :: uuid where "demo_request = 2"
definition demo_key :: string where "demo_key = demo_String 3"

definition demo_db :: database where
  "demo_db =
     \<lparr>users = [\<lparr>ur_id = demo_user, ur_username = ''ops'', ur_password_hash = ''secret'', ur_role = ''OPERATOR''\<rparr>],
      refresh_sessions = [], disbursements = [], idempotency_keys = [], audit_outbox = [], audit_logs = []\<rparr>"

definition in_world :: "database \<Rightarrow> world" where
  "in_world d = \<lparr>committed = d, working = None, tx_now = 0, calls = 0, collector = None\<rparr>"

definition demo_input :: CreateDisbursementInput where
  "demo_input =
     \<lparr>in_RecipientName = ''Budi'', in_AccountNumber = ''1234567890'', in_BankCode = ''BCA'',
      in_Amount = 150000, in_Note = ''sewa''\<rparr>"

lemma in_world_simps [simp]:
  "committed (in_world d) = d" "working (in_world d) = None" "calls (in_world d) = 0" "collector (in_world d) = None"
  by (simp_all add: in_world_def)

lemma demo_ids [simp]: "demo_user \<noteq> uuid_Nil" "demo_request \<noteq> uuid_Nil"
  by (simp_all add: demo_user_def demo_request_def)

lemma demo_fields [simp]:
  "uuid_Parse demo = demo_Parse" "uuid_String demo = demo_String" "time_Now demo = demo_time" "pg_now demo = demo_time"
  "db_fault_at demo n = None" "pg_timestamptz demo t = t div 1000 * 1000" "Sum256 demo s = ''digest''"
  "uuid_Version demo u = (if u = uuid_Nil then 0 else 4)" "CompareHashAndPassword demo h p = (h = p)"
  "time_MarshalJSON demo t = Some ''2026-01-01T00:00:00Z''" "ctx_Err demo n = None" "row_locked demo n u = False"
  "row_rank demo n u = 0" "uuid_New demo n = (if of_nat n = (0::uuid) then 1 else of_nat n)"
  by (simp_all add: demo_def)

lemma demo_roundtrip [simp]: "demo_Parse (demo_String u) = Some u"
proof -
  have "map (\<lambda>c. c = CHR ''1'') (demo_String u) = map (bit u) [0..<128]"
    by (auto simp: demo_String_def)
  moreover have "length (demo_String u) = 128" by (simp add: demo_String_def)
  moreover have "take_bit 128 u = u" using take_bit_length_eq[of u] by simp
  ultimately show ?thesis
    unfolding demo_Parse_def by (simp only: horner_sum_bit_eq_take_bit simp_thms if_True)
qed

lemma demo_ok [simp]:
  "faultless demo" "timestamptz_ok demo" "uuid_text_ok demo" "printable_ok demo" "uuid_New demo n \<noteq> uuid_Nil"
proof -
  show "faultless demo" by (simp add: faultless_def) (simp add: demo_def)
  show "timestamptz_ok demo" by (auto simp: timestamptz_ok_def zdiv_mono1)
  show "uuid_text_ok demo" by (simp add: uuid_text_ok_def)
  show "uuid_New demo n \<noteq> uuid_Nil" by simp
  have "byte_chr 0 \<notin> set ''2026-01-01T00:00:00Z''" "byte_chr 0 \<noteq> CHR ''1''" "byte_chr 0 \<noteq> CHR ''0''" by code_simp+
  then show "printable_ok demo" by (auto simp: printable_ok_def demo_String_def split: if_splits)
qed

lemma demo_db_ok [simp]: "db_ok demo_db" "user_exists demo_db demo_user"
  by (simp_all add: db_ok_def demo_db_def user_exists_def unique_by_def)

lemma demo_db_tables [simp]:
  "idempotency_keys demo_db = []" "disbursements demo_db = []" "audit_outbox demo_db = []"
  "audit_logs demo_db = []" "refresh_sessions demo_db = []"
  by (simp_all add: demo_db_def)

lemma demo_input_valid [simp]:
  "Validate demo demo_input = None" "pg_text_ok (in_RecipientName demo_input)" "pg_text_ok (in_Note demo_input)"
proof -
  have "validAccountNumber ''1234567890''" unfolding validAccountNumber_iff by code_simp
  moreover have "CanonicalBankCode demo ''BCA'' = Inr ''BCA''" by (rule CanonicalBankCode_fixed) code_simp+
  moreover have "RuneCountInString ''Budi'' = 4" "RuneCountInString ''sewa'' = 4" by code_simp+
  ultimately show "Validate demo demo_input = None"
    by (simp add: Validate_None demo_input_def MinimumAmount_def MaximumAmount_def)
  show "pg_text_ok (in_RecipientName demo_input)" "pg_text_ok (in_Note demo_input)"
    unfolding demo_input_def by code_simp+
qed

lemma demo_key_valid [simp]: "ParseIdempotencyKey demo demo_key = Inr 3"
  by (simp add: ParseIdempotencyKey_def demo_key_def)

end
