(* ===== verification/Idempotent_Create.thy ===== *)
theory Idempotent_Create
  imports Disbursement_Service Scenario
begin

text \<open>
  Idempotent creation of disbursements. A creation and its audit event and completed key appear
  in the database together or not at all, whatever faults the environment injects; a retry under
  the same key replays the stored response and adds nothing; a key under another payload, a live
  claim of another request and a claim that was taken over are refused without effect.
\<close>

section \<open>What claiming a key may change\<close>

definition completed_keys :: "database \<Rightarrow> idempotency_row set" where
  "completed_keys d = {k \<in> set (idempotency_keys d). ik_state k = IdempotencyCompleted}"

definition claims_only :: "database \<Rightarrow> database \<Rightarrow> bool" where
  "claims_only d d' \<longleftrightarrow>
     (\<exists>ks. d' = d\<lparr>idempotency_keys := ks\<rparr>) \<and> completed_keys d' \<subseteq> completed_keys d"

lemma claims_onlyD:
  "claims_only d d' \<Longrightarrow> disbursements d' = disbursements d \<and> audit_outbox d' = audit_outbox d
     \<and> audit_logs d' = audit_logs d \<and> users d' = users d \<and> refresh_sessions d' = refresh_sessions d"
  by (auto simp: claims_only_def)

interpretation claims: claim_evolution claims_only
proof (unfold_locales, goal_cases)
  case (1 d)
  then show ?case unfolding claims_only_def by (metis database.surjective database.update_convs(4) subset_refl)
next
  case (2 a b c)
  then show ?case by (auto simp: claims_only_def)
next
  case (3 d P request t)
  show ?case
    by (auto simp: claims_only_def stmt_defs Let_def completed_keys_def split: sum.splits)
       (metis database.surjective database.update_convs(4))+
next
  case (4 d P request t)
  show ?case
    by (auto simp: claims_only_def stmt_defs completed_keys_def reclaim_row_def dest!: in_update_where)
       (metis database.surjective database.update_convs(4))+
next
  case (5 d scope claimID t)
  show ?case
    by (auto simp: claims_only_def stmt_defs completed_keys_def)
       (metis database.surjective database.update_convs(4))+
qed

section \<open>The transaction of a creation\<close>

definition created_response :: "Disbursement \<Rightarrow> json \<Rightarrow> ReplayResponse" where
  "created_response x body = \<lparr>rp_StatusCode = 201, rp_Body = Some body, rp_DisbursementID = d_ID x\<rparr>"

text \<open>The effect of the transaction on the database it started from.\<close>

definition create_effect ::
  "platform \<Rightarrow> IdempotencyScope \<Rightarrow> uuid \<Rightarrow> Disbursement \<Rightarrow> time \<Rightarrow> dbDisbursement \<Rightarrow> AuditEvent \<Rightarrow> json
   \<Rightarrow> database \<Rightarrow> database" where
  "create_effect P scope claimID x occurred row ev body d =
     d\<lparr>disbursements := disbursements d @ [row],
       audit_outbox := audit_outbox d @ [new_outbox_row occurred ev],
       idempotency_keys := update_where (owned scope claimID) (complete_row (created_response x body))
         (idempotency_keys d)\<rparr>"

text \<open>What a creation left behind, and what it was made from.\<close>

definition creation ::
  "platform \<Rightarrow> uuid \<Rightarrow> uuid \<Rightarrow> IdempotencyScope \<Rightarrow> uuid \<Rightarrow> Disbursement \<Rightarrow> database \<Rightarrow> database \<Rightarrow> bool" where
  "creation P a q scope c x d d' \<longleftrightarrow>
     (\<exists>occurred row ev body j k. d' = create_effect P scope c x occurred row ev body d
        \<and> convert_disbursement P (insert_values x) = Inr row \<and> disbursement_check row
        \<and> ev_EntityID ev = d_ID x \<and> ev_Action ev = ''disbursement.created'' \<and> ev_ActorID ev = a
        \<and> ev_RequestID ev = q
        \<and> marshal_DisbursementResponse P (NewDisbursementResponse x) = Inr j \<and> body = canon j
        \<and> first_where (in_scope scope) (idempotency_keys d) = Some k \<and> owned scope c k
        \<and> d_ID x \<noteq> uuid_Nil)"

lemma tx_only_create_body: "tx_only (create_body P a q scope claimID x now)"
  unfolding create_body_def Coordinator_VerifyOwnership_def Coordinator_Complete_def
    IdempotencyStore_VerifyOwnership_def DisbursementStore_Insert_def AuditOutboxStore_Insert_def
    IdempotencyStore_Complete_def
  by (auto split: sum.splits prod.splits intro!: tx_only_env tx_only_tx tx_only_handle tx_only_andThen)

lemma create_body_Inr:
  assumes "create_body P a q scope claimID x now w = (Inr u, w')" "working w = Some d"
  shows "\<exists>d'. working w' = Some d' \<and> creation P a q scope claimID x d d'"
proof -
  from assms(1) obtain u1 w1 u2 w2 eventID w3 event u5 w5 j where
    v: "IdempotencyStore_VerifyOwnership P scope claimID w = (Inr u1, w1)"
    and i: "DisbursementStore_Insert P x w1 = (Inr u2, w2)"
    and n: "new_uuid P w2 = (Inr eventID, w3)"
    and e: "NewAuditEvent P eventID ''disbursement'' (d_ID x) ''disbursement.created'' a q None
              (Some (marshal_Disbursement P x)) now = Inr event"
    and o: "AuditOutboxStore_Insert P event w3 = (Inr u5, w5)"
    and j: "marshal_DisbursementResponse P (NewDisbursementResponse x) = Inr j"
    and c: "IdempotencyStore_Complete P
       \<lparr>cm_Scope = scope, cm_ClaimID = claimID, cm_Response = created_response x (canon j),
        cm_CompletedAt = now\<rparr> w5 = (Inr u, w')"
    by (auto simp: create_body_def andThen_Inr Coordinator_VerifyOwnership_def Coordinator_Complete_def
          canonicalJSON_def marshal_RawMessage_def created_response_def)
  from VerifyOwnership_Inr[OF v] assms(2) obtain k where
    k: "first_where (in_scope scope) (idempotency_keys d) = Some k" "owned scope claimID k"
    and w1: "w1 = w\<lparr>calls := Suc (calls w), working := Some d\<rparr>" by auto
  from Insert_Inr[OF i] w1 obtain row where
    row: "convert_disbursement P (insert_values x) = Inr row" "disbursement_check row"
    and w2: "w2 = w1\<lparr>calls := Suc (calls w1), working := Some (d\<lparr>disbursements := disbursements d @ [row]\<rparr>)\<rparr>"
    by auto
  from outbox_Insert_Inr[OF o] n w2 obtain ev where
    ev: "convert_event P event = Inr ev"
    and w5: "w5 = w3\<lparr>calls := Suc (calls w3), working := Some (d\<lparr>disbursements := disbursements d @ [row],
               audit_outbox := audit_outbox d @ [new_outbox_row (tx_now w3) ev]\<rparr>)\<rparr>"
    by (auto simp: new_uuid_Inr)
  have t: "tx_now w3 = tx_now w" using n w2 w1 by (auto simp: new_uuid_Inr)
  have event: "ev_EntityID event = d_ID x" "ev_Action event = ''disbursement.created''"
    "ev_ActorID event = a" "ev_RequestID event = q"
    and id: "d_ID x \<noteq> uuid_Nil"
    using e by (auto simp: NewAuditEvent_def split: if_splits sum.splits)
  have "ev_Action ev = ''disbursement.created''"
    using ev event(2) by (auto simp: convert_event_def bind_result_Inr event_columns)
  moreover have "working w' = Some (create_effect P scope claimID x (tx_now w) row ev (canon j) d)"
    using Complete_Inr[OF c] w5 t by (auto simp: create_effect_def)
  ultimately show ?thesis
    unfolding creation_def using row j k id event convert_event_Inr(2-4)[OF ev] by auto
qed

lemma update_owned_none: "r \<in> set (update_where (owned scope c) (complete_row x) rows) \<Longrightarrow> \<not> owned scope c r"
  by (auto dest!: in_update_where simp: owned_def complete_row_def)

text \<open>Releasing a key after the creation took effect finds nothing to release.\<close>

lemma release_created:
  assumes "creation P a q scope c x d d'"
  shows "d'\<lparr>idempotency_keys := delete_where (owned scope c) (idempotency_keys d')\<rparr> = d'"
proof -
  have "delete_where (owned scope c) (idempotency_keys d') = idempotency_keys d'"
    using assms by (intro delete_where_none) (auto simp: creation_def create_effect_def dest: update_owned_none)
  then show ?thesis by simp
qed

lemma Release_cases:
  "committed (snd (Coordinator_Release P scope c w)) = committed w
   \<or> committed (snd (Coordinator_Release P scope c w))
       = (committed w)\<lparr>idempotency_keys := delete_where (owned scope c) (idempotency_keys (committed w))\<rparr>"
  by (auto simp: Coordinator_Release_def IdempotencyStore_Release_def handle_def fail_def ok_def
        pool_exec_def Let_def releaseIdempotencyClaim_def with_text_def
        split: option.splits db_fault.splits sum.splits)

lemma finish_create_cases:
  assumes "finish_create P scope c x (create_body P a q scope c x now) w = (r, w')"
  shows "(claims_only (committed w) (committed w') \<and> (\<exists>e. r = Inl e))
     \<or> (creation P a q scope c x (committed w) (committed w')
        \<and> (r = Inr \<lparr>cres_Disbursement = Some x, cres_IsReplay = False, cres_ReplayResponse = None\<rparr>
           \<or> (\<exists>e. r = Inl e)))"
proof -
  obtain r1 w1 where t: "WithinTransaction P (create_body P a q scope c x now) w = (r1, w1)" by force
  let ?release = "snd (Coordinator_Release P scope c w1)"
  have w': "(\<exists>e. r1 = Inl e) \<and> (\<exists>e. r = Inl e) \<and> w' = ?release
      \<or> r = Inr \<lparr>cres_Disbursement = Some x, cres_IsReplay = False, cres_ReplayResponse = None\<rparr>
        \<and> (\<exists>u. r1 = Inr u) \<and> w' = w1"
    using assms t by (cases r1) (auto simp: finish_create_def handle_def fail_def ok_def split: prod.splits)
  from t tx_only_create_body show ?thesis
  proof (cases rule: WithinTransaction_cases)
    case unchanged
    then have "w' = ?release" "\<exists>e. r = Inl e" using w' by auto
    moreover have "claims_only (committed w1) (committed ?release)"
      unfolding Coordinator_Release_def by (rule evolvesD(1)[OF claims.evolves_Release])
    ultimately show ?thesis using unchanged(1) by simp
  next
    case (committed u v1 v2)
    have cr: "creation P a q scope c x (committed w) (committed w1)"
      using create_body_Inr[OF committed(5,1)] committed(6) by auto
    have "committed w' = committed w1"
      using w' Release_cases[of P scope c w1] release_created[OF cr] by auto
    then show ?thesis using cr w' by auto
  qed
qed

section \<open>The whole operation\<close>

definition create_scope :: "uuid \<Rightarrow> uuid \<Rightarrow> IdempotencyScope" where
  "create_scope a k = \<lparr>sc_UserID = a, sc_Endpoint = disbursements_endpoint, sc_Key = k\<rparr>"

definition create_fingerprint :: "platform \<Rightarrow> CreateDisbursementInput \<Rightarrow> string" where
  "create_fingerprint P input =
     (case marshal_CreateDisbursementInput input of
        Inr j \<Rightarrow> Sum256 P (fingerprint_text ''POST'' disbursements_endpoint (canon j)))"

lemma trim_literals:
  "TrimSpace disbursements_endpoint = disbursements_endpoint" "TrimSpace ''POST'' = ''POST''"
  by (rule TrimSpace_graphic, code_simp)+

lemma endpoint_facts:
  "varchar 128 disbursements_endpoint = Inr disbursements_endpoint"
  "pg_text_ok disbursements_endpoint" "disbursements_endpoint \<noteq> ''''"
  by code_simp+

lemma ToUpper_POST: "ToUpper f ''POST'' = ''POST''"
proof -
  have "is_ascii ''POST''" "map upper_byte ''POST'' = ''POST''" by code_simp+
  then show ?thesis by (simp add: ToUpper_def)
qed

lemma create_fingerprint:
  "Fingerprint P ''POST'' disbursements_endpoint (marshal_CreateDisbursementInput input)
     = Inr (create_fingerprint P input)"
  using endpoint_facts(3)
  by (simp add: Fingerprint_def canonicalJSON_def marshal_CreateDisbursementInput_def create_fingerprint_def
        trim_literals ToUpper_POST Let_def)

lemma Claim_Inr:
  assumes "Coordinator_Claim P co a m e key payload w = (Inr res, w')"
  shows "\<exists>k fp c now w1 w2. ParseIdempotencyKey P key = Inr k \<and> Fingerprint P m e payload = Inr fp
     \<and> committed w1 = committed w \<and> committed w' = committed w2
     \<and> IdempotencyStore_Acquire P (claim_request co a e k fp c now) w1 = (Inr res, w2)"
proof -
  from assms obtain k fp c w1 now w2 w3 u where
    "ParseIdempotencyKey P key = Inr k" "Fingerprint P m e payload = Inr fp"
    "new_random_uuid P w = (Inr c, w1)" "read_clock P w1 = (Inr now, w2)"
    "IdempotencyStore_Acquire P (claim_request co a e k fp c now) w2 = (Inr res, w3)"
    "(if res_Outcome res \<noteq> '''' then record_metric (RecordIdempotencyClaim (res_Outcome res)) else ok ()) w3 = (Inr u, w')"
    by (auto simp: Coordinator_Claim_def andThen_Inr classified_Inr)
  moreover from this have "committed w2 = committed w" "committed w' = committed w3"
    by (auto simp: new_random_uuid_def read_clock_Inr record_metric_def split: if_splits)
  ultimately show ?thesis by metis
qed

lemma ParseIdempotencyKey_Inr: "ParseIdempotencyKey P key = Inr k \<Longrightarrow> uuid_Parse P key = Some k"
  by (auto simp: ParseIdempotencyKey_def split: option.splits if_splits)

definition fresh_result :: "Disbursement \<Rightarrow> CreateResult" where
  "fresh_result x = \<lparr>cres_Disbursement = Some x, cres_IsReplay = False, cres_ReplayResponse = None\<rparr>"

text \<open>A creation by the service: the claim that led to it and the disbursement it made.\<close>

definition service_creation ::
  "platform \<Rightarrow> Coordinator \<Rightarrow> uuid \<Rightarrow> uuid \<Rightarrow> string \<Rightarrow> CreateDisbursementInput \<Rightarrow> Disbursement \<Rightarrow> database \<Rightarrow> database \<Rightarrow> bool" where
  "service_creation P co a q key input x d d' \<longleftrightarrow>
     (\<exists>k c now bank fee t d1 y.
        uuid_Parse P key = Some k \<and> Validate P input = None
        \<and> CanonicalBankCode P (in_BankCode input) = Inr bank \<and> CalculateAdminFee (in_Amount input) = Inr fee
        \<and> x = new_disbursement (d_ID x) input bank fee a t
        \<and> claims_only d d1 \<and> y \<in> set (idempotency_keys d1)
        \<and> claimed_row P (claim_request co a disbursements_endpoint k (create_fingerprint P input) c now) y
        \<and> creation P a q (create_scope a k) c x d1 d')"

lemma acquired_claim:
  assumes "Coordinator_Claim P co a ''POST'' disbursements_endpoint key (marshal_CreateDisbursementInput input) w = (Inr res, w')"
    and "res_Outcome res \<notin> {ClaimReplayed, ClaimInProgress, ClaimReused}" "ParseIdempotencyKey P key = Inr k"
  shows "\<exists>now y. y \<in> set (idempotency_keys (committed w'))
     \<and> claimed_row P (claim_request co a disbursements_endpoint k (create_fingerprint P input) (res_ClaimID res) now) y"
proof -
  from Claim_Inr[OF assms(1)] assms(3) obtain c now w1 w2 where
    acq: "IdempotencyStore_Acquire P (claim_request co a disbursements_endpoint k (create_fingerprint P input) c now) w1 = (Inr res, w2)"
    and w': "committed w' = committed w2"
    by (auto simp: create_fingerprint)
  have "res_Outcome r \<in> {ClaimReplayed, ClaimInProgress, ClaimReused}"
    if "classifyIdempotencyClaim P s rq = (r, False)" for s rq r
    using that by (auto simp: classifyIdempotencyClaim_def split: if_splits sum.splits)
  moreover have "varchar 128 (sc_Endpoint (cr_Scope (claim_request co a disbursements_endpoint k fp c' t)))
      = Inr (sc_Endpoint (cr_Scope (claim_request co a disbursements_endpoint k fp c' t)))" for fp c' t
    by (simp add: claim_request_def endpoint_facts trim_literals)
  ultimately have "res_ClaimID res = c \<and> (\<exists>y \<in> set (idempotency_keys (committed w2)).
      claimed_row P (claim_request co a disbursements_endpoint k (create_fingerprint P input) c now) y)"
    using assms(2) Acquire_Inr[OF acq] by (fastforce simp: acquired_result_def claim_request_def)
  then show ?thesis using w' by auto
qed

lemma Service_Create_cases:
  assumes "Service_Create P co a q key input w = (r, w')"
  shows "(claims_only (committed w) (committed w') \<and> (\<forall>res. r = Inr res \<longrightarrow> cres_IsReplay res))
     \<or> (\<exists>x. service_creation P co a q key input x (committed w) (committed w')
          \<and> (r = Inr (fresh_result x) \<or> (\<exists>e. r = Inl e)))"
proof (cases "Validate P input")
  case (Some e)
  then show ?thesis using assms claims.evo_refl by (auto simp: Service_Create_def fail_def)
next
  case None
  then obtain bank fee where bf: "CanonicalBankCode P (in_BankCode input) = Inr bank"
    "CalculateAdminFee (in_Amount input) = Inr fee"
    by (auto simp: Validate_None CalculateAdminFee_Inr)
  obtain t w1 where rc: "read_clock P w = (Inr t, w1)" by (simp add: read_clock_def)
  obtain i w2 where nu: "new_uuid P w1 = (Inr i, w2)" by (simp add: new_uuid_def)
  have c2: "committed w2 = committed w" using rc nu by (auto simp: read_clock_Inr new_uuid_Inr)
  let ?x = "new_disbursement i input bank fee a t"
  show ?thesis
  proof (cases "ParseIdempotencyKey P key")
    case (Inl e)
    then show ?thesis using assms None bf rc nu c2 claims.evo_refl
      by (auto simp: Service_Create_def andThen_def handle_def lift_result_def fail_def)
  next
    case (Inr k)
    obtain r3 w3 where cl: "Coordinator_Claim P co a ''POST'' disbursements_endpoint key
        (marshal_CreateDisbursementInput input) w2 = (r3, w3)" by force
    have c3: "claims_only (committed w) (committed w3)"
      using evolvesD(1)[OF claims.evolves_Claim, of w2 P co a "''POST''" disbursements_endpoint key
        "marshal_CreateDisbursementInput input"] cl c2 by simp
    have run: "(case r3 of Inl err \<Rightarrow> fail (mapIdempotencyError err)
        | Inr res \<Rightarrow> after_claim P a q (create_scope a k) ?x t res) w3 = (r, w')"
      using assms None bf rc nu Inr cl
      by (cases r3)
         (simp_all add: Service_Create_def andThen_def handle_def lift_result_def create_scope_def Let_def)
    show ?thesis
    proof (cases "\<exists>res. r3 = Inr res \<and> res_Outcome res \<notin> {ClaimReplayed, ClaimInProgress, ClaimReused}")
      case False
      then have "w' = w3 \<and> (\<forall>res. r = Inr res \<longrightarrow> cres_IsReplay res)"
        using run by (cases r3) (auto simp: after_claim_def fail_def ok_def split: if_splits option.splits)
      then show ?thesis using c3 by auto
    next
      case True
      then obtain res where res: "r3 = Inr res" "res_Outcome res \<notin> {ClaimReplayed, ClaimInProgress, ClaimReused}"
        by blast
      obtain c now y where y: "y \<in> set (idempotency_keys (committed w3))" "res_ClaimID res = c"
        "claimed_row P (claim_request co a disbursements_endpoint k (create_fingerprint P input) c now) y"
        using acquired_claim[OF cl[unfolded res(1)] res(2) Inr] by blast
      have "finish_create P (create_scope a k) c ?x (create_body P a q (create_scope a k) c ?x t) w3 = (r, w')"
        using run res y(2) by (simp add: after_claim_def)
      from finish_create_cases[OF this] show ?thesis
      proof
        assume "claims_only (committed w3) (committed w') \<and> (\<exists>e. r = Inl e)"
        then show ?thesis using c3 claims.evo_trans by blast
      next
        assume cr: "creation P a q (create_scope a k) c ?x (committed w3) (committed w')
          \<and> (r = Inr \<lparr>cres_Disbursement = Some ?x, cres_IsReplay = False, cres_ReplayResponse = None\<rparr> \<or> (\<exists>e. r = Inl e))"
        have "?x = new_disbursement (d_ID ?x) input bank fee a t" by (simp add: new_disbursement_def)
        then have "service_creation P co a q key input ?x (committed w) (committed w')"
          unfolding service_creation_def using None bf c3 y(1,3) cr ParseIdempotencyKey_Inr[OF Inr] by blast
        then have "service_creation P co a q key input ?x (committed w) (committed w')
          \<and> (r = Inr (fresh_result ?x) \<or> (\<exists>e. r = Inl e))"
          using cr by (simp add: fresh_result_def)
        then show ?thesis by blast
      qed
    qed
  qed
qed

section \<open>Atomic creation\<close>

text \<open>What the tables show of a creation: the row, its pending audit event and the completed key.\<close>

definition creation_recorded ::
  "platform \<Rightarrow> uuid \<Rightarrow> uuid \<Rightarrow> uuid \<Rightarrow> CreateDisbursementInput \<Rightarrow> uuid \<Rightarrow> database \<Rightarrow> database \<Rightarrow> bool" where
  "creation_recorded P a q k input i d d' \<longleftrightarrow>
     (\<exists>row ob y.
        disbursements d' = disbursements d @ [row] \<and> row_ID row = i \<and> row_Amount row = in_Amount input
        \<and> CalculateAdminFee (in_Amount input) = Inr (row_AdminFee row)
        \<and> row_Status row = StatusPending \<and> row_CreatedBy row = a \<and> row_DeletedAt row = None
        \<and> audit_outbox d' = audit_outbox d @ [ob] \<and> ob_delivery_state ob = DeliveryPending
        \<and> ev_EntityID (ob_event ob) = i \<and> ev_Action (ob_event ob) = ''disbursement.created''
        \<and> ev_ActorID (ob_event ob) = a \<and> ev_RequestID (ob_event ob) = q
        \<and> y \<in> set (idempotency_keys d') \<and> in_scope (create_scope a k) y
        \<and> ik_state y = IdempotencyCompleted \<and> ik_disbursement_id y = Some i
        \<and> ik_request_hash y = create_fingerprint P input
        \<and> audit_logs d' = audit_logs d \<and> users d' = users d \<and> refresh_sessions d' = refresh_sessions d)"

lemma claimed_owned:
  "claimed_row P (claim_request co a disbursements_endpoint k fp c now) y \<Longrightarrow>
     owned (create_scope a k) c y \<and> ik_request_hash y = fp
     \<and> ik_expires_at y = pg_timestamptz P (now + co_replayTTL co)"
  by (simp add: claimed_row_def claim_request_def owned_def create_scope_def trim_literals)

text \<open>The completed key row that a creation by the service leaves.\<close>

lemma service_creation_key:
  assumes "service_creation P co a q key input x d d'"
  shows "\<exists>k y j. uuid_Parse P key = Some k \<and> y \<in> set (idempotency_keys d') \<and> in_scope (create_scope a k) y
     \<and> ik_state y = IdempotencyCompleted \<and> ik_disbursement_id y = Some (d_ID x)
     \<and> ik_request_hash y = create_fingerprint P input
     \<and> ik_response_status y = Some 201 \<and> ik_response_body y = Some (canon j)
     \<and> marshal_DisbursementResponse P (NewDisbursementResponse x) = Inr j"
proof -
  from assms obtain k c now d1 y where k: "uuid_Parse P key = Some k"
    and y: "y \<in> set (idempotency_keys d1)"
      "claimed_row P (claim_request co a disbursements_endpoint k (create_fingerprint P input) c now) y"
    and cr: "creation P a q (create_scope a k) c x d1 d'"
    unfolding service_creation_def by blast
  from cr obtain j where j: "marshal_DisbursementResponse P (NewDisbursementResponse x) = Inr j"
    "idempotency_keys d' = update_where (owned (create_scope a k) c)
       (complete_row (created_response x (canon j))) (idempotency_keys d1)"
    by (auto simp: creation_def create_effect_def)
  let ?y = "complete_row (created_response x (canon j)) y"
  have "?y \<in> set (idempotency_keys d')"
    using y claimed_owned[OF y(2)] unfolding j(2) update_where_def by force
  moreover have "in_scope (create_scope a k) ?y"
    using claimed_owned[OF y(2)] by (simp add: owned_def in_scope_def)
  ultimately show ?thesis using k j(1) claimed_owned[OF y(2)]
    by (intro exI[of _ k] exI[of _ ?y] exI[of _ j]) (simp add: complete_row_def created_response_def)
qed

lemma service_creation_recorded:
  assumes "service_creation P co a q key input x d d'"
  shows "\<exists>k. uuid_Parse P key = Some k \<and> creation_recorded P a q k input (d_ID x) d d'"
proof -
  from service_creation_key[OF assms] obtain k y where k: "uuid_Parse P key = Some k"
    and y: "y \<in> set (idempotency_keys d')" "in_scope (create_scope a k) y"
      "ik_state y = IdempotencyCompleted" "ik_disbursement_id y = Some (d_ID x)"
      "ik_request_hash y = create_fingerprint P input" by blast
  from assms obtain c bank fee t d1 where fee: "CalculateAdminFee (in_Amount input) = Inr fee"
    and x: "x = new_disbursement (d_ID x) input bank fee a t" and cl: "claims_only d d1"
    and cr: "creation P a q (create_scope a k) c x d1 d'"
    unfolding service_creation_def using k by auto
  from cr obtain occurred row ev body where e: "d' = create_effect P (create_scope a k) c x occurred row ev body d1"
    and row: "convert_disbursement P (insert_values x) = Inr row"
    and ev: "ev_EntityID ev = d_ID x" "ev_Action ev = ''disbursement.created''" "ev_ActorID ev = a" "ev_RequestID ev = q"
    unfolding creation_def by blast
  have v: "d_Amount x = in_Amount input" "d_AdminFee x = fee" "d_Status x = StatusPending"
    "d_CreatedBy x = a" "d_DeletedAt x = None"
    by (subst x, simp add: new_disbursement_def)+
  have "row_ID row = d_ID x \<and> row_Amount row = in_Amount input \<and> row_AdminFee row = fee
      \<and> row_Status row = StatusPending \<and> row_CreatedBy row = a \<and> row_DeletedAt row = None"
    using convert_disbursement_Inr[OF row] by (simp add: insert_values_def v)
  then show ?thesis unfolding creation_recorded_def using k y fee ev claims_onlyD[OF cl] e
    by (intro exI[of _ k] conjI exI[of _ row] exI[of _ "new_outbox_row occurred ev"] exI[of _ y])
       (auto simp: create_effect_def new_outbox_row_def)
qed

text \<open>
  C1. Whatever the environment does (refused statements, lost replies, failing random source), a
  call of \<open>Create\<close> leaves one of two databases behind: either nothing but claims changed (no new
  disbursement, no event, no completed key), or the disbursement with the computed fee, its
  pending audit event and the completed key under the caller's scope and fingerprint were
  recorded together. A fresh success implies the second, a replay the first; an error may hide
  the second only because the reply to the commit was lost.
\<close>

theorem create_atomic:
  "case Service_Create P co a q key input w of (r, w') \<Rightarrow>
     (case r of
        Inr res \<Rightarrow>
          if cres_IsReplay res then claims_only (committed w) (committed w')
          else (\<exists>x k. res = fresh_result x \<and> uuid_Parse P key = Some k
                  \<and> creation_recorded P a q k input (d_ID x) (committed w) (committed w'))
      | Inl e \<Rightarrow>
          claims_only (committed w) (committed w')
          \<or> (\<exists>i k. uuid_Parse P key = Some k
                \<and> creation_recorded P a q k input i (committed w) (committed w')))"
proof -
  obtain r w' where run: "Service_Create P co a q key input w = (r, w')" by force
  from Service_Create_cases[OF run] show ?thesis
  proof
    assume "claims_only (committed w) (committed w') \<and> (\<forall>res. r = Inr res \<longrightarrow> cres_IsReplay res)"
    then show ?thesis by (auto simp: run split: sum.splits)
  next
    assume "\<exists>x. service_creation P co a q key input x (committed w) (committed w')
      \<and> (r = Inr (fresh_result x) \<or> (\<exists>e. r = Inl e))"
    then obtain x k where "uuid_Parse P key = Some k" "r = Inr (fresh_result x) \<or> (\<exists>e. r = Inl e)"
      "creation_recorded P a q k input (d_ID x) (committed w) (committed w')"
      using service_creation_recorded by blast
    then show ?thesis by (auto simp: run fresh_result_def)
  qed
qed

section \<open>Runs without faults\<close>

text \<open>The claim request of a call that starts at call number \<open>n\<close> of the environment.\<close>

definition create_request ::
  "platform \<Rightarrow> Coordinator \<Rightarrow> uuid \<Rightarrow> uuid \<Rightarrow> CreateDisbursementInput \<Rightarrow> nat \<Rightarrow> IdempotencyClaimRequest" where
  "create_request P co a k input n =
     claim_request co a disbursements_endpoint k (create_fingerprint P input) (uuid_New P (n + 2)) (time_Now P (n + 3))"

lemma create_request_simps [simp]:
  "cr_Scope (create_request P co a k input n) = create_scope a k"
  "cr_Fingerprint (create_request P co a k input n) = create_fingerprint P input"
  "cr_Now (create_request P co a k input n) = time_Now P (n + 3)"
  by (simp_all add: create_request_def claim_request_def create_scope_def trim_literals)

lemma create_request_storable:
  assumes "timestamptz_ok P" "\<forall>n. uuid_New P n \<noteq> uuid_Nil" "a \<noteq> uuid_Nil" "k \<noteq> uuid_Nil"
    and "NewCoordinator lease replay = Inr co"
  shows "storable P (create_request P co a k input n)"
proof -
  have "0 < co_leaseTTL co" "co_leaseTTL co < co_replayTTL co"
    using assms(5) by (auto simp: NewCoordinator_def split: if_splits)
  then show ?thesis using assms(1-4) endpoint_facts
    by (simp add: storable_def IdempotencyClaimRequest_Valid_def IdempotencyScope_Valid_def create_scope_def)
       (simp add: create_request_def claim_request_def)
qed

lemma Create_run:
  assumes "faultless P" "Validate P input = None" "ParseIdempotencyKey P key = Inr k"
    and "IdempotencyStore_Acquire P (create_request P co a k input (calls w)) (w\<lparr>calls := calls w + 4\<rparr>) = (Inr res, w1)"
    and "res_Outcome res \<noteq> ''''"
  shows "\<exists>bank fee. CanonicalBankCode P (in_BankCode input) = Inr bank \<and> CalculateAdminFee (in_Amount input) = Inr fee
     \<and> Service_Create P co a q key input w =
         after_claim P a q (create_scope a k)
           (new_disbursement (uuid_New P (calls w + 1)) input bank fee a (time_Now P (calls w))) (time_Now P (calls w)) res
           (w1\<lparr>collector := map_option (RecordIdempotencyClaim (res_Outcome res)) (collector w1)\<rparr>)"
proof -
  obtain bank fee where bf: "CanonicalBankCode P (in_BankCode input) = Inr bank"
    "CalculateAdminFee (in_Amount input) = Inr fee"
    using assms(2) by (auto simp: Validate_None CalculateAdminFee_Inr)
  let ?w2 = "w\<lparr>calls := calls w + 2\<rparr>"
  have claim: "Coordinator_Claim P co a ''POST'' disbursements_endpoint key (marshal_CreateDisbursementInput input) ?w2
      = (Inr res, w1\<lparr>collector := map_option (RecordIdempotencyClaim (res_Outcome res)) (collector w1)\<rparr>)"
    using assms(1,3,4,5) create_fingerprint[of P input]
    by (simp add: Coordinator_Claim_def go_unfold faultless_def create_request_def
          eval_nat_numeral)
  then show ?thesis using assms(2,3) bf
    by (simp add: Service_Create_def create_scope_def Let_def andThen_def handle_def lift_result_def read_clock_def new_uuid_def)
qed

section \<open>Retries\<close>

lemma classify_replay:
  assumes "uuid_text_ok P" "ik_state y = IdempotencyCompleted" "cr_Now request < ik_expires_at y"
    and "ik_request_hash y = cr_Fingerprint request" "ik_disbursement_id y = Some i"
    and "ik_response_status y = Some status" "ik_response_body y = Some body"
  shows "classifyIdempotencyClaim P (scan_claim P y) request =
     (zero_claim_result\<lparr>res_Outcome := ClaimReplayed,
        res_Replay := Some \<lparr>rp_StatusCode = status, rp_Body = Some body, rp_DisbursementID = i\<rparr>\<rparr>, False)"
  using assms by (simp add: classifyIdempotencyClaim_def scan_claim_def replayResponse_def uuid_text_ok_def)

text \<open>A call of \<open>Create\<close> under a key that exists, when its classification does not take it over.\<close>

lemma Create_existing:
  assumes "faultless P" "storable P (create_request P co a k input (calls w))"
    and "Validate P input = None" "ParseIdempotencyKey P key = Inr k"
    and "unique_by ik_pk (idempotency_keys (committed w))"
    and "y \<in> set (idempotency_keys (committed w))" "in_scope (create_scope a k) y"
    and "classifyIdempotencyClaim P (scan_claim P y) (create_request P co a k input (calls w)) = (res, False)"
  shows "\<exists>x t w1. Service_Create P co a q key input w = after_claim P a q (create_scope a k) x t res w1
     \<and> committed w1 = committed w \<and> res_Outcome res \<in> {ClaimReplayed, ClaimInProgress, ClaimReused}"
proof -
  have o: "res_Outcome res \<in> {ClaimReplayed, ClaimInProgress, ClaimReused}"
    using assms(8) by (auto simp: classifyIdempotencyClaim_def split: if_splits sum.splits)
  let ?w = "w\<lparr>calls := calls w + 4\<rparr>"
  obtain w1 where acq: "IdempotencyStore_Acquire P (create_request P co a k input (calls w)) ?w = (Inr res, w1)"
    and c: "committed w1 = committed w"
    using Acquire_existing[OF assms(1,2), of ?w y res] assms(5-8) by auto
  have "res_Outcome res \<noteq> ''''" using o by (auto simp: outcome_defs)
  from Create_run[OF assms(1,3,4) acq this, of q] obtain x t where
    "Service_Create P co a q key input w = after_claim P a q (create_scope a k) x t res
       (w1\<lparr>collector := map_option (RecordIdempotencyClaim (res_Outcome res)) (collector w1)\<rparr>)" by blast
  moreover have "committed (w1\<lparr>collector := map_option (RecordIdempotencyClaim (res_Outcome res)) (collector w1)\<rparr>) = committed w"
    using c by simp
  ultimately show ?thesis using o by blast
qed

definition replay_result :: "ReplayResponse \<Rightarrow> CreateResult" where
  "replay_result rp = \<lparr>cres_Disbursement = None, cres_IsReplay = True, cres_ReplayResponse = Some rp\<rparr>"

lemma Create_replays:
  assumes "faultless P" "storable P (create_request P co a k input (calls w))" "uuid_text_ok P"
    and "Validate P input = None" "ParseIdempotencyKey P key = Inr k" "db_ok (committed w)"
    and "y \<in> set (idempotency_keys (committed w))" "in_scope (create_scope a k) y"
    and "ik_state y = IdempotencyCompleted" "time_Now P (calls w + 3) < ik_expires_at y"
    and "ik_request_hash y = create_fingerprint P input" "ik_disbursement_id y = Some i"
    and "ik_response_status y = Some status" "ik_response_body y = Some body"
  shows "\<exists>w'. Service_Create P co a q key input w =
       (Inr (replay_result \<lparr>rp_StatusCode = status, rp_Body = Some body, rp_DisbursementID = i\<rparr>), w')
     \<and> committed w' = committed w"
proof -
  have "classifyIdempotencyClaim P (scan_claim P y) (create_request P co a k input (calls w)) =
     (zero_claim_result\<lparr>res_Outcome := ClaimReplayed,
        res_Replay := Some \<lparr>rp_StatusCode = status, rp_Body = Some body, rp_DisbursementID = i\<rparr>\<rparr>, False)"
    by (rule classify_replay) (use assms in simp_all)
  from Create_existing[OF assms(1,2,4,5) db_okD(2)[OF assms(6)] assms(7,8) this, of q] show ?thesis
    by (auto simp: after_claim_def replay_result_def ok_def)
qed

text \<open>The platform of a later call without faults: other clock and outcomes, the same libraries.\<close>

definition later :: "platform \<Rightarrow> (nat \<Rightarrow> time) \<Rightarrow> platform" where
  "later P clock = P\<lparr>db_fault_at := (\<lambda>_. None), uuid_NewRandom_error := (\<lambda>_. False), time_Now := clock\<rparr>"

lemma later_simps [simp]:
  "faultless (later P clock)" "time_Now (later P clock) = clock"
  "timestamptz_ok (later P clock) = timestamptz_ok P" "uuid_text_ok (later P clock) = uuid_text_ok P"
  "uuid_New (later P clock) = uuid_New P" "uuid_Parse (later P clock) = uuid_Parse P"
  "ParseIdempotencyKey (later P clock) = ParseIdempotencyKey P"
  "create_fingerprint (later P clock) = create_fingerprint P" "Validate (later P clock) = Validate P"
  by (simp_all add: later_def faultless_def timestamptz_ok_def uuid_text_ok_def fun_eq_iff
        ParseIdempotencyKey_def create_fingerprint_def Validate_def input_details_def CanonicalBankCode_def
        split: option.splits sum.splits)

lemma service_creation_valid:
  assumes "service_creation P co a q key input x d d'"
  shows "Validate P input = None" "\<exists>row. disbursements d' = disbursements d @ [row] \<and> row_ID row = d_ID x"
proof -
  show "Validate P input = None" using assms unfolding service_creation_def by blast
  show "\<exists>row. disbursements d' = disbursements d @ [row] \<and> row_ID row = d_ID x"
    using service_creation_recorded[OF assms] unfolding creation_recorded_def by blast
qed

text \<open>
  C2. Exactly-once under retries: if a call of \<open>Create\<close>, under any faults and whatever it
  reported, added a disbursement, then the same actor's retry with the same key and payload
  before the key expires returns the stored 201 response of that disbursement as a replay, and
  changes nothing in the database. This covers the retry after an error whose commit had in fact
  succeeded.
\<close>

theorem create_retry_replays:
  assumes first: "Service_Create P co a q key input w = (r, w')"
    and effect: "disbursements (committed w') \<noteq> disbursements (committed w)"
    and key: "ParseIdempotencyKey P key = Inr k"
    and alive: "\<forall>y \<in> set (idempotency_keys (committed w')). in_scope (create_scope a k) y
                  \<longrightarrow> (\<forall>n. clock n < ik_expires_at y)"
    and env: "timestamptz_ok P" "uuid_text_ok P" "\<forall>n. uuid_New P n \<noteq> uuid_Nil"
    and conf: "NewCoordinator lease replay = Inr co" "a \<noteq> uuid_Nil" "db_ok (committed w)"
    and v: "committed v = committed w'"
  shows "\<exists>i j x v'. Service_Create (later P clock) co a q' key input v =
       (Inr (replay_result \<lparr>rp_StatusCode = 201, rp_Body = Some (canon j), rp_DisbursementID = i\<rparr>), v')
     \<and> committed v' = committed v
     \<and> (\<exists>row. disbursements (committed w') = disbursements (committed w) @ [row] \<and> row_ID row = i)
     \<and> marshal_DisbursementResponse P (NewDisbursementResponse x) = Inr j \<and> d_ID x = i
     \<and> d_Amount x = in_Amount input"
proof -
  from Service_Create_cases[OF first] effect obtain x where
    sc: "service_creation P co a q key input x (committed w) (committed w')"
    by (auto dest: claims_onlyD)
  from service_creation_key[OF sc] key obtain y j where
    y: "y \<in> set (idempotency_keys (committed w'))" "in_scope (create_scope a k) y"
      "ik_state y = IdempotencyCompleted" "ik_disbursement_id y = Some (d_ID x)"
      "ik_request_hash y = create_fingerprint P input" "ik_response_status y = Some 201"
      "ik_response_body y = Some (canon j)"
    and j: "marshal_DisbursementResponse P (NewDisbursementResponse x) = Inr j"
    by (auto dest: ParseIdempotencyKey_Inr)
  have k: "k \<noteq> uuid_Nil" using key env(2)
    by (auto simp: ParseIdempotencyKey_def uuid_text_ok_def split: option.splits if_splits)
  have amount: "d_Amount x = in_Amount input"
    using sc unfolding service_creation_def by (metis Disbursement.select_convs(5) new_disbursement_def)
  have ok: "db_ok (committed w')"
    using conf(3) evolvesD(1)[OF schema.evolves_Service_Create, of w P co a q key input] first
    by (simp add: schema_kept_def)
  have st: "storable (later P clock) (create_request (later P clock) co a k input (calls v))"
    by (rule create_request_storable[OF _ _ conf(2) k conf(1)]) (use env in simp_all)
  obtain v' where "Service_Create (later P clock) co a q' key input v =
       (Inr (replay_result \<lparr>rp_StatusCode = 201, rp_Body = Some (canon j), rp_DisbursementID = d_ID x\<rparr>), v')"
    "committed v' = committed v"
    using Create_replays[OF _ st, of key y "d_ID x" 201 "canon j" q'] env(2) key ok v y alive
      service_creation_valid(1)[OF sc] by auto
  then show ?thesis using service_creation_valid(2)[OF sc] j amount by blast
qed

section \<open>A fresh creation without faults\<close>

text \<open>Validated input whose texts PostgreSQL can decode fits the columns and the checks of the table.\<close>

lemma ascii_text_ok: "is_ascii s \<Longrightarrow> byte_chr 0 \<notin> set s \<Longrightarrow> pg_text_ok s"
  by (simp add: pg_text_ok_def valid_utf8_ascii)

lemma digits_text_ok:
  assumes "list_all is_digit_byte s"
  shows "pg_text_ok s" "is_ascii s"
proof -
  have b: "48 \<le> byte_val c \<and> byte_val c \<le> 57" if "c \<in> set s" for c
    using assms that by (auto simp: list_all_iff is_digit_byte_def)
  then show "is_ascii s" by (force simp: is_ascii_def list_all_iff)
  moreover have "byte_chr 0 \<notin> set s" using b[of "byte_chr 0"] by auto
  ultimately show "pg_text_ok s" by (rule ascii_text_ok)
qed

lemma bank_text_ok:
  assumes "list_all bank_code_byte s"
  shows "pg_text_ok s" "is_ascii s"
proof -
  have b: "48 \<le> byte_val c \<and> byte_val c \<le> 90" if "c \<in> set s" for c
    using assms that by (auto simp: list_all_iff bank_code_byte_def is_digit_byte_def is_upper_byte_def)
  then show "is_ascii s" by (force simp: is_ascii_def list_all_iff)
  moreover have "byte_chr 0 \<notin> set s" using b[of "byte_chr 0"] by auto
  ultimately show "pg_text_ok s" by (rule ascii_text_ok)
qed

definition created_row :: "platform \<Rightarrow> Disbursement \<Rightarrow> dbDisbursement" where
  "created_row P x = (insert_values x)\<lparr>row_CreatedAt := pg_timestamptz P (d_CreatedAt x),
     row_UpdatedAt := pg_timestamptz P (d_UpdatedAt x)\<rparr>"

lemma created_row_ok:
  assumes "Validate P input = None" "CanonicalBankCode P (in_BankCode input) = Inr bank"
    and "CalculateAdminFee (in_Amount input) = Inr fee"
    and "pg_text_ok (in_RecipientName input)" "pg_text_ok (in_Note input)"
  shows "convert_disbursement P (insert_values (new_disbursement i input bank fee a t))
      = Inr (created_row P (new_disbursement i input bank fee a t))"
    and "disbursement_check (created_row P (new_disbursement i input bank fee a t))"
proof -
  have v: "RuneCountInString (in_RecipientName input) \<le> 150" "RuneCountInString (in_Note input) \<le> 500"
    "validAccountNumber (in_AccountNumber input)" "10000 \<le> in_Amount input" "in_Amount input \<le> 100000000000"
    using assms(1) by (auto simp: Validate_None limit_defs)
  note acc = v(3)[unfolded validAccountNumber_iff]
  note bank = CanonicalBankCode_Inr[OF assms(2)]
  have fee: "fee = (if in_Amount input < 5000000 then 2500 else 5000)"
    using assms(3) by (simp add: CalculateAdminFee_Inr limit_defs)
  have "varchar 34 (in_AccountNumber input) = Inr (in_AccountNumber input)"
    using acc digits_text_ok by (simp add: varchar_short RuneCount_ascii)
  moreover have "varchar 10 bank = Inr bank"
    using bank bank_text_ok by (simp add: varchar_short RuneCount_ascii)
  ultimately show "convert_disbursement P (insert_values (new_disbursement i input bank fee a t))
      = Inr (created_row P (new_disbursement i input bank fee a t))"
    using v assms(4,5) fee
    by (simp add: convert_disbursement_def insert_values_def new_disbursement_def created_row_def varchar_short
          int4_def status_enum_def varchar_option_def)
  show "disbursement_check (created_row P (new_disbursement i input bank fee a t))"
    using v acc bank fee
    by (simp add: disbursement_check_def created_row_def insert_values_def new_disbursement_def StatusPending_def)
qed

lemma create_body_run:
  assumes f: "faultless P" and w: "working w = Some d" and u: "unique_by ik_pk (idempotency_keys d)"
    and k: "k \<in> set (idempotency_keys d)" "owned scope c k" "idempotency_check k"
    and scope: "IdempotencyScope_Valid scope" "c \<noteq> uuid_Nil" "pg_text_ok (sc_Endpoint scope)"
    and x: "convert_disbursement P (insert_values x) = Inr row" "disbursement_check row" "row_ID row = d_ID x"
      "d_ID x \<noteq> uuid_Nil"
      "\<not> disbursement_exists d (d_ID x)" "user_exists d (row_CreatedBy row)" "row_DecidedBy row = None"
    and e: "NewAuditEvent P (uuid_New P (calls w + 2)) ''disbursement'' (d_ID x) ''disbursement.created'' a q None
              (Some (marshal_Disbursement P x)) now = Inr event" "convert_event P event = Inr ev"
      "\<forall>r \<in> set (audit_outbox d). ob_id r \<noteq> uuid_New P (calls w + 2)" "user_exists d a"
    and j: "marshal_DisbursementResponse P (NewDisbursementResponse x) = Inr j" "json_no_nul j"
  shows "create_body P a q scope c x now w =
     (Inr (), w\<lparr>calls := calls w + 5, working := Some (create_effect P scope c x (tx_now w) row ev (canon j) d)\<rparr>)"
proof -
  have first: "first_where (in_scope scope) (idempotency_keys d) = Some k"
    by (rule scope_lookup[OF u k(1)]) (use k(2) in \<open>simp add: owned_def\<close>)
  have ev: "\<not> incomplete_event event" "ev_EventID event = uuid_New P (calls w + 2)" "ev_ActorID event = a" "now \<noteq> 0"
    using e(1) by (auto simp: NewAuditEvent_def incomplete_event_def IsZero_def split: if_splits sum.splits)
  have ev': "ev_EventID ev = uuid_New P (calls w + 2)" "ev_ActorID ev = a"
    using convert_event_Inr[OF e(2)] ev by simp_all
  let ?m = "\<lparr>cm_Scope = scope, cm_ClaimID = c, cm_Response = created_response x (canon j), cm_CompletedAt = now\<rparr>"
  have v: "IdempotencyCompletion_Valid ?m"
    using scope(1,2) x(4) ev(4)
    by (simp add: IdempotencyCompletion_Valid_def created_response_def ReplayResponse_Valid_def IsZero_def)
  let ?d1 = "d\<lparr>disbursements := disbursements d @ [row]\<rparr>"
  let ?d2 = "?d1\<lparr>audit_outbox := audit_outbox d @ [new_outbox_row (tx_now w) ev]\<rparr>"
  let ?w1 = "w\<lparr>calls := Suc (calls w)\<rparr>"
  let ?w2 = "?w1\<lparr>calls := calls w + 2, working := Some ?d1\<rparr>"
  let ?w4 = "?w2\<lparr>calls := calls w + 4, working := Some ?d2\<rparr>"
  have s1: "IdempotencyStore_VerifyOwnership P scope c w = (Inr (), ?w1)"
    by (rule VerifyOwnership_run[OF f w scope first k(2)])
  have s2: "DisbursementStore_Insert P x ?w1 = (Inr (), ?w2)"
    using Insert_run[OF f, of ?w1 d x row] w x by simp
  have s4: "AuditOutboxStore_Insert P event (?w2\<lparr>calls := calls w + 3\<rparr>) = (Inr (), ?w4)"
    using outbox_Insert_run[OF f, of "?w2\<lparr>calls := calls w + 3\<rparr>" ?d1 event ev] ev ev' e by simp
  have "disbursement_exists ?d2 (d_ID x)" using x(3) by (auto simp: disbursement_exists_def)
  moreover have "idempotency_check (complete_row (created_response x (canon j)) k)"
    using k(3) by (simp add: idempotency_check_def complete_row_def created_response_def)
  ultimately have "IdempotencyStore_Complete P ?m ?w4 = (Inr (), ?w4\<lparr>calls := calls w + 5,
      working := Some (create_effect P scope c x (tx_now w) row ev (canon j) d)\<rparr>)"
    using Complete_run[OF f, of ?w4 ?d2 ?m k "canon j"] v u k scope(3) canon_no_nul[OF j(2)]
    by (simp add: create_effect_def created_response_def int2_def)
  then have s5: "Coordinator_Complete P (?m\<lparr>cm_Response := created_response x j\<rparr>) ?w4
      = (Inr (), ?w4\<lparr>calls := calls w + 5, working := Some (create_effect P scope c x (tx_now w) row ev (canon j) d)\<rparr>)"
    by (simp add: Coordinator_Complete_def canonicalJSON_def marshal_RawMessage_def lift_result_def andThen_def
          handle_def created_response_def)
  have n: "new_uuid P ?w2 = (Inr (uuid_New P (calls w + 2)), ?w2\<lparr>calls := calls w + 3\<rparr>)"
    by (simp add: new_uuid_def)
  show ?thesis
    unfolding create_body_def Coordinator_VerifyOwnership_def
    using s1 s2 n e(1) s4 j(1) s5
    by (simp add: andThen_def handle_def lift_result_def created_response_def)
qed

lemma marshal_created:
  assumes "printable_ok P" "time_MarshalJSON P t = Some s"
    and "pg_text_ok (in_RecipientName input)" "pg_text_ok (in_Note input)"
    and "validAccountNumber (in_AccountNumber input)" "CanonicalBankCode P (in_BankCode input) = Inr bank"
  shows "\<exists>j. marshal_Disbursement P (new_disbursement i input bank fee a t) = Inr j \<and> json_no_nul j"
    and "\<exists>j. marshal_DisbursementResponse P (NewDisbursementResponse (new_disbursement i input bank fee a t)) = Inr j
           \<and> json_no_nul j"
proof -
  have acc: "pg_text_ok (in_AccountNumber input)"
    using assms(5) digits_text_ok(1) by (simp add: validAccountNumber_iff)
  have bank: "pg_text_ok bank" using CanonicalBankCode_Inr[OF assms(6)] bank_text_ok(1) by blast
  have st: "pg_text_ok StatusPending" by code_simp
  have n: "byte_chr 0 \<notin> set (to_valid_utf8 u)" if "pg_text_ok u" for u
    using that by (simp add: pg_text_ok_def to_valid_utf8_id)
  have e: "to_valid_utf8 [] = []" by code_simp
  have texts: "no_nul_texts (new_disbursement i input bank fee a t)"
    using n[OF assms(3)] n[OF assms(4)] n[OF acc] n[OF bank] n[OF st] e
    by (simp add: no_nul_texts_def new_disbursement_def)
  have "\<exists>j. marshal_Disbursement P (new_disbursement i input bank fee a t) = Inr j"
    using assms(2) by (simp add: marshal_Disbursement_def new_disbursement_def json_time_ptr_def json_time_def)
  then show "\<exists>j. marshal_Disbursement P (new_disbursement i input bank fee a t) = Inr j \<and> json_no_nul j"
    using marshal_Disbursement_no_nul[OF assms(1) texts] by blast
  show "\<exists>j. marshal_DisbursementResponse P (NewDisbursementResponse (new_disbursement i input bank fee a t)) = Inr j
           \<and> json_no_nul j"
    using assms(1,2) texts
    by (simp add: marshal_DisbursementResponse_def NewDisbursementResponse_def new_disbursement_def json_time_ptr_def
          json_time_def json_uuid_ptr_def json_uuid_def json_string_def json_int_def printable_ok_def no_nul_texts_def
          nul_names)
qed

text \<open>The transaction of a validated creation that holds its claim.\<close>

lemma valid_create_body:
  assumes env: "faultless P" "printable_ok P" "\<forall>n. uuid_New P n \<noteq> uuid_Nil"
    and clock: "t \<noteq> 0" "time_MarshalJSON P t = Some stamp"
    and actor: "a \<noteq> uuid_Nil" "q \<noteq> uuid_Nil" "user_exists d a"
    and input: "Validate P input = None" "pg_text_ok (in_RecipientName input)" "pg_text_ok (in_Note input)"
    and bf: "CanonicalBankCode P (in_BankCode input) = Inr bank" "CalculateAdminFee (in_Amount input) = Inr fee"
    and claim: "unique_by ik_pk (idempotency_keys d)" "y \<in> set (idempotency_keys d)" "owned scope c y" "idempotency_check y"
    and scope: "IdempotencyScope_Valid scope" "c \<noteq> uuid_Nil" "pg_text_ok (sc_Endpoint scope)"
    and fresh: "\<forall>n. \<not> disbursement_exists d (uuid_New P n)" "\<forall>n. \<forall>r \<in> set (audit_outbox d). ob_id r \<noteq> uuid_New P n"
    and w: "working w = Some d"
  shows "\<exists>w'. create_body P a q scope c (new_disbursement (uuid_New P n) input bank fee a t) t w = (Inr (), w')"
proof -
  define x where "x = new_disbursement (uuid_New P n) input bank fee a t"
  have id: "d_ID x = uuid_New P n" by (simp add: x_def new_disbursement_def)
  have acc: "validAccountNumber (in_AccountNumber input)" using input(1) by (simp add: Validate_None)
  obtain jd where jd: "marshal_Disbursement P x = Inr jd" "json_no_nul jd"
    using marshal_created(1)[OF env(2) clock(2) input(2,3) acc bf(1)] unfolding x_def by blast
  obtain j where j: "marshal_DisbursementResponse P (NewDisbursementResponse x) = Inr j" "json_no_nul j"
    using marshal_created(2)[OF env(2) clock(2) input(2,3) acc bf(1)] unfolding x_def by blast
  obtain event ev where e: "NewAuditEvent P (uuid_New P (calls w + 2)) ''disbursement'' (d_ID x) ''disbursement.created'' a q None
      (Some (marshal_Disbursement P x)) t = Inr event" "convert_event P event = Inr ev"
    using service_event[of "uuid_New P (calls w + 2)" "d_ID x" a q t "''disbursement.created''" None undefined jd P]
      env(3) actor clock(1) jd id by (auto simp: service_actions_def)
  have row: "convert_disbursement P (insert_values x) = Inr (created_row P x)" "disbursement_check (created_row P x)"
    "row_ID (created_row P x) = d_ID x" "row_CreatedBy (created_row P x) = a" "row_DecidedBy (created_row P x) = None"
    using created_row_ok[OF input(1) bf input(2,3)]
    by (simp_all add: created_row_def insert_values_def x_def new_disbursement_def)
  have "create_body P a q scope c x t w = (Inr (), w\<lparr>calls := calls w + 5,
      working := Some (create_effect P scope c x (tx_now w) (created_row P x) ev (canon j) d)\<rparr>)"
    by (rule create_body_run[OF env(1) w claim scope row(1-3) _ _ _ row(5) e _ actor(3) j])
       (use env(3) id fresh row(4) actor(3) in simp_all)
  then show ?thesis unfolding x_def by blast
qed

lemma finish_create_run:
  assumes "faultless P"
    and "body (w\<lparr>calls := Suc (calls w), working := Some (committed w), tx_now := pg_now P (calls w)\<rparr>) = (Inr u, w1)"
  shows "\<exists>w'. finish_create P scope c x body w = (Inr (fresh_result x), w')"
  using WithinTransaction_faultless[of P body w "Inr u" w1, OF assms]
  by (simp add: finish_create_def handle_def ok_def fresh_result_def)

text \<open>The claim of a call under a new key, before its creating transaction.\<close>

definition with_claim :: "platform \<Rightarrow> IdempotencyClaimRequest \<Rightarrow> database \<Rightarrow> database" where
  "with_claim P request d = d\<lparr>idempotency_keys := idempotency_keys d @ [claim_row P request]\<rparr>"

lemma with_claim_facts:
  assumes "unique_by ik_pk (idempotency_keys d)" "\<forall>y \<in> set (idempotency_keys d). \<not> in_scope (cr_Scope rq) y"
  shows "unique_by ik_pk (idempotency_keys (with_claim P rq d))"
    "claim_row P rq \<in> set (idempotency_keys (with_claim P rq d))"
    "owned (cr_Scope rq) (cr_ClaimID rq) (claim_row P rq)"
    "user_exists (with_claim P rq d) u = user_exists d u"
    "disbursement_exists (with_claim P rq d) i = disbursement_exists d i"
    "audit_outbox (with_claim P rq d) = audit_outbox d"
  using assms
  by (auto intro!: unique_by_append simp: with_claim_def in_scope_def claim_row_def ik_pk_def owned_def)

lemma finish_claimed:
  assumes env: "faultless P" "printable_ok P" "\<forall>n. uuid_New P n \<noteq> uuid_Nil"
    and clock: "t \<noteq> 0" "time_MarshalJSON P t = Some stamp"
    and actor: "a \<noteq> uuid_Nil" "q \<noteq> uuid_Nil" "k \<noteq> uuid_Nil" "user_exists d a"
    and input: "Validate P input = None" "pg_text_ok (in_RecipientName input)" "pg_text_ok (in_Note input)"
    and bf: "CanonicalBankCode P (in_BankCode input) = Inr bank" "CalculateAdminFee (in_Amount input) = Inr fee"
    and rq: "storable P rq" "cr_Scope rq = create_scope a k" "cr_ClaimID rq \<noteq> uuid_Nil"
    and d: "db_ok d" "\<forall>y \<in> set (idempotency_keys d). \<not> in_scope (create_scope a k) y"
    and fresh: "\<forall>n. \<not> disbursement_exists d (uuid_New P n)" "\<forall>n. \<forall>r \<in> set (audit_outbox d). ob_id r \<noteq> uuid_New P n"
    and w: "committed w = with_claim P rq d" and x: "x = new_disbursement (uuid_New P n) input bank fee a t"
  shows "\<exists>w'. finish_create P (create_scope a k) (cr_ClaimID rq) x
       (create_body P a q (create_scope a k) (cr_ClaimID rq) x t) w = (Inr (fresh_result x), w')
     \<and> creation P a q (create_scope a k) (cr_ClaimID rq) x (with_claim P rq d) (committed w')"
proof -
  let ?d = "with_claim P rq d"
  let ?w = "w\<lparr>calls := Suc (calls w), working := Some (committed w), tx_now := pg_now P (calls w)\<rparr>"
  note cl = with_claim_facts[OF db_okD(2)[OF d(1)], of rq, unfolded rq(2), OF d(2)]
  have scope: "IdempotencyScope_Valid (create_scope a k)" "pg_text_ok (sc_Endpoint (create_scope a k))"
    using actor(1,3) endpoint_facts by (simp_all add: IdempotencyScope_Valid_def create_scope_def)
  have d': "user_exists ?d a" "\<forall>n. \<not> disbursement_exists ?d (uuid_New P n)"
    "\<forall>n. \<forall>r \<in> set (audit_outbox ?d). ob_id r \<noteq> uuid_New P n" "working ?w = Some ?d"
    using actor(4) fresh cl(4-6) w by simp_all
  from valid_create_body[OF env clock actor(1,2) d'(1) input bf cl(1-3) storable_checks(1)[OF rq(1)]
      scope(1) rq(3) scope(2) d'(2-4)]
  obtain v where "create_body P a q (create_scope a k) (cr_ClaimID rq) x t ?w = (Inr (), v)" unfolding x by blast
  from finish_create_run[where body = "create_body P a q (create_scope a k) (cr_ClaimID rq) x t"
      and w = w and scope = "create_scope a k" and c = "cr_ClaimID rq" and x = x, OF env(1) this] obtain w' where
    res: "finish_create P (create_scope a k) (cr_ClaimID rq) x
       (create_body P a q (create_scope a k) (cr_ClaimID rq) x t) w = (Inr (fresh_result x), w')" by blast
  from finish_create_cases[OF res] res w show ?thesis by auto
qed

lemma Create_fresh:
  assumes env: "faultless P" "timestamptz_ok P" "uuid_text_ok P" "printable_ok P" "\<forall>n. uuid_New P n \<noteq> uuid_Nil"
    and clock: "time_Now P (calls w) \<noteq> 0" "time_MarshalJSON P (time_Now P (calls w)) = Some stamp"
    and conf: "NewCoordinator lease replay = Inr co"
    and actor: "a \<noteq> uuid_Nil" "q \<noteq> uuid_Nil" "user_exists (committed w) a"
    and input: "Validate P input = None" "pg_text_ok (in_RecipientName input)" "pg_text_ok (in_Note input)"
    and key: "ParseIdempotencyKey P key = Inr k"
      "\<forall>y \<in> set (idempotency_keys (committed w)). \<not> in_scope (create_scope a k) y"
    and fresh: "\<forall>n. \<not> disbursement_exists (committed w) (uuid_New P n)"
      "\<forall>n. \<forall>r \<in> set (audit_outbox (committed w)). ob_id r \<noteq> uuid_New P n"
    and db: "db_ok (committed w)"
  shows "\<exists>x w'. Service_Create P co a q key input w = (Inr (fresh_result x), w')
     \<and> creation P a q (create_scope a k) (uuid_New P (calls w + 2)) x
         (with_claim P (create_request P co a k input (calls w)) (committed w)) (committed w')"
proof -
  have k: "k \<noteq> uuid_Nil" using key(1) env(3)
    by (auto simp: ParseIdempotencyKey_def uuid_text_ok_def split: option.splits if_splits)
  define rq where "rq = create_request P co a k input (calls w)"
  have st: "storable P rq" unfolding rq_def by (rule create_request_storable[OF env(2,5) actor(1) k conf])
  have rq: "cr_Scope rq = create_scope a k" "cr_ClaimID rq = uuid_New P (calls w + 2)"
    by (simp_all add: rq_def create_request_def claim_request_def trim_literals create_scope_def)
  obtain w1 where acq: "IdempotencyStore_Acquire P rq (w\<lparr>calls := calls w + 4\<rparr>) = (Inr (acquired_result rq), w1)"
    and w1: "committed w1 = with_claim P rq (committed w)"
    using Acquire_fresh[OF env(1) st, of "w\<lparr>calls := calls w + 4\<rparr>"] key(2) actor(3) rq(1)
    by (simp add: create_scope_def with_claim_def)
  define w2 where "w2 = w1\<lparr>collector := map_option (RecordIdempotencyClaim ClaimAcquired) (collector w1)\<rparr>"
  obtain bank fee where bf: "CanonicalBankCode P (in_BankCode input) = Inr bank" "CalculateAdminFee (in_Amount input) = Inr fee"
    and run: "Service_Create P co a q key input w = after_claim P a q (create_scope a k)
       (new_disbursement (uuid_New P (calls w + 1)) input bank fee a (time_Now P (calls w))) (time_Now P (calls w))
       (acquired_result rq) w2"
    using Create_run[OF env(1) input(1) key(1) acq[unfolded rq_def], of q]
    by (auto simp: acquired_result_def ClaimAcquired_def rq_def w2_def)
  have "cr_ClaimID rq \<noteq> uuid_Nil" "committed w2 = with_claim P rq (committed w)"
    using env(5) rq(2) w1 by (simp_all add: w2_def)
  from finish_claimed[OF env(1,4,5) clock actor(1,2) k actor(3) input bf st rq(1) this(1) db key(2) fresh this(2) refl,
      of "calls w + 1"]
  show ?thesis unfolding run rq(2)[symmetric] rq_def[symmetric]
    by (auto simp: after_claim_def acquired_result_def)
qed

text \<open>
  C17. Liveness and compatibility of validation with the schema: without faults, an input that
  passes \<open>Validate\<close> and whose name and note are texts that PostgreSQL stores (valid UTF-8 without a
  NUL byte, which \<open>Validate\<close> does not check) is not refused by a column type or CHECK constraint.
  Under a new key, for an existing actor and with fresh identifiers, \<open>Create\<close> succeeds and records the
  creation.
\<close>

theorem create_succeeds:
  assumes env: "faultless P" "timestamptz_ok P" "uuid_text_ok P" "printable_ok P" "\<forall>n. uuid_New P n \<noteq> uuid_Nil"
    and clock: "time_Now P (calls w) \<noteq> 0" "time_MarshalJSON P (time_Now P (calls w)) = Some stamp"
    and conf: "NewCoordinator lease replay = Inr co"
    and actor: "a \<noteq> uuid_Nil" "q \<noteq> uuid_Nil" "user_exists (committed w) a"
    and input: "Validate P input = None" "pg_text_ok (in_RecipientName input)" "pg_text_ok (in_Note input)"
    and key: "ParseIdempotencyKey P key = Inr k"
      "\<forall>y \<in> set (idempotency_keys (committed w)). \<not> in_scope (create_scope a k) y"
    and fresh: "\<forall>n. \<not> disbursement_exists (committed w) (uuid_New P n)"
      "\<forall>n. \<forall>r \<in> set (audit_outbox (committed w)). ob_id r \<noteq> uuid_New P n"
    and db: "db_ok (committed w)"
  shows "\<exists>x w'. Service_Create P co a q key input w = (Inr (fresh_result x), w')
     \<and> creation_recorded P a q k input (d_ID x) (committed w) (committed w')"
proof -
  obtain x w' where res: "Service_Create P co a q key input w = (Inr (fresh_result x), w')"
    using Create_fresh[OF env clock conf actor input key fresh db] by blast
  have "service_creation P co a q key input x (committed w) (committed w')"
    using Service_Create_cases[OF res] by (auto simp: fresh_result_def)
  from service_creation_recorded[OF this] res show ?thesis
    using ParseIdempotencyKey_Inr[OF key(1)] by auto
qed

section \<open>Refusals\<close>

text \<open>The hypotheses on the environment and the caller that the refusals share.\<close>

definition create_ready ::
  "platform \<Rightarrow> Coordinator \<Rightarrow> uuid \<Rightarrow> uuid \<Rightarrow> string \<Rightarrow> CreateDisbursementInput \<Rightarrow> bool" where
  "create_ready P co a k key input \<longleftrightarrow>
     faultless P \<and> timestamptz_ok P \<and> uuid_text_ok P \<and> (\<forall>n. uuid_New P n \<noteq> uuid_Nil)
     \<and> NewCoordinator (co_leaseTTL co) (co_replayTTL co) = Inr co
     \<and> a \<noteq> uuid_Nil \<and> ParseIdempotencyKey P key = Inr k \<and> Validate P input = None"

lemma create_ready_storable:
  assumes "create_ready P co a k key input"
  shows "storable P (create_request P co a k input n)"
proof -
  have "k \<noteq> uuid_Nil" using assms
    by (auto simp: create_ready_def ParseIdempotencyKey_def uuid_text_ok_def split: option.splits if_splits)
  then show ?thesis using assms create_request_storable unfolding create_ready_def by blast
qed

lemma create_ready_existing:
  assumes "create_ready P co a k key input" "db_ok (committed w)"
    and "y \<in> set (idempotency_keys (committed w))" "in_scope (create_scope a k) y"
    and "classifyIdempotencyClaim P (scan_claim P y) (create_request P co a k input (calls w)) = (res, False)"
  shows "\<exists>x t w1. Service_Create P co a q key input w = after_claim P a q (create_scope a k) x t res w1
     \<and> committed w1 = committed w"
proof -
  from assms(1) have "faultless P" "Validate P input = None" "ParseIdempotencyKey P key = Inr k"
    by (simp_all add: create_ready_def)
  from Create_existing[OF this(1) create_ready_storable[OF assms(1)] this(2,3) db_okD(2)[OF assms(2)] assms(3-5), of q]
  show ?thesis by blast
qed

text \<open>
  C20. A key that is still valid under another payload is refused with 409
  \<open>IDEMPOTENCY_KEY_REUSED\<close>, whether the first request is finished or still running, and nothing
  changes.
\<close>

theorem create_key_reused:
  assumes "create_ready P co a k key input" "db_ok (committed w)"
    and "y \<in> set (idempotency_keys (committed w))" "in_scope (create_scope a k) y"
    and "time_Now P (calls w + 3) < ik_expires_at y" "ik_request_hash y \<noteq> create_fingerprint P input"
  shows "\<exists>w'. Service_Create P co a q key input w = (Inl (DomainError IdempotencyKeyReused), w')
     \<and> committed w' = committed w"
proof -
  have "classifyIdempotencyClaim P (scan_claim P y) (create_request P co a k input (calls w))
      = (zero_claim_result\<lparr>res_Outcome := ClaimReused\<rparr>, False)"
    using assms(5,6) by (simp add: classifyIdempotencyClaim_def scan_claim_def)
  from create_ready_existing[OF assms(1-4) this, of q] show ?thesis
    by (auto simp: after_claim_def fail_def)
qed

text \<open>Below \<open>2 ^ 23\<close> seconds the floating-point seconds have the ceiling of the exact ones.\<close>

lemma ceil_seconds_bounds:
  assumes "0 \<le> remaining" "remaining < 2 ^ 23 * Second"
  shows "remaining \<le> ceil_seconds remaining \<and> ceil_seconds remaining < remaining + Second \<and> Second dvd ceil_seconds remaining"
proof -
  have "(- remaining) div Second * Second + (- remaining) mod Second = - remaining" by simp
  moreover have "0 \<le> (- remaining) mod Second" "(- remaining) mod Second < Second" by simp_all
  ultimately have "remaining \<le> - ((- remaining) div Second) * Second"
    "- ((- remaining) div Second) * Second < remaining + Second" by linarith+
  moreover from this have "int64_range (- ((- remaining) div Second) * Second)"
    using assms by (simp add: int64_range_def)
  ultimately show ?thesis unfolding ceil_seconds_def ceil_duration_Seconds[OF assms] by simp
qed

text \<open>
  C21. While another request holds the key, a concurrent one is refused with 409
  \<open>IDEMPOTENCY_REQUEST_IN_PROGRESS\<close>; the delay it is told is a whole number of seconds, at least
  the rest of the lease and less than one second more, and nothing changes. The rest of the lease is below
  \<open>2 ^ 23\<close> seconds (97 days): above \<open>2 ^ 24\<close> the code's floating-point seconds round a fraction away.
\<close>

theorem create_in_progress:
  assumes "create_ready P co a k key input" "db_ok (committed w)"
    and "y \<in> set (idempotency_keys (committed w))" "in_scope (create_scope a k) y"
    and "time_Now P (calls w + 3) < ik_expires_at y" "ik_request_hash y = create_fingerprint P input"
    and "ik_state y = IdempotencyInProgress" "time_Now P (calls w + 3) < ik_lease_until y"
    and "ik_lease_until y - time_Now P (calls w + 3) < 2 ^ 23 * Second"
  shows "\<exists>w' delay. Service_Create P co a q key input w =
       (Inl (DomainError (IdempotencyRequestInProgressWithRetryAfter delay)), w')
     \<and> committed w' = committed w
     \<and> ik_lease_until y - time_Now P (calls w + 3) \<le> delay
     \<and> delay < ik_lease_until y - time_Now P (calls w + 3) + Second \<and> Second dvd delay"
proof -
  let ?rest = "ik_lease_until y - time_Now P (calls w + 3)"
  let ?delay = "ceil_seconds ?rest"
  have "time_Sub (ik_lease_until y) (time_Now P (calls w + 3)) = ?rest" using assms(8,9) by (simp add: time_Sub_def)
  then
  have "classifyIdempotencyClaim P (scan_claim P y) (create_request P co a k input (calls w))
      = (zero_claim_result\<lparr>res_Outcome := ClaimInProgress, res_RetryAfter := ?delay\<rparr>, False)"
    using assms(5-8) by (simp add: classifyIdempotencyClaim_def scan_claim_def)
  from create_ready_existing[OF assms(1-4) this, of q] obtain w1 where
    "Service_Create P co a q key input w = (Inl (DomainError (IdempotencyRequestInProgressWithRetryAfter ?delay)), w1)"
    "committed w1 = committed w"
    by (auto simp: after_claim_def fail_def)
  then show ?thesis using ceil_seconds_bounds[of ?rest] assms(8,9) by auto
qed

text \<open>
  C19. Fencing: a request whose claim was taken over, completed or released meanwhile (no row of
  its scope carries its claim in progress) cannot commit: whatever the environment does, its
  transaction and its release leave the database exactly as it was, and it reports an error.
\<close>

theorem stale_owner_fenced:
  assumes "\<forall>y \<in> set (idempotency_keys (committed w)). \<not> owned scope c y"
    and "finish_create P scope c x (create_body P a q scope c x now) w = (r, w')"
  shows "committed w' = committed w \<and> (\<exists>e. r = Inl e)"
proof -
  obtain r1 w1 where t: "WithinTransaction P (create_body P a q scope c x now) w = (r1, w1)" by force
  from t tx_only_create_body have u: "committed w1 = committed w \<and> (\<exists>e. r1 = Inl e)"
  proof (cases rule: WithinTransaction_cases)
    case (committed u v1 v2)
    then show ?thesis using create_body_Inr[OF committed(5,1)] assms(1)
      by (auto simp: creation_def dest!: first_where_Some)
  qed simp
  have "committed (snd (Coordinator_Release P scope c w1)) = committed w1"
    using Release_cases[of P scope c w1] assms(1) u by (auto simp: delete_where_none)
  then show ?thesis using assms(2) t u
    by (auto simp: finish_create_def handle_def fail_def split: prod.splits)
qed

section \<open>A concrete run\<close>

definition demo_co :: Coordinator where
  "demo_co = \<lparr>co_leaseTTL = 30 * Second, co_replayTTL = 24 * Hour\<rparr>"

lemma demo_co_ok [simp]: "NewCoordinator (30 * Second) (24 * Hour) = Inr demo_co"
  by (simp add: NewCoordinator_def demo_co_def)

lemma demo_facts:
  "\<forall>n. uuid_New demo n \<noteq> uuid_Nil" "time_Now demo (calls (in_world d)) \<noteq> 0"
  "\<forall>y \<in> set (idempotency_keys demo_db). \<not> in_scope s y"
  "\<forall>n. \<not> disbursement_exists demo_db (uuid_New demo n)"
  "\<forall>n. \<forall>r \<in> set (audit_outbox demo_db). ob_id r \<noteq> uuid_New demo n"
  by (simp_all add: demo_time_def disbursement_exists_def)

theorem create_succeeds_witness:
  "\<exists>x w'. Service_Create demo demo_co demo_user demo_request demo_key demo_input (in_world demo_db)
       = (Inr (fresh_result x), w')
     \<and> creation_recorded demo demo_user demo_request 3 demo_input (d_ID x) demo_db (committed w')"
  using create_succeeds[OF demo_ok(1-4) demo_facts(1,2) _ demo_co_ok demo_ids, of demo_db
      "''2026-01-01T00:00:00Z''" demo_input demo_key 3] demo_facts
  by simp

lemma demo_run:
  "\<exists>x w'. Service_Create demo demo_co demo_user demo_request demo_key demo_input (in_world demo_db)
       = (Inr (fresh_result x), w')
     \<and> creation demo demo_user demo_request (create_scope demo_user 3) (uuid_New demo 2) x
         (with_claim demo (create_request demo demo_co demo_user 3 demo_input 0) demo_db) (committed w')"
  using Create_fresh[OF demo_ok(1-4) demo_facts(1,2) _ demo_co_ok demo_ids, of demo_db
      "''2026-01-01T00:00:00Z''" demo_input demo_key 3] demo_facts
  by simp

theorem create_retry_replays_witness:
  "\<exists>w' i body v'. committed w' \<noteq> demo_db
     \<and> Service_Create (later demo (\<lambda>_. 5 * Second)) demo_co demo_user 7 demo_key demo_input w' =
       (Inr (replay_result \<lparr>rp_StatusCode = 201, rp_Body = Some body, rp_DisbursementID = i\<rparr>), v')
     \<and> committed v' = committed w'"
proof -
  obtain x w' where run: "Service_Create demo demo_co demo_user demo_request demo_key demo_input (in_world demo_db)
       = (Inr (fresh_result x), w')"
    and cr: "creation demo demo_user demo_request (create_scope demo_user 3) (uuid_New demo 2) x
         (with_claim demo (create_request demo demo_co demo_user 3 demo_input 0) demo_db) (committed w')"
    using demo_run by blast
  have new: "disbursements (committed w') \<noteq> disbursements (committed (in_world demo_db))"
    using cr by (auto simp: creation_def create_effect_def with_claim_def)
  have "ik_expires_at y = (demo_time 3 + co_replayTTL demo_co) div 1000 * 1000" if "y \<in> set (idempotency_keys (committed w'))" for y
    using cr that by (auto simp: creation_def create_effect_def with_claim_def complete_row_def claim_row_def
        create_request_def claim_request_def dest!: in_update_where)
  then have alive: "\<forall>y \<in> set (idempotency_keys (committed w')). in_scope (create_scope demo_user 3) y
      \<longrightarrow> (\<forall>n::nat. 5 * Second < ik_expires_at y)"
    by (simp add: demo_time_def demo_co_def)
  have "committed w' \<noteq> demo_db" using new by auto
  then show ?thesis
    using create_retry_replays[OF run new demo_key_valid alive demo_ok(2,3) demo_facts(1) demo_co_ok demo_ids(1) _ refl, of 7]
    by auto
qed

definition demo_claim :: idempotency_row where
  "demo_claim =
     \<lparr>ik_user_id = demo_user, ik_endpoint = disbursements_endpoint, ik_key = 3, ik_request_hash = ''digest'',
      ik_state = IdempotencyInProgress, ik_claim_id = 9, ik_lease_until = 30 * Second, ik_expires_at = 24 * Hour,
      ik_disbursement_id = None, ik_response_status = None, ik_response_body = None\<rparr>"

definition claimed_db :: "string \<Rightarrow> database" where
  "claimed_db hash = demo_db\<lparr>idempotency_keys := [demo_claim\<lparr>ik_request_hash := hash\<rparr>]\<rparr>"

lemma claimed_db_ok: "db_ok (claimed_db hash)"
  by (simp add: db_ok_def claimed_db_def demo_db_def user_exists_def unique_by_def demo_claim_def idempotency_check_def)

lemma demo_ready: "create_ready demo demo_co demo_user 3 demo_key demo_input"
proof -
  have "NewCoordinator (co_leaseTTL demo_co) (co_replayTTL demo_co) = Inr demo_co"
    using demo_co_ok by (simp add: demo_co_def)
  then show ?thesis by (simp only: create_ready_def demo_ok demo_ids demo_key_valid demo_input_valid) simp
qed

lemma demo_claim_scope:
  "in_scope (create_scope demo_user 3) (demo_claim\<lparr>ik_request_hash := h\<rparr>)"
  "demo_claim\<lparr>ik_request_hash := h\<rparr> \<in> set (idempotency_keys (committed (in_world (claimed_db h))))"
  by (simp_all add: in_scope_def ik_pk_def demo_claim_def create_scope_def claimed_db_def)

lemma demo_fingerprint: "create_fingerprint demo demo_input = ''digest''"
  by (simp add: create_fingerprint_def marshal_CreateDisbursementInput_def)

theorem create_key_reused_witness:
  "\<exists>w'. Service_Create demo demo_co demo_user demo_request demo_key demo_input (in_world (claimed_db ''other''))
       = (Inl (DomainError IdempotencyKeyReused), w')
     \<and> committed w' = claimed_db ''other''"
  using create_key_reused[OF demo_ready _ demo_claim_scope(2,1), of "''other''" demo_request]
  by (simp add: claimed_db_ok demo_fingerprint demo_time_def demo_claim_def)

theorem create_in_progress_witness:
  "\<exists>w'. Service_Create demo demo_co demo_user demo_request demo_key demo_input (in_world (claimed_db ''digest''))
       = (Inl (DomainError (IdempotencyRequestInProgressWithRetryAfter (26 * Second))), w')
     \<and> committed w' = claimed_db ''digest''"
proof -
  obtain w' delay where "Service_Create demo demo_co demo_user demo_request demo_key demo_input (in_world (claimed_db ''digest''))
       = (Inl (DomainError (IdempotencyRequestInProgressWithRetryAfter delay)), w')"
    "committed w' = claimed_db ''digest''" and d: "26 * Second \<le> delay" "delay < 27 * Second" "Second dvd delay"
    using create_in_progress[OF demo_ready _ demo_claim_scope(2,1), of "''digest''" demo_request]
    by (auto simp: claimed_db_ok demo_fingerprint demo_time_def demo_claim_def)
  moreover have "delay = 26 * Second"
  proof -
    obtain m where m: "delay = Second * m" using d(3) by blast
    then have "26 \<le> m" "m < 27" using d(1,2) by linarith+
    then show ?thesis using m by simp
  qed
  ultimately show ?thesis by blast
qed

definition demo_disbursement :: Disbursement where
  "demo_disbursement = new_disbursement 5 demo_input ''BCA'' 2500 demo_user 1"

theorem stale_owner_fenced_witness:
  "committed (snd (finish_create demo (create_scope demo_user 3) 8 demo_disbursement
     (create_body demo demo_user demo_request (create_scope demo_user 3) 8 demo_disbursement 1)
     (in_world (claimed_db ''digest'')))) = claimed_db ''digest''"
  using stale_owner_fenced[OF _ prod.collapse[symmetric], of "in_world (claimed_db ''digest'')" "create_scope demo_user 3" 8
      demo demo_disbursement demo_user demo_request 1]
  by (simp add: claimed_db_def owned_def demo_claim_def)

end
