(* ===== verification/Finalization.thy ===== *)
theory Finalization
  imports Disbursement_Service Scenario
begin

text \<open>
  Deciding and deleting disbursements: a change and its audit event are committed together or
  not at all, whatever faults occur; the outcome of \<open>UpdateStatus\<close> and \<open>SoftDelete\<close> on every kind
  of row; a repeated delete changes nothing; which errors the operations can report.
\<close>

section \<open>Atomic changes\<close>

text \<open>What the tables show of a change of the open row \<open>i\<close> by \<open>f\<close> under an audit event.\<close>

definition change_recorded ::
  "uuid \<Rightarrow> uuid \<Rightarrow> uuid \<Rightarrow> string \<Rightarrow> (dbDisbursement \<Rightarrow> dbDisbursement) \<Rightarrow> database \<Rightarrow> database \<Rightarrow> bool" where
  "change_recorded a q i action f d d' \<longleftrightarrow>
     (\<exists>r ob. r \<in> set (disbursements d) \<and> open_row i r
        \<and> d' = d\<lparr>disbursements := update_where (open_row i) f (disbursements d),
                audit_outbox := audit_outbox d @ [ob]\<rparr>
        \<and> ob_delivery_state ob = DeliveryPending \<and> ev_EntityID (ob_event ob) = i
        \<and> ev_Action (ob_event ob) = action \<and> ev_ActorID (ob_event ob) = a
        \<and> ev_RequestID (ob_event ob) = q)"

lemma event_fields:
  assumes "NewAuditEvent P e ''disbursement'' i action a q before after occurred = Inr event" "convert_event P event = Inr ev"
    and "action \<in> set service_actions"
  shows "ev_EntityID ev = i" "ev_Action ev = action" "ev_ActorID ev = a" "ev_RequestID ev = q"
proof -
  have ev: "ev_EntityID event = i" "ev_Action event = action" "ev_ActorID event = a" "ev_RequestID event = q"
    using assms(1) by (auto simp: NewAuditEvent_def split: if_splits sum.splits)
  show "ev_EntityID ev = i" "ev_ActorID ev = a" "ev_RequestID ev = q"
    using convert_event_Inr[OF assms(2)] ev by simp_all
  show "ev_Action ev = action"
    using assms(2,3) ev(2) event_columns by (auto simp: convert_event_def bind_result_Inr service_actions_def)
qed

lemma decision_action_known: "decision_action st \<in> set service_actions"
  by (simp add: decision_action_def service_actions_def)

lemma tx_only_reads: "tx_only (DisbursementStore_FindByID P i)"
  unfolding DisbursementStore_FindByID_def
  by (auto split: sum.splits intro!: tx_only_env tx_only_read tx_only_handle simp: findDisbursementByIDQuery_def)

lemma tx_only_event: "tx_only (AuditOutboxStore_Insert P event)"
  unfolding AuditOutboxStore_Insert_def
  by (auto split: sum.splits intro!: tx_only_env tx_only_tx tx_only_handle tx_only_andThen)

lemma tx_only_update: "tx_only (DisbursementStore_UpdateStatus P i dec)"
  unfolding DisbursementStore_UpdateStatus_def explain_update_def Let_def
  by (auto split: sum.splits intro!: tx_only_env tx_only_tx tx_only_handle tx_only_andThen)

lemma tx_only_delete: "tx_only (DisbursementStore_SoftDelete P i)"
  unfolding DisbursementStore_SoftDelete_def explain_delete_def
  by (auto split: sum.splits intro!: tx_only_env tx_only_tx tx_only_handle tx_only_andThen)

lemma tx_only_emit: "tx_only (emit_event P a q action stamp before after)"
  unfolding emit_event_def Let_def by (intro tx_only_env tx_only_andThen tx_only_event)

lemma tx_only_update_body: "tx_only (update_body P a q i dec)"
  unfolding update_body_def
  by (intro tx_only_env tx_only_andThen tx_only_reads tx_only_update tx_only_emit)

lemma tx_only_delete_body: "tx_only (delete_body P a q i)"
  unfolding delete_body_def delete_logged_def
  by (auto split: sum.splits prod.splits
        intro!: tx_only_env tx_only_handle tx_only_andThen tx_only_reads tx_only_delete tx_only_emit)

text \<open>Reading through the pool leaves the transaction as it is.\<close>

lemma FindByID_Inr:
  assumes "DisbursementStore_FindByID P i w = (Inr x, w')"
  shows "\<exists>r. r \<in> set (disbursements (committed w)) \<and> row_ID r = i \<and> row_DeletedAt r = None
     \<and> x = mapDBDisbursementToDomain r \<and> w' = w\<lparr>calls := Suc (calls w)\<rparr>"
proof -
  obtain r1 w1 where e: "pool_exec P (findDisbursementByIDQuery i) w = (r1, w1)" by force
  then obtain r where "r1 = Inr r" "x = mapDBDisbursementToDomain r" "w' = w1"
    using assms by (cases r1) (auto simp: DisbursementStore_FindByID_def handle_def split: if_splits)
  then show ?thesis using e
    by (auto simp: pool_exec_Inr findDisbursementByIDQuery_def split: option.splits dest!: first_where_Some)
qed

lemma FindByID_working: "working (snd (DisbursementStore_FindByID P i w)) = working w
    \<and> tx_now (snd (DisbursementStore_FindByID P i w)) = tx_now w"
  by (auto simp: DisbursementStore_FindByID_def handle_def pool_exec_def Let_def fail_def ok_def
        split: sum.splits option.splits db_fault.splits if_splits)

lemma open_row_found:
  "first_where (open_row i) rows = Some r \<Longrightarrow> r \<in> set rows \<and> open_row i r \<and> row_ID r = i"
  by (auto dest!: first_where_Some simp: open_row_def)

lemma emit_event_Inr:
  assumes "emit_event P a q action stamp before after w = (Inr u, w')" "working w = Some d" "action \<in> set service_actions"
  shows "\<exists>ob. working w' = Some (d\<lparr>audit_outbox := audit_outbox d @ [ob]\<rparr>)
     \<and> ob_delivery_state ob = DeliveryPending \<and> ev_EntityID (ob_event ob) = d_ID after
     \<and> ev_Action (ob_event ob) = action \<and> ev_ActorID (ob_event ob) = a \<and> ev_RequestID (ob_event ob) = q"
proof -
  from assms(1) obtain now w1 eventID w2 event occurred where
    c: "read_clock P w = (Inr now, w1)" "new_uuid P w1 = (Inr eventID, w2)"
    and e: "NewAuditEvent P eventID ''disbursement'' (d_ID after) action a q
      (Some (marshal_Disbursement P before)) (Some (marshal_Disbursement P after)) occurred = Inr event"
    and o: "AuditOutboxStore_Insert P event w2 = (Inr u, w')"
    by (auto simp: emit_event_def andThen_Inr Let_def)
  from outbox_Insert_Inr[OF o] c assms(2) obtain ev where "convert_event P event = Inr ev"
    "working w' = Some (d\<lparr>audit_outbox := audit_outbox d @ [new_outbox_row (tx_now w2) ev]\<rparr>)"
    by (auto simp: read_clock_Inr new_uuid_Inr)
  then show ?thesis using event_fields[OF e _ assms(3)]
    by (intro exI[of _ "new_outbox_row (tx_now w2) ev"]) (simp add: new_outbox_row_def)
qed

lemma emitted_change:
  assumes r: "first_where (open_row i) (disbursements d) = Some r"
    and e: "emit_event P a q action stamp before x w = (Inr u, w')"
    and w: "working w = Some (d\<lparr>disbursements := update_where (open_row i) f (disbursements d)\<rparr>)"
    and x: "d_ID x = i" "action \<in> set service_actions"
  shows "\<exists>d'. working w' = Some d' \<and> change_recorded a q i action f d d'"
proof -
  from emit_event_Inr[OF e w x(2)] x(1) obtain ob where
    ob: "working w' = Some (d\<lparr>disbursements := update_where (open_row i) f (disbursements d), audit_outbox := audit_outbox d @ [ob]\<rparr>)"
     "ob_delivery_state ob = DeliveryPending" "ev_EntityID (ob_event ob) = i"
     "ev_Action (ob_event ob) = action" "ev_ActorID (ob_event ob) = a" "ev_RequestID (ob_event ob) = q"
    by auto
  then show ?thesis unfolding change_recorded_def using open_row_found[OF r] by blast
qed

lemma update_body_Inr:
  assumes "update_body P a q i dec w = (Inr x, w')" "working w = Some d"
  shows "\<exists>d' r nt t. working w' = Some d'
     \<and> change_recorded a q i (decision_action (dec_Status dec)) (decide_row (dec_Status dec) (dec_ActorID dec) nt t) d d'
     \<and> r \<in> set (disbursements d) \<and> open_row i r
     \<and> x = mapDBDisbursementToDomain (decide_row (dec_Status dec) (dec_ActorID dec) nt t r)"
proof -
  from assms(1) obtain before w1 w2 u where
    b: "DisbursementStore_FindByID P i w = (Inr before, w1)"
    and up: "DisbursementStore_UpdateStatus P i dec w1 = (Inr x, w2)"
    and e: "emit_event P a q (decision_action (dec_Status dec)) (d_DecidedAt x) before x w2 = (Inr u, w')"
    by (auto simp: update_body_def andThen_Inr)
  have "working w1 = Some d" using FindByID_working[of P i w] b assms(2) by simp
  from UpdateStatus_Inr[OF up this] obtain r nt t where r: "first_where (open_row i) (disbursements d) = Some r"
    and x: "x = mapDBDisbursementToDomain (decide_row (dec_Status dec) (dec_ActorID dec) nt t r)"
    and w2: "working w2 = Some (d\<lparr>disbursements := update_where (open_row i)
          (decide_row (dec_Status dec) (dec_ActorID dec) nt t) (disbursements d)\<rparr>)"
    by auto
  have id: "d_ID x = i" using open_row_found[OF r] by (simp add: x mapDBDisbursementToDomain_def)
  from emitted_change[OF r e w2 id decision_action_known] show ?thesis
    using open_row_found[OF r] x by blast
qed

lemma delete_logged_Inr:
  assumes "delete_logged P a q i before w = (Inr (x, already), w')" "working w = Some d"
  shows "\<exists>d'. working w' = Some d' \<and>
     (if already
      then d' = d \<and> (\<exists>r \<in> set (disbursements d). row_ID r = i \<and> row_DeletedAt r \<noteq> None \<and> x = mapDBDisbursementToDomain r)
      else (\<exists>r t. change_recorded a q i ''disbursement.deleted'' (delete_row t) d d'
              \<and> r \<in> set (disbursements d) \<and> open_row i r \<and> x = mapDBDisbursementToDomain (delete_row t r)))"
proof -
  from assms(1) obtain w2 where sd: "DisbursementStore_SoftDelete P i w = (Inr (x, already), w2)"
    and rest: "if already then w' = w2
      else \<exists>u. emit_event P a q ''disbursement.deleted'' (d_DeletedAt x) before x w2 = (Inr u, w')"
    by (auto simp: delete_logged_def andThen_Inr split: if_splits)
  from SoftDelete_Inr[OF sd assms(2)] show ?thesis
  proof
    assume "already \<and> working w2 = Some d \<and> (\<exists>r \<in> set (disbursements d). row_ID r = i \<and> row_DeletedAt r \<noteq> None
        \<and> x = mapDBDisbursementToDomain r)"
    then show ?thesis using rest by auto
  next
    assume "\<not> already \<and> (\<exists>r t. first_where (open_row i) (disbursements d) = Some r
       \<and> x = mapDBDisbursementToDomain (delete_row t r)
       \<and> w2 = w\<lparr>calls := calls w + 2, working := Some (d\<lparr>disbursements := update_where (open_row i)
            (delete_row t) (disbursements d)\<rparr>)\<rparr>)"
    then obtain r t u where b: "\<not> already" and r: "first_where (open_row i) (disbursements d) = Some r"
      and x: "x = mapDBDisbursementToDomain (delete_row t r)"
      and w2: "working w2 = Some (d\<lparr>disbursements := update_where (open_row i) (delete_row t) (disbursements d)\<rparr>)"
      and e: "emit_event P a q ''disbursement.deleted'' (d_DeletedAt x) before x w2 = (Inr u, w')"
      using rest by auto
    have id: "d_ID x = i" using open_row_found[OF r] by (simp add: x mapDBDisbursementToDomain_def)
    have "''disbursement.deleted'' \<in> set service_actions" by (simp add: service_actions_def)
    from emitted_change[OF r e w2 id this] show ?thesis
      using b open_row_found[OF r] x by auto
  qed
qed

lemma delete_body_Inr:
  assumes "delete_body P a q i w = (Inr z, w')"
  shows "\<exists>before w1. delete_logged P a q i before w1 = (Inr z, w') \<and> working w1 = working w"
proof -
  obtain r1 w1 where f: "DisbursementStore_FindByID P i w = (r1, w1)" by force
  have "working w1 = working w" using FindByID_working[of P i w] f by simp
  then show ?thesis using assms f
    by (cases r1) (auto simp: delete_body_def handle_def split: if_splits)
qed

text \<open>The whole operations: either nothing happened and there is an error, or the body's effect was committed.\<close>

lemma Service_UpdateStatus_cases:
  assumes run: "Service_UpdateStatus P a q i dec w = (r, w')"
  shows "(committed w' = committed w \<and> (\<exists>e. r = Inl e))
     \<or> (\<exists>x nt t rr. change_recorded a q i (decision_action (dec_Status dec)) (decide_row (dec_Status dec) a nt t)
            (committed w) (committed w')
          \<and> Decision_Validate (dec\<lparr>dec_ActorID := a\<rparr>) = None
          \<and> open_row i rr \<and> x = mapDBDisbursementToDomain (decide_row (dec_Status dec) a nt t rr)
          \<and> (r = Inr x \<or> (\<exists>e. r = Inl e)))"
proof (cases "Decision_Validate (dec\<lparr>dec_ActorID := a\<rparr>)")
  case (Some e)
  then show ?thesis using run by (auto simp: Service_UpdateStatus_def fail_def)
next
  case None
  let ?dec = "dec\<lparr>dec_ActorID := a\<rparr>"
  obtain r1 w1 where t: "WithinTransaction P (update_body P a q i ?dec) w = (r1, w1)" by force
  have out: "committed w' = committed w1 \<and> (case r1 of Inr x \<Rightarrow> r = Inr x | Inl e \<Rightarrow> \<exists>e'. r = Inl e')"
    using run None t
    by (cases r1) (auto simp: Service_UpdateStatus_def Let_def go_unfold
          split: go_error.splits if_splits)
  from t tx_only_update_body show ?thesis
  proof (cases rule: WithinTransaction_cases)
    case unchanged
    then show ?thesis using out by auto
  next
    case (committed x v1 v2)
    from update_body_Inr[OF committed(5,1)] committed(6) obtain rr nt t where
      "change_recorded a q i (decision_action (dec_Status dec)) (decide_row (dec_Status dec) a nt t) (committed w) (committed w1)"
      "open_row i rr" "x = mapDBDisbursementToDomain (decide_row (dec_Status dec) a nt t rr)" by auto
    moreover have "r = Inr x \<or> (\<exists>e. r = Inl e)" using out committed(7) by (auto split: sum.splits)
    ultimately show ?thesis using out None by metis
  qed
qed

lemma Service_SoftDelete_cases:
  assumes run: "Service_SoftDelete P a q i w = (r, w')"
  shows "(committed w' = committed w \<and> (\<exists>e. r = Inl e))
     \<or> (committed w' = committed w \<and> (\<exists>row \<in> set (disbursements (committed w)). row_ID row = i
          \<and> row_DeletedAt row \<noteq> None \<and> r = Inr (mapDBDisbursementToDomain row, True)))
     \<or> (\<exists>t rr. change_recorded a q i ''disbursement.deleted'' (delete_row t) (committed w) (committed w')
          \<and> open_row i rr \<and> (r = Inr (mapDBDisbursementToDomain (delete_row t rr), False) \<or> (\<exists>e. r = Inl e)))"
proof -
  obtain r1 w1 where t: "WithinTransaction P (delete_body P a q i) w = (r1, w1)" by force
  have out: "w' = w1 \<and> (case r1 of Inr x \<Rightarrow> r = Inr x | Inl e \<Rightarrow> \<exists>e'. r = Inl e')"
    using run t by (cases r1) (auto simp: Service_SoftDelete_def go_unfold)
  from t tx_only_delete_body show ?thesis
  proof (cases rule: WithinTransaction_cases)
    case unchanged
    then show ?thesis using out by auto
  next
    case (committed z v1 v2)
    obtain x already where z: "z = (x, already)" by force
    from delete_body_Inr[OF committed(5)[unfolded z]] obtain before v where
      "delete_logged P a q i before v = (Inr (x, already), v2)" "working v = Some (committed w)"
      using committed(1) by auto
    from delete_logged_Inr[OF this] committed(6)
    have body: "if already
      then committed w1 = committed w \<and> (\<exists>r \<in> set (disbursements (committed w)). row_ID r = i \<and> row_DeletedAt r \<noteq> None
        \<and> x = mapDBDisbursementToDomain r)
      else (\<exists>r t. change_recorded a q i ''disbursement.deleted'' (delete_row t) (committed w) (committed w1)
              \<and> r \<in> set (disbursements (committed w)) \<and> open_row i r \<and> x = mapDBDisbursementToDomain (delete_row t r))"
      by auto
    have "r = Inr (x, already) \<or> (\<exists>e. r = Inl e)" using out committed(7) z by (auto split: sum.splits)
    then show ?thesis using body out by (cases already) auto
  qed
qed

text \<open>
  C13. A decision and its audit event are atomic under every fault: after \<open>UpdateStatus\<close> either the
  database is unchanged, or exactly the open row was decided (status, decider, time) and the
  matching event is pending in the outbox. Success implies the second and returns the decided
  row; an error can hide the second only by a lost commit reply.
\<close>

theorem update_status_atomic:
  "case Service_UpdateStatus P a q i dec w of (r, w') \<Rightarrow>
     (case r of
        Inr x \<Rightarrow>
          (\<exists>nt t. change_recorded a q i (decision_action (dec_Status dec)) (decide_row (dec_Status dec) a nt t)
              (committed w) (committed w')
            \<and> d_ID x = i \<and> d_Status x = dec_Status dec \<and> d_DecidedBy x = a \<and> d_DecidedAt x = Some t)
      | Inl e \<Rightarrow>
          committed w' = committed w
          \<or> (\<exists>nt t. change_recorded a q i (decision_action (dec_Status dec)) (decide_row (dec_Status dec) a nt t)
                (committed w) (committed w')))"
proof -
  obtain r w' where run: "Service_UpdateStatus P a q i dec w = (r, w')" by force
  from Service_UpdateStatus_cases[OF run] show ?thesis unfolding run
    by (auto simp: mapDBDisbursementToDomain_def decide_row_def open_row_def split: sum.splits)
qed

text \<open>
  C14. A soft delete is atomic and idempotent under every fault: it either changes nothing, or
  marks exactly the open row deleted with the matching event pending. It reports
  \<open>already deleted\<close> only for a row that is deleted, and then nothing changed and no event was
  written.
\<close>

theorem soft_delete_atomic:
  "case Service_SoftDelete P a q i w of (r, w') \<Rightarrow>
     (case r of
        Inr (x, already) \<Rightarrow>
          if already
          then committed w' = committed w
               \<and> (\<exists>row \<in> set (disbursements (committed w)). row_ID row = i \<and> row_DeletedAt row \<noteq> None
                    \<and> x = mapDBDisbursementToDomain row)
          else (\<exists>t. change_recorded a q i ''disbursement.deleted'' (delete_row t) (committed w) (committed w')
                  \<and> d_ID x = i \<and> d_DeletedAt x = Some t \<and> d_Status x = StatusPending)
      | Inl e \<Rightarrow>
          committed w' = committed w
          \<or> (\<exists>t. change_recorded a q i ''disbursement.deleted'' (delete_row t) (committed w) (committed w')))"
proof -
  obtain r w' where run: "Service_SoftDelete P a q i w = (r, w')" by force
  from Service_SoftDelete_cases[OF run] show ?thesis unfolding run
    by (auto simp: mapDBDisbursementToDomain_def delete_row_def open_row_def StatusPending_def split: sum.splits)
qed

end
