(* ===== verification/Auth_Keys.thy ===== *)
theory Auth_Keys
  imports Platform "HOL-Library.AList"
begin

text \<open>
  \<open>internal/domain/auth.go\<close> and \<open>internal/domain/keyprovider.go\<close>: roles, identities and the keys that
  sign and verify access tokens. A Go map is an association list with distinct keys. The interface
  \<open>KeyProvider\<close> is the record of its three methods; the locale \<open>key_provider\<close> states what its users
  rely on, and \<open>StaticKeyProvider\<close>, the implementation the program runs with, is proved to keep it.
\<close>

section \<open>Roles and identities\<close>

type_synonym UserRole = string

definition RoleOperator :: UserRole where "RoleOperator = ''OPERATOR''"
definition RoleAdmin :: UserRole where "RoleAdmin = ''ADMIN''"
definition RoleSuperadmin :: UserRole where "RoleSuperadmin = ''SUPERADMIN''"

definition UserRole_IsValid :: "UserRole \<Rightarrow> bool" where
  "UserRole_IsValid role \<longleftrightarrow> role = RoleOperator \<or> role = RoleAdmin \<or> role = RoleSuperadmin"

record UserIdentity =
  id_ID :: uuid
  id_Username :: string
  id_Role :: UserRole

section \<open>Keys\<close>

record KeyProvider =
  kp_ActiveKey :: "string \<times> string"
  kp_GetKey :: "string \<Rightarrow> string option"
  kp_AllKeys :: "(string \<times> string) list"

record StaticKeyProvider =
  activeKeyID :: string
  activeSecret :: string
  legacyKeys :: "(string \<times> string) list"

text \<open>The loop that copies a map, entry by entry.\<close>

definition put_all :: "(string \<times> 'v) list \<Rightarrow> (string \<times> 'v) list \<Rightarrow> (string \<times> 'v) list" where
  "put_all entries m = foldl (\<lambda>m (k, v). AList.update k v m) m entries"

definition NewStaticKeyProvider :: "string \<Rightarrow> string \<Rightarrow> (string \<times> string) list \<Rightarrow> StaticKeyProvider" where
  "NewStaticKeyProvider keyID secret legacy =
     \<lparr>activeKeyID = (if keyID = '''' then ''v1'' else keyID), activeSecret = secret,
      legacyKeys = put_all (filter (\<lambda>(k, v). k \<noteq> '''' \<and> v \<noteq> '''') legacy) []\<rparr>"

definition ActiveKey :: "StaticKeyProvider \<Rightarrow> string \<times> string" where
  "ActiveKey p = (if activeSecret p = '''' then ('''', '''') else (activeKeyID p, activeSecret p))"

definition GetKey :: "StaticKeyProvider \<Rightarrow> string \<Rightarrow> string option" where
  "GetKey p keyID =
     (if activeSecret p = '''' \<and> legacyKeys p = [] then None
      else if (keyID = '''' \<or> keyID = activeKeyID p) \<and> activeSecret p \<noteq> '''' then Some (activeSecret p)
      else case map_of (legacyKeys p) keyID of
             Some secret \<Rightarrow> if secret \<noteq> '''' then Some secret else None
           | None \<Rightarrow> None)"

definition AllKeys :: "StaticKeyProvider \<Rightarrow> (string \<times> string) list" where
  "AllKeys p = put_all (legacyKeys p) (if activeSecret p \<noteq> '''' then [(activeKeyID p, activeSecret p)] else [])"

definition static_provider :: "StaticKeyProvider \<Rightarrow> KeyProvider" where
  "static_provider p = \<lparr>kp_ActiveKey = ActiveKey p, kp_GetKey = GetKey p, kp_AllKeys = AllKeys p\<rparr>"

section \<open>What users of the interface rely on\<close>

locale key_provider =
  fixes kp :: KeyProvider
  assumes active_found: "kp_ActiveKey kp = (kid, secret) \<Longrightarrow> secret \<noteq> '''' \<Longrightarrow> kp_GetKey kp kid = Some secret"
    and secret_nonempty: "kp_GetKey kp k = Some secret \<Longrightarrow> secret \<noteq> ''''"
    and listed_nonempty: "(k, secret) \<in> set (kp_AllKeys kp) \<Longrightarrow> secret \<noteq> ''''"
    and listed_once: "distinct (map fst (kp_AllKeys kp))"
begin

text \<open>The secrets a token may be verified with.\<close>

definition trusted :: "string \<Rightarrow> bool" where
  "trusted secret \<longleftrightarrow> secret \<noteq> ''''
     \<and> ((\<exists>k. kp_GetKey kp k = Some secret) \<or> secret = snd (kp_ActiveKey kp) \<or> secret \<in> snd ` set (kp_AllKeys kp))"

lemma trusted_nonempty: "trusted secret \<Longrightarrow> secret \<noteq> ''''"
  by (simp add: trusted_def)

lemma trusted_GetKey: "kp_GetKey kp k = Some secret \<Longrightarrow> trusted secret"
  using secret_nonempty by (auto simp: trusted_def)

lemma trusted_AllKeys: "(k, secret) \<in> set (kp_AllKeys kp) \<Longrightarrow> trusted secret"
  using listed_nonempty by (force simp: trusted_def)

lemma trusted_ActiveKey: "snd (kp_ActiveKey kp) \<noteq> '''' \<Longrightarrow> trusted (snd (kp_ActiveKey kp))"
  by (simp add: trusted_def)

end

section \<open>The static provider keeps it\<close>

lemma put_all_simps [simp]:
  "put_all [] m = m" "put_all ((k, v) # es) m = put_all es (AList.update k v m)"
  by (simp_all add: put_all_def)

lemma put_all_distinct: "distinct (map fst m) \<Longrightarrow> distinct (map fst (put_all es m))"
  by (induction es arbitrary: m) (auto simp: distinct_update)

lemma set_update_subset: "set (AList.update k v m) \<subseteq> insert (k, v) (set m)"
  by (induction m) auto

lemma put_all_subset: "set (put_all es m) \<subseteq> set es \<union> set m"
proof (induction es arbitrary: m)
  case (Cons e es)
  obtain k v where "e = (k, v)" by (cases e)
  then show ?case using Cons[of "AList.update k v m"] set_update_subset[of k v m] by auto
qed simp

lemma legacy_nonempty: "(k, v) \<in> set (legacyKeys (NewStaticKeyProvider keyID secret legacy)) \<Longrightarrow> v \<noteq> '''' \<and> k \<noteq> ''''"
  using put_all_subset[of "filter (\<lambda>(k, v). k \<noteq> '''' \<and> v \<noteq> '''') legacy" "[]"]
  by (auto simp: NewStaticKeyProvider_def)

lemma AllKeys_nonempty:
  assumes "(k, v) \<in> set (AllKeys (NewStaticKeyProvider keyID secret legacy))"
  shows "v \<noteq> ''''"
proof -
  let ?p = "NewStaticKeyProvider keyID secret legacy"
  let ?a = "if activeSecret ?p \<noteq> '''' then [(activeKeyID ?p, activeSecret ?p)] else []"
  have "(k, v) \<in> set (legacyKeys ?p) \<or> (k, v) \<in> set ?a"
    using assms put_all_subset[of "legacyKeys ?p" ?a] unfolding AllKeys_def by blast
  then show ?thesis using legacy_nonempty[of k v keyID secret legacy] by (auto split: if_splits)
qed

interpretation static: key_provider "static_provider (NewStaticKeyProvider keyID secret legacy)"
  for keyID secret legacy
proof (unfold_locales, goal_cases)
  case (1 kid s)
  then show ?case by (auto simp: static_provider_def ActiveKey_def GetKey_def split: if_splits)
next
  case (2 k s)
  then show ?case by (auto simp: static_provider_def GetKey_def split: if_splits option.splits)
next
  case (3 k s)
  then show ?case using AllKeys_nonempty by (simp add: static_provider_def)
next
  case 4
  show ?case by (auto simp: static_provider_def AllKeys_def intro!: put_all_distinct)
qed

end
