(* ===== verification/Session_Store.thy ===== *)
theory Session_Store
  imports Database
begin

text \<open>
  \<open>internal/repository/postgres/refresh_session.go\<close> and \<open>user.go\<close>: refresh sessions and the lookup of
  users. \<open>FindByTokenHash\<close> reads through the transaction it is given, or through the pool when it
  is given none.
\<close>

record User =
  us_ID :: uuid
  us_Username :: string
  us_PasswordHash :: string
  us_Role :: string

record RefreshSession =
  se_ID :: uuid
  se_UserID :: uuid
  se_TokenHash :: string
  se_ExpiresAt :: time
  se_RevokedAt :: "time option"
  se_ReplacedByID :: "uuid option"

section \<open>Statements\<close>

definition insert_session :: "platform \<Rightarrow> RefreshSession \<Rightarrow> time \<Rightarrow> unit stmt" where
  "insert_session P session created t d =
     (case text_column (se_TokenHash session) of
        Inl e \<Rightarrow> (Inl e, d)
      | Inr hash \<Rightarrow>
          (let row = \<lparr>rs_id = se_ID session, rs_user_id = se_UserID session, rs_token_hash = hash,
                      rs_expires_at = pg_timestamptz P (se_ExpiresAt session), rs_revoked_at = None,
                      rs_replaced_by_id = None, rs_created_at = created\<rparr>
           in if \<not> session_check row then (Inl (pg_error ''23514''), d)
              else if \<exists>r \<in> set (refresh_sessions d).
                        rs_id r = rs_id row \<or> rs_token_hash r = rs_token_hash row
              then (Inl (pg_error ''23505''), d)
              else if \<not> user_exists d (rs_user_id row) then (Inl (pg_error ''23503''), d)
              else (Inr (), d\<lparr>refresh_sessions := refresh_sessions d @ [row]\<rparr>)))"

definition find_session :: "string \<Rightarrow> session_row stmt" where
  "find_session tokenHash = with_text tokenHash (\<lambda>t d.
     (case first_where (\<lambda>r. rs_token_hash r = tokenHash) (refresh_sessions d) of
        None \<Rightarrow> Inl ErrNoRows | Some r \<Rightarrow> Inr r, d))"

definition live_session :: "platform \<Rightarrow> string \<Rightarrow> time \<Rightarrow> session_row \<Rightarrow> bool" where
  "live_session P tokenHash now r \<longleftrightarrow>
     rs_token_hash r = tokenHash \<and> rs_revoked_at r = None \<and> rs_expires_at r > pg_timestamptz P now"

definition replace_session :: "platform \<Rightarrow> time \<Rightarrow> uuid \<Rightarrow> session_row \<Rightarrow> session_row" where
  "replace_session P now i r =
     r\<lparr>rs_revoked_at := Some (pg_timestamptz P now), rs_replaced_by_id := Some i\<rparr>"

definition rotate_session :: "platform \<Rightarrow> time \<Rightarrow> uuid \<Rightarrow> string \<Rightarrow> nat stmt" where
  "rotate_session P now newID oldTokenHash = with_text oldTokenHash (\<lambda>t d.
     let p = live_session P oldTokenHash now; n = affected p (refresh_sessions d)
     in if n > 1
           \<or> n = 1 \<and> (\<exists>r \<in> set (refresh_sessions d). \<not> p r \<and> rs_replaced_by_id r = Some newID)
        then (Inl (pg_error ''23505''), d)
        else (Inr n, d\<lparr>refresh_sessions :=
                update_where p (replace_session P now newID) (refresh_sessions d)\<rparr>))"

definition active_session :: "string \<Rightarrow> session_row \<Rightarrow> bool" where
  "active_session tokenHash r \<longleftrightarrow> rs_token_hash r = tokenHash \<and> rs_revoked_at r = None"

definition revoke_session :: "platform \<Rightarrow> time \<Rightarrow> string \<Rightarrow> nat stmt" where
  "revoke_session P now tokenHash = with_text tokenHash (\<lambda>t d.
     (Inr (affected (active_session tokenHash) (refresh_sessions d)),
      d\<lparr>refresh_sessions := update_where (active_session tokenHash)
          (\<lambda>r. r\<lparr>rs_revoked_at := Some (pg_timestamptz P now)\<rparr>) (refresh_sessions d)\<rparr>))"

definition find_user_by_id :: "uuid \<Rightarrow> user_row stmt" where
  "find_user_by_id i t d =
     (case first_where (\<lambda>r. ur_id r = i) (users d) of None \<Rightarrow> Inl ErrNoRows | Some r \<Rightarrow> Inr r, d)"

definition find_user_by_username :: "string \<Rightarrow> user_row stmt" where
  "find_user_by_username username = with_text username (\<lambda>t d.
     (case first_where (\<lambda>r. ur_username r = username) (users d) of
        None \<Rightarrow> Inl ErrNoRows | Some r \<Rightarrow> Inr r, d))"

lemmas session_stmts [stmt_defs] =
  insert_session_def find_session_def rotate_session_def revoke_session_def
  find_user_by_id_def find_user_by_username_def

section \<open>The stores\<close>

definition scan_user :: "user_row \<Rightarrow> User" where
  "scan_user r = \<lparr>us_ID = ur_id r, us_Username = ur_username r, us_PasswordHash = ur_password_hash r,
                  us_Role = ur_role r\<rparr>"

definition scan_session :: "session_row \<Rightarrow> RefreshSession" where
  "scan_session r = \<lparr>se_ID = rs_id r, se_UserID = rs_user_id r, se_TokenHash = rs_token_hash r,
                     se_ExpiresAt = rs_expires_at r, se_RevokedAt = rs_revoked_at r,
                     se_ReplacedByID = rs_replaced_by_id r\<rparr>"

definition RefreshSessionStore_Create :: "platform \<Rightarrow> RefreshSession \<Rightarrow> unit go" where
  "RefreshSessionStore_Create P session =
     andThen unwrapTransaction (\<lambda>_.
     handle (tx_exec P (\<lambda>t. insert_session P session t t)) (\<lambda>r.
       case r of Inl err \<Rightarrow> fail (Classify err) | Inr _ \<Rightarrow> ok ()))"

definition RefreshSessionStore_FindByTokenHash :: "platform \<Rightarrow> bool \<Rightarrow> string \<Rightarrow> RefreshSession go" where
  "RefreshSessionStore_FindByTokenHash P in_transaction tokenHash =
     handle (if in_transaction then tx_exec P (find_session tokenHash)
             else pool_exec P (find_session tokenHash)) (\<lambda>r.
       case r of Inl err \<Rightarrow> fail (Classify err) | Inr row \<Rightarrow> ok (scan_session row))"

definition RefreshSessionStore_Rotate :: "platform \<Rightarrow> string \<Rightarrow> RefreshSession \<Rightarrow> time \<Rightarrow> unit go" where
  "RefreshSessionStore_Rotate P oldTokenHash newSession now =
     andThen unwrapTransaction (\<lambda>_.
     handle (tx_exec P (insert_session P newSession (pg_timestamptz P now))) (\<lambda>r.
       case r of
         Inl err \<Rightarrow> fail (Classify err)
       | Inr _ \<Rightarrow>
           handle (tx_exec P (rotate_session P now (se_ID newSession) oldTokenHash)) (\<lambda>r'.
             case r' of
               Inl err \<Rightarrow> fail (Classify err)
             | Inr rows \<Rightarrow>
                 if rows = 0 then fail (RepositoryError ErrorNotFound ErrNoRows) else ok ())))"

definition RefreshSessionStore_RevokeByTokenHash :: "platform \<Rightarrow> string \<Rightarrow> time \<Rightarrow> unit go" where
  "RefreshSessionStore_RevokeByTokenHash P tokenHash now =
     andThen unwrapTransaction (\<lambda>_.
     handle (tx_exec P (revoke_session P now tokenHash)) (\<lambda>r.
       case r of Inl err \<Rightarrow> fail (Classify err) | Inr _ \<Rightarrow> ok ()))"

definition UserStore_FindByID :: "platform \<Rightarrow> uuid \<Rightarrow> User go" where
  "UserStore_FindByID P i =
     handle (pool_exec P (find_user_by_id i)) (\<lambda>r.
       case r of Inl err \<Rightarrow> fail (Classify err) | Inr row \<Rightarrow> ok (scan_user row))"

definition UserStore_FindByUsername :: "platform \<Rightarrow> string \<Rightarrow> User go" where
  "UserStore_FindByUsername P username =
     handle (pool_exec P (find_user_by_username username)) (\<lambda>r.
       case r of Inl err \<Rightarrow> fail (Classify err) | Inr row \<Rightarrow> ok (scan_user row))"

section \<open>What the statements keep\<close>

locale session_evolution = db_evolution +
  assumes R_session_insert: "R d (snd (insert_session P session created t d))"
    and R_rotate: "R d (snd (rotate_session P now i tokenHash t d))"
    and R_revoke: "R d (snd (revoke_session P now tokenHash t d))"
begin

lemma R_session_reads:
  "R d (snd (find_session h t d))" "R d (snd (find_user_by_id i t d))"
  "R d (snd (find_user_by_username u t d))"
  by (simp_all add: stmt_defs evo_refl)

lemma evolves_Create: "evolves R (RefreshSessionStore_Create P session)"
  unfolding RefreshSessionStore_Create_def
  by (auto split: sum.splits intro!: evo_intros R_session_insert)

lemma evolves_FindByTokenHash: "evolves R (RefreshSessionStore_FindByTokenHash P tx tokenHash)"
  unfolding RefreshSessionStore_FindByTokenHash_def
  by (auto split: sum.splits intro!: evo_intros R_session_reads)

lemma evolves_Rotate: "evolves R (RefreshSessionStore_Rotate P tokenHash session now)"
  unfolding RefreshSessionStore_Rotate_def
  by (auto split: sum.splits intro!: evo_intros R_session_insert R_rotate)

lemma evolves_Revoke: "evolves R (RefreshSessionStore_RevokeByTokenHash P tokenHash now)"
  unfolding RefreshSessionStore_RevokeByTokenHash_def
  by (auto split: sum.splits intro!: evo_intros R_revoke)

lemma evolves_users: "evolves R (UserStore_FindByID P i)" "evolves R (UserStore_FindByUsername P u)"
  unfolding UserStore_FindByID_def UserStore_FindByUsername_def
  by (auto split: sum.splits intro!: evo_intros R_session_reads)

end

lemma unique_replacement_step:
  assumes f: "\<And>r. p r \<Longrightarrow> rs_replaced_by_id (f r) = Some i"
    and "affected p rows \<le> 1" "\<forall>r \<in> set rows. \<not> p r \<longrightarrow> rs_replaced_by_id r \<noteq> Some i"
    and "unique_by rs_replaced_by_id (filter (\<lambda>r. rs_replaced_by_id r \<noteq> None) rows)"
  shows "unique_by rs_replaced_by_id (filter (\<lambda>r. rs_replaced_by_id r \<noteq> None) (update_where p f rows))"
  using assms(2-4)
proof (induction rows)
  case (Cons a rows)
  show ?case
  proof (cases "p a")
    case True
    then have none: "\<forall>r \<in> set rows. \<not> p r" using Cons.prems(1) by (simp add: affected_def filter_empty_conv)
    then have "update_where p f (a # rows) = f a # rows"
      using True update_where_none[of rows p f] by (simp add: update_where_def)
    moreover have "\<forall>r \<in> set rows. rs_replaced_by_id r \<noteq> Some i" using none Cons.prems(2) by simp
    ultimately show ?thesis using Cons.prems(3) f[OF True]
      by (auto simp: unique_by_def split: if_splits)
  next
    case False
    have IH: "unique_by rs_replaced_by_id (filter (\<lambda>r. rs_replaced_by_id r \<noteq> None) (update_where p f rows))"
      using Cons.IH Cons.prems False by (auto simp: unique_by_def affected_def split: if_splits)
    have eq: "update_where p f (a # rows) = a # update_where p f rows"
      using False by (simp add: update_where_def)
    have fresh: "rs_replaced_by_id a \<noteq> rs_replaced_by_id x"
      if x: "x \<in> set (update_where p f rows)" "rs_replaced_by_id x \<noteq> None" for x
    proof -
      obtain y where y: "y \<in> set rows" "p y \<and> x = f y \<or> \<not> p y \<and> x = y" using in_update_where[OF x(1)] by blast
      show ?thesis
      proof (cases "p y")
        case True
        then have "rs_replaced_by_id x = Some i" using y f by simp
        moreover have "rs_replaced_by_id a \<noteq> Some i" using Cons.prems(2) False by simp
        ultimately show ?thesis by simp
      next
        case False
        then have "x \<in> set rows" using y by simp
        then show ?thesis using Cons.prems(3) x(2) by (auto simp: unique_by_def image_iff split: if_splits)
      qed
    qed
    then show ?thesis using IH unfolding eq by (auto simp: unique_by_def)
  qed
qed (simp add: update_where_def)

lemma unique_replacement:
  assumes f: "\<And>r. p r \<Longrightarrow> rs_replaced_by_id (f r) = Some i" and "affected p rows \<le> 1"
    and "affected p rows = 0 \<or> (\<forall>r \<in> set rows. \<not> p r \<longrightarrow> rs_replaced_by_id r \<noteq> Some i)"
    and u: "unique_by rs_replaced_by_id (filter (\<lambda>r. rs_replaced_by_id r \<noteq> None) rows)"
  shows "unique_by rs_replaced_by_id (filter (\<lambda>r. rs_replaced_by_id r \<noteq> None) (update_where p f rows))"
  using assms(3)
proof
  assume "affected p rows = 0"
  then have none: "\<forall>r \<in> set rows. \<not> p r" by (simp only: affected_0)
  show ?thesis unfolding update_where_none[OF none] by (rule u)
next
  assume "\<forall>r \<in> set rows. \<not> p r \<longrightarrow> rs_replaced_by_id r \<noteq> Some i"
  from f assms(2) this u show ?thesis by (rule unique_replacement_step)
qed

lemma session_updates [simp]:
  "rs_id (replace_session P now i r) = rs_id r"
  "rs_token_hash (replace_session P now i r) = rs_token_hash r"
  "rs_user_id (replace_session P now i r) = rs_user_id r"
  "rs_replaced_by_id (replace_session P now i r) = Some i"
  "session_check (replace_session P now i r) = session_check r"
  by (simp_all add: replace_session_def session_check_def)

lemma unique_replaced_revoke:
  assumes "\<And>r. rs_replaced_by_id (f r) = rs_replaced_by_id r"
    and "unique_by rs_replaced_by_id (filter (\<lambda>r. rs_replaced_by_id r \<noteq> None) rows)"
  shows "unique_by rs_replaced_by_id (filter (\<lambda>r. rs_replaced_by_id r \<noteq> None) (update_where p f rows))"
proof -
  have "map rs_replaced_by_id (filter (\<lambda>r. rs_replaced_by_id r \<noteq> None) (update_where p f rows))
      = map rs_replaced_by_id (filter (\<lambda>r. rs_replaced_by_id r \<noteq> None) rows)"
    by (induction rows) (auto simp: update_where_def assms(1))
  then show ?thesis using assms(2) by (simp add: unique_by_def)
qed

interpretation schema: session_evolution schema_kept
proof (unfold_locales, goal_cases)
  case (1 d P session created t)
  have "db_ok (d\<lparr>refresh_sessions := refresh_sessions d @ [row]\<rparr>)"
    if "db_ok d" "session_check row" "user_exists d (rs_user_id row)" "rs_replaced_by_id row = None"
      "\<forall>r \<in> set (refresh_sessions d). rs_id r \<noteq> rs_id row \<and> rs_token_hash r \<noteq> rs_token_hash row" for row
    using that db_okD(5,6,13)[OF that(1)]
    by (intro db_ok_refresh_sessions unique_by_append) (auto simp: db_ok_def)
  then show ?case unfolding schema_kept_def insert_session_def
    by (auto simp: Let_def split: sum.splits)
next
  case (2 d P now i tokenHash t)
  let ?p = "live_session P tokenHash now"
  have "db_ok (d\<lparr>refresh_sessions := update_where ?p (replace_session P now i) (refresh_sessions d)\<rparr>)"
    if "db_ok d" "affected ?p (refresh_sessions d) \<le> 1"
      "affected ?p (refresh_sessions d) = 0
       \<or> (\<forall>r \<in> set (refresh_sessions d). \<not> ?p r \<longrightarrow> rs_replaced_by_id r \<noteq> Some i)"
    using that db_okD(5,6,13)[OF that(1)]
    by (intro db_ok_refresh_sessions unique_by_update unique_replacement[where i = i])
       (auto simp: db_ok_def dest!: in_update_where)
  moreover have "n \<le> 1 \<longleftrightarrow> n = 0 \<or> n = 1" "n > 1 \<longleftrightarrow> \<not> n \<le> 1" for n :: nat by auto
  ultimately show ?case unfolding schema_kept_def rotate_session_def with_text_def Let_def
    by (smt (verit) prod.sel(2))
next
  case (3 d P now tokenHash t)
  let ?f = "\<lambda>r. r\<lparr>rs_revoked_at := Some (pg_timestamptz P now)\<rparr>"
  have "db_ok (d\<lparr>refresh_sessions := update_where (active_session tokenHash) ?f (refresh_sessions d)\<rparr>)"
    if "db_ok d"
    using that db_okD(5,6,13)[OF that]
    by (intro db_ok_refresh_sessions unique_by_update unique_replaced_revoke)
       (auto simp: db_ok_def session_check_def dest!: in_update_where)
  then show ?case unfolding schema_kept_def revoke_session_def by (simp add: with_text_def)
qed

interpretation history: session_evolution history_kept
  by unfold_locales (rule history_same, simp add: stmt_defs Let_def split: sum.splits)+

interpretation logs: session_evolution logs_kept
  by unfold_locales (auto simp: logs_kept_def stmt_defs Let_def split: sum.splits)

end
