(* ===== verification/Auth_Service.thy ===== *)
theory Auth_Service
  imports Auth_Keys Session_Store Go_Float
begin

text \<open>
  \<open>internal/service/auth/service.go\<close> and \<open>internal/httpapi/dto/auth.go\<close>: login, refresh, logout and the
  access token. The JWT package is an argument, a record of the three calls the program makes.
\<close>

section \<open>The service\<close>

text \<open>
  \<open>SignedString\<close> of a token with a header and claims under a secret; the header that \<open>ParseUnverified\<close>
  reads; \<open>Parse\<close> at an instant with a key function, which is given the algorithm of the token, and
  yields the validity flag and the claims.
\<close>

record jwt_library =
  jwt_SignedString :: "(string \<times> json) list \<Rightarrow> (string \<times> json) list \<Rightarrow> string \<Rightarrow> go_error + string"
  jwt_ParseUnverified :: "string \<Rightarrow> (string \<times> json) list option"
  jwt_Parse :: "string \<Rightarrow> time \<Rightarrow> (string \<Rightarrow> go_error + string) \<Rightarrow> go_error + (bool \<times> (string \<times> json) list)"

record LoginRequest =
  lr_Username :: string
  lr_Password :: string

record RefreshRequest =
  rr_RefreshToken :: string

record LogoutRequest =
  lo_RefreshToken :: string

record TokenResponse =
  tr_AccessToken :: string
  tr_RefreshToken :: string
  tr_TokenType :: string
  tr_ExpiresIn :: int
  tr_RefreshExpiresIn :: int

record auth_service =
  as_keyProvider :: KeyProvider
  as_jwtIssuer :: string
  as_jwtAudience :: string
  as_accessTokenTTL :: duration
  as_refreshTokenTTL :: duration

text \<open>The stores and the transactor are always given; the key provider may be nil.\<close>

definition NewServiceWithKeyProvider :: "KeyProvider option \<Rightarrow> string \<Rightarrow> string \<Rightarrow> duration \<Rightarrow> duration \<Rightarrow> go_error + auth_service" where
  "NewServiceWithKeyProvider keyProvider jwtIssuer jwtAudience accessTokenTTL refreshTokenTTL =
     (case keyProvider of
        None \<Rightarrow> Inl (PlainError ''keyProvider must not be nil'')
      | Some kp \<Rightarrow>
          if snd (kp_ActiveKey kp) = '''' then Inl (PlainError ''keyProvider active secret must not be empty'')
          else Inr \<lparr>as_keyProvider = kp,
                    as_jwtIssuer = (if jwtIssuer = '''' then ''disbursement-api'' else jwtIssuer),
                    as_jwtAudience = (if jwtAudience = '''' then ''disbursement-api-users'' else jwtAudience),
                    as_accessTokenTTL = accessTokenTTL, as_refreshTokenTTL = refreshTokenTTL\<rparr>)"

definition NewServiceWithIssuerAudience :: "string \<Rightarrow> string \<Rightarrow> string \<Rightarrow> duration \<Rightarrow> duration \<Rightarrow> go_error + auth_service" where
  "NewServiceWithIssuerAudience jwtSecret =
     NewServiceWithKeyProvider (Some (static_provider (NewStaticKeyProvider ''v1'' jwtSecret [])))"

definition NewService :: "string \<Rightarrow> duration \<Rightarrow> duration \<Rightarrow> go_error + auth_service" where
  "NewService jwtSecret = NewServiceWithIssuerAudience jwtSecret ''disbursement-api'' ''disbursement-api-users''"

text \<open>\<open>hex.EncodeToString\<close>\<close>

definition EncodeToString :: "string \<Rightarrow> string" where
  "EncodeToString bytes = concat (map (\<lambda>c. [hex_digit (byte_val c div 16), hex_digit (byte_val c mod 16)]) bytes)"

definition hashToken :: "platform \<Rightarrow> string \<Rightarrow> string" where
  "hashToken P token = EncodeToString (Sum256 P token)"

definition token_claims :: "platform \<Rightarrow> auth_service \<Rightarrow> User \<Rightarrow> time \<Rightarrow> (string \<times> json) list" where
  "token_claims P s user now =
     [(''sub'', json_uuid P (us_ID user)), (''username'', json_string (us_Username user)),
      (''role'', json_string (us_Role user)), (''iss'', json_string (as_jwtIssuer s)),
      (''aud'', json_string (as_jwtAudience s)), (''iat'', json_int (Unix now)),
      (''exp'', json_int (Unix (now + as_accessTokenTTL s)))]"

text \<open>\<open>jwt.NewWithClaims\<close> sets the header fields \<open>typ\<close> and \<open>alg\<close>.\<close>

definition token_header :: "string \<Rightarrow> (string \<times> json) list" where
  "token_header keyID =
     [(''typ'', JStr ''JWT''), (''alg'', JStr ''HS256'')] @ (if keyID \<noteq> '''' then [(''kid'', json_string keyID)] else [])"

definition generateAccessToken :: "platform \<Rightarrow> jwt_library \<Rightarrow> auth_service \<Rightarrow> User \<Rightarrow> time \<Rightarrow> go_error + string" where
  "generateAccessToken P J s user now =
     (let (keyID, secret) = kp_ActiveKey (as_keyProvider s)
      in jwt_SignedString J (token_header keyID) (token_claims P s user now) secret)"

definition token_response :: "auth_service \<Rightarrow> string \<Rightarrow> string \<Rightarrow> TokenResponse" where
  "token_response s accessToken refreshToken =
     \<lparr>tr_AccessToken = accessToken, tr_RefreshToken = refreshToken, tr_TokenType = ''Bearer'',
      tr_ExpiresIn = float_to_int64 (duration_Seconds (as_accessTokenTTL s)),
      tr_RefreshExpiresIn = float_to_int64 (duration_Seconds (as_refreshTokenTTL s))\<rparr>"

text \<open>\<open>errors.As(err, &repoErr) && repoErr.Category == repository.ErrorNotFound\<close>\<close>

definition category_not_found :: "go_error \<Rightarrow> bool" where
  "category_not_found err \<longleftrightarrow> (case as_repository_error err of Some (c, _) \<Rightarrow> c = ErrorNotFound | None \<Rightarrow> False)"

definition new_session :: "platform \<Rightarrow> uuid \<Rightarrow> uuid \<Rightarrow> string \<Rightarrow> time \<Rightarrow> RefreshSession" where
  "new_session P i user token expires =
     \<lparr>se_ID = i, se_UserID = user, se_TokenHash = hashToken P token, se_ExpiresAt = expires,
      se_RevokedAt = None, se_ReplacedByID = None\<rparr>"

text \<open>
  The comparison of the password with a dummy hash when the user is unknown only takes time. In
  \<open>rejected_login\<close> the metric is recorded and the error returned.
\<close>

definition rejected_login :: "'a go" where
  "rejected_login =
     andThen (record_metric (RecordAuthFailure ''invalid_credentials'')) (\<lambda>_. fail (DomainError InvalidCredentials))"

definition open_session :: "platform \<Rightarrow> jwt_library \<Rightarrow> auth_service \<Rightarrow> User \<Rightarrow> TokenResponse go" where
  "open_session P J s user =
     andThen (read_clock P) (\<lambda>now.
     andThen (lift_result (generateAccessToken P J s user now)) (\<lambda>accessToken.
     andThen (new_uuid P) (\<lambda>token.
     let refreshTokenString = uuid_String P token in
     andThen (new_uuid P) (\<lambda>sessionID.
     let session = new_session P sessionID (us_ID user) refreshTokenString (now + as_refreshTokenTTL s) in
     andThen (WithinTransaction P (RefreshSessionStore_Create P session)) (\<lambda>_.
     ok (token_response s accessToken refreshTokenString))))))"

definition Auth_Login :: "platform \<Rightarrow> jwt_library \<Rightarrow> auth_service \<Rightarrow> LoginRequest \<Rightarrow> TokenResponse go" where
  "Auth_Login P J s req =
     handle (UserStore_FindByUsername P (lr_Username req)) (\<lambda>r.
       case r of
         Inl err \<Rightarrow> if category_not_found err then rejected_login else fail err
       | Inr user \<Rightarrow>
           if \<not> CompareHashAndPassword P (us_PasswordHash user) (lr_Password req) then rejected_login
           else open_session P J s user)"

text \<open>\<open>refresh_body\<close> is the transaction's closure; its value is the new refresh token and the access token.\<close>

definition rotate_session_of :: "platform \<Rightarrow> jwt_library \<Rightarrow> auth_service \<Rightarrow> string \<Rightarrow> time \<Rightarrow> User \<Rightarrow> (string \<times> string) go" where
  "rotate_session_of P J s oldTokenHash now user =
     andThen (new_uuid P) (\<lambda>token.
     let newRefreshTokenString = uuid_String P token in
     andThen (new_uuid P) (\<lambda>sessionID.
     let newSession = new_session P sessionID (us_ID user) newRefreshTokenString (now + as_refreshTokenTTL s) in
     handle (RefreshSessionStore_Rotate P oldTokenHash newSession now) (\<lambda>r.
       case r of
         Inl err \<Rightarrow> fail (if category_not_found err then DomainError InvalidRefreshToken else err)
       | Inr _ \<Rightarrow>
           andThen (lift_result (generateAccessToken P J s user now)) (\<lambda>accessToken.
           ok (newRefreshTokenString, accessToken)))))"

definition refresh_body :: "platform \<Rightarrow> jwt_library \<Rightarrow> auth_service \<Rightarrow> string \<Rightarrow> time \<Rightarrow> (string \<times> string) go" where
  "refresh_body P J s oldTokenHash now =
     handle (RefreshSessionStore_FindByTokenHash P True oldTokenHash) (\<lambda>r.
       case r of
         Inl err \<Rightarrow> fail (if category_not_found err then DomainError InvalidRefreshToken else err)
       | Inr oldSession \<Rightarrow>
           if se_RevokedAt oldSession \<noteq> None \<or> \<not> se_ExpiresAt oldSession > now
           then fail (DomainError InvalidRefreshToken)
           else handle (UserStore_FindByID P (se_UserID oldSession)) (\<lambda>r'.
                  case r' of
                    Inl err \<Rightarrow> fail (DomainError InvalidRefreshToken)
                  | Inr user \<Rightarrow> rotate_session_of P J s oldTokenHash now user))"

definition Auth_Refresh :: "platform \<Rightarrow> jwt_library \<Rightarrow> auth_service \<Rightarrow> RefreshRequest \<Rightarrow> TokenResponse go" where
  "Auth_Refresh P J s req =
     (if rr_RefreshToken req = '''' then fail (DomainError InvalidRefreshToken)
      else
        let oldTokenHash = hashToken P (rr_RefreshToken req) in
        andThen (read_clock P) (\<lambda>now.
        handle (WithinTransaction P (refresh_body P J s oldTokenHash now)) (\<lambda>r.
          case r of
            Inl err \<Rightarrow> andThen (record_metric (RecordAuthFailure ''invalid_refresh_token'')) (\<lambda>_. fail err)
          | Inr (newRefreshTokenString, accessToken) \<Rightarrow> ok (token_response s accessToken newRefreshTokenString))))"

definition Auth_Logout :: "platform \<Rightarrow> LogoutRequest \<Rightarrow> unit go" where
  "Auth_Logout P req =
     (if lo_RefreshToken req = '''' then ok ()
      else
        let tokenHash = hashToken P (lo_RefreshToken req) in
        andThen (read_clock P) (\<lambda>now.
        WithinTransaction P (RefreshSessionStore_RevokeByTokenHash P tokenHash now)))"

end
