(* ===== verification/Go_Duration.thy ===== *)
theory Go_Duration
  imports Auth_Service
begin

text \<open>
  The parts of \<open>strconv\<close>, \<open>strings\<close> and \<open>time\<close> that reading the configuration uses: \<open>ParseInt\<close> in base 10
  (and \<open>Atoi\<close>, the same on a 64-bit platform), \<open>Split\<close> at a byte, and \<open>ParseDuration\<close> with its
  unsigned 64-bit sums and its floating-point fractions.
\<close>

section \<open>Integers\<close>

definition decimal_value :: "string \<Rightarrow> int" where
  "decimal_value s = foldl (\<lambda>n c. n * 10 + (int (byte_val c) - 48)) 0 s"

definition split_sign :: "string \<Rightarrow> bool \<times> string" where
  "split_sign s =
     (case s of [] \<Rightarrow> (False, []) | c # cs \<Rightarrow> if c = CHR ''-'' then (True, cs) else if c = CHR ''+'' then (False, cs) else (False, s))"

definition ParseInt :: "string \<Rightarrow> int option" where
  "ParseInt s =
     (case split_sign s of (neg, ds) \<Rightarrow>
        if ds = [] \<or> \<not> list_all is_digit_byte ds then None
        else let n = decimal_value ds
             in if neg then (if n > 2 ^ 63 then None else Some (- n)) else (if n \<ge> 2 ^ 63 then None else Some n))"

section \<open>Splitting\<close>

text \<open>\<open>strings.Split(s, sep)\<close> for a separator of one byte: at least one part.\<close>

fun split_at :: "char \<Rightarrow> string \<Rightarrow> string list" where
  "split_at sep [] = [[]]"
| "split_at sep (c # cs) =
     (if c = sep then [] # split_at sep cs
      else case split_at sep cs of [] \<Rightarrow> [[c]] | p # ps \<Rightarrow> (c # p) # ps)"

text \<open>\<open>strings.SplitN(s, sep, 2)\<close> when it has two parts.\<close>

definition split_once :: "char \<Rightarrow> string \<Rightarrow> (string \<times> string) option" where
  "split_once sep s =
     (case dropWhile (\<lambda>c. c \<noteq> sep) s of [] \<Rightarrow> None | _ # rest \<Rightarrow> Some (takeWhile (\<lambda>c. c \<noteq> sep) s, rest))"

section \<open>Durations\<close>

text \<open>Digits from the front, \<open>None\<close> on overflow of \<open>1 << 63\<close>, with the rest.\<close>

fun leadingInt :: "string \<Rightarrow> int \<Rightarrow> (int \<times> string) option" where
  "leadingInt [] x = Some (x, [])"
| "leadingInt (c # cs) x =
     (if \<not> is_digit_byte c then Some (x, c # cs)
      else if x > 2 ^ 63 div 10 then None
      else let y = x * 10 + (int (byte_val c) - 48) in if y > 2 ^ 63 then None else leadingInt cs y)"

text \<open>Digits after the point; digits that would overflow are skipped.\<close>

fun leadingFraction :: "string \<Rightarrow> int \<Rightarrow> rat \<Rightarrow> bool \<Rightarrow> int \<times> rat \<times> string" where
  "leadingFraction [] x scale overflow = (x, scale, [])"
| "leadingFraction (c # cs) x scale overflow =
     (if \<not> is_digit_byte c then (x, scale, c # cs)
      else if overflow \<or> x > (2 ^ 63 - 1) div 10 then leadingFraction cs x scale True
      else let y = x * 10 + (int (byte_val c) - 48)
           in if y > 2 ^ 63 then leadingFraction cs x scale True
              else leadingFraction cs y (float64 (scale * 10)) False)"

definition unitMap :: "string \<Rightarrow> int option" where
  "unitMap = map_of
     [(''ns'', 1), (''us'', 1000), ([byte_chr 194, byte_chr 181, CHR ''s''], 1000), ([byte_chr 206, byte_chr 188, CHR ''s''], 1000),
      (''ms'', 1000000), (''s'', 1000000000), (''m'', 60000000000), (''h'', 3600000000000)]"

definition number_start :: "char \<Rightarrow> bool" where
  "number_start c \<longleftrightarrow> c = CHR ''.'' \<or> is_digit_byte c"

text \<open>One number with its unit, in nanoseconds, and the rest of the text.\<close>

definition duration_item :: "string \<Rightarrow> (int \<times> string) option" where
  "duration_item s =
     (if s = [] \<or> \<not> number_start (hd s) then None
      else case leadingInt s 0 of
        None \<Rightarrow> None
      | Some (v, s1) \<Rightarrow>
          (let pre = length s1 \<noteq> length s;
               point = s1 \<noteq> [] \<and> hd s1 = CHR ''.'';
               (f, scale, s2) = (if point then leadingFraction (tl s1) 0 1 False else (0, 1, s1));
               post = point \<and> length s2 \<noteq> length (tl s1);
               u = takeWhile (\<lambda>c. \<not> number_start c) s2
           in if \<not> pre \<and> \<not> post \<or> u = [] then None
              else case unitMap u of
                None \<Rightarrow> None
              | Some unit \<Rightarrow>
                  if v > 2 ^ 63 div unit then None
                  else let v' = v * unit + (if f > 0 then \<lfloor>float64 (float64 (of_int f) * float64 (float64 (of_int unit) / scale))\<rfloor> else 0)
                       in if f > 0 \<and> v' > 2 ^ 63 then None else Some (v', dropWhile (\<lambda>c. \<not> number_start c) s2)))"

lemma leadingInt_shorter: "leadingInt s x = Some (v, s1) \<Longrightarrow> length s1 \<le> length s"
  by (induction s x rule: leadingInt.induct) (auto simp: Let_def split: if_splits)

lemma leadingFraction_shorter: "leadingFraction s x scale ov = (f, scale', s1) \<Longrightarrow> length s1 \<le> length s"
proof (induction s x scale ov rule: leadingFraction.induct)
  case (2 c cs x scale overflow)
  then show ?case by (auto simp: Let_def split: if_splits)
qed simp

lemma duration_item_shorter:
  assumes "duration_item s = Some (v, rest)"
  shows "length rest < length s"
proof -
  from assms obtain v1 s1 where 1: "leadingInt s 0 = Some (v1, s1)"
    by (auto simp: duration_item_def split: if_splits option.splits)
  obtain f scale s2 where 2: "(if s1 \<noteq> [] \<and> hd s1 = CHR ''.'' then leadingFraction (tl s1) 0 1 False else (0, 1, s1)) = (f, scale, s2)"
    by (metis prod_cases3)
  have "length s2 \<le> length s1"
    using 2 leadingFraction_shorter[of "tl s1" 0 1 False f scale s2] by (cases s1) (auto split: if_splits)
  also have "length s1 \<le> length s" by (rule leadingInt_shorter[OF 1])
  finally have s2: "length s2 \<le> length s" .
  have "takeWhile (\<lambda>c. \<not> number_start c) s2 \<noteq> []" "rest = dropWhile (\<lambda>c. \<not> number_start c) s2"
    using assms 1 2 by (auto simp: duration_item_def Let_def split: if_splits option.splits)
  then have "length rest < length s2"
    by (metis length_append length_greater_0_conv less_add_same_cancel2 takeWhile_dropWhile_id)
  then show ?thesis using s2 by simp
qed

text \<open>The sum of the items, an unsigned 64-bit number of at most \<open>1 << 63\<close>.\<close>

function duration_sum :: "string \<Rightarrow> int \<Rightarrow> int option" where
  "duration_sum s d =
     (if s = [] then Some d
      else case duration_item s of
        None \<Rightarrow> None
      | Some (v, rest) \<Rightarrow>
          let d' = (d + v) mod 2 ^ 64 in if d' > 2 ^ 63 then None else duration_sum rest d')"
  by pat_completeness auto
termination
  by (relation "measure (\<lambda>(s, d). length s)") (auto dest: duration_item_shorter)

declare duration_sum.simps [simp del]

definition ParseDuration :: "string \<Rightarrow> duration option" where
  "ParseDuration s =
     (case split_sign s of (neg, t) \<Rightarrow>
        if t = ''0'' then Some 0
        else if t = [] then None
        else case duration_sum t 0 of
          None \<Rightarrow> None
        | Some d \<Rightarrow> if neg then Some (- d) else if d > 2 ^ 63 - 1 then None else Some d)"

end
