(* ===== verification/Configuration.thy ===== *)
theory Configuration
  imports Go_Duration
begin

text \<open>
  \<open>internal/config/config.go\<close>: the configuration read from the environment. The environment is the
  function \<open>env\<close> of \<open>os.Getenv\<close> (the empty string for an unset variable); \<open>net/url\<close> and \<open>net\<close> are arguments.
  Errors are values with what the message names.
\<close>

section \<open>Data\<close>

type_synonym environment = "string \<Rightarrow> string"

text \<open>
  \<open>url.Parse\<close> with the scheme, the host and the host name; \<open>net.ParseIP\<close> with \<open>IsLoopback\<close> of the
  address; \<open>net.ParseCIDR\<close> with the size of the mask.
\<close>

record net_library =
  url_Parse :: "string \<Rightarrow> (string \<times> string \<times> string) option"
  net_ParseIP :: "string \<Rightarrow> bool option"
  net_ParseCIDR :: "string \<Rightarrow> (int \<times> int) option"

datatype config_error =
    IsRequired string
  | NotPositiveDuration string
  | NotIntegerAtLeast string int
  | InvalidDatabaseURL
  | MalformedLegacyPair string
  | LegacyHasActiveKey string
  | WeakJWTSecret
  | WeakLegacySecret string
  | WeakMetricsToken
  | EmptyAddress
  | BodyLimitNotPositive
  | EmptyMetricsToken
  | EmptyProxy
  | InvalidProxy string
  | UniversalProxy string
  | InvalidPoolLimits
  | InvalidTokenDurations
  | InvalidAuditDurations

record HTTPConfig =
  hc_Address :: string
  hc_ReadTimeout :: duration
  hc_WriteTimeout :: duration
  hc_IdleTimeout :: duration
  hc_ShutdownTimeout :: duration
  hc_MaxRequestBodyBytes :: int
  hc_MetricsToken :: string
  hc_TrustedProxies :: "string list"

record DatabaseConfig =
  dc_URL :: string
  dc_MaxOpenConnections :: int
  dc_MaxIdleConnections :: int
  dc_ConnectionMaxLifetime :: duration

record SecurityConfig =
  sc_JWTSecret :: string
  sc_JWTKeyID :: string
  sc_JWTLegacyKeys :: "(string \<times> string) list"
  sc_JWTIssuer :: string
  sc_JWTAudience :: string
  sc_AccessTokenTTL :: duration
  sc_RefreshTokenTTL :: duration

record IdempotencyConfig =
  ic_LeaseTTL :: duration
  ic_ReplayTTL :: duration

record AuditConfig =
  ac_OutboxRetention :: duration
  ac_WarningAge :: duration
  ac_CriticalAge :: duration
  ac_ReconciliationInterval :: duration
  ac_OutboxBatchSize :: int
  ac_RelayInterval :: duration

record Config =
  cfg_HTTP :: HTTPConfig
  cfg_Database :: DatabaseConfig
  cfg_Security :: SecurityConfig
  cfg_Idempotency :: IdempotencyConfig
  cfg_Audit :: AuditConfig

section \<open>Reading\<close>

definition required :: "environment \<Rightarrow> string \<Rightarrow> config_error + string" where
  "required env name = (let v = TrimSpace (env name) in if v = '''' then Inl (IsRequired name) else Inr v)"

definition stringValue :: "environment \<Rightarrow> string \<Rightarrow> string \<Rightarrow> string" where
  "stringValue env name fallback = (let v = TrimSpace (env name) in if v = '''' then fallback else v)"

definition readDuration :: "environment \<Rightarrow> string \<Rightarrow> duration \<Rightarrow> config_error + duration" where
  "readDuration env name fallback =
     (let v = TrimSpace (env name)
      in if v = '''' then Inr fallback
         else case ParseDuration v of
                None \<Rightarrow> Inl (NotPositiveDuration name)
              | Some d \<Rightarrow> if d \<le> 0 then Inl (NotPositiveDuration name) else Inr d)"

text \<open>\<open>readInt\<close> and \<open>readInt64\<close>, the same on a platform whose \<open>int\<close> has 64 bits.\<close>

definition readInt64 :: "environment \<Rightarrow> string \<Rightarrow> int \<Rightarrow> int \<Rightarrow> config_error + int" where
  "readInt64 env name fallback minimum =
     (let v = TrimSpace (env name)
      in if v = '''' then Inr fallback
         else case ParseInt v of
                None \<Rightarrow> Inl (NotIntegerAtLeast name minimum)
              | Some n \<Rightarrow> if n < minimum then Inl (NotIntegerAtLeast name minimum) else Inr n)"

definition readInt :: "environment \<Rightarrow> string \<Rightarrow> int \<Rightarrow> int \<Rightarrow> config_error + int" where
  "readInt = readInt64"

definition DatabaseURL :: "net_library \<Rightarrow> environment \<Rightarrow> config_error + string" where
  "DatabaseURL N env =
     bind_result (required env ''DATABASE_URL'') (\<lambda>rawURL.
       case url_Parse N rawURL of
         None \<Rightarrow> Inl InvalidDatabaseURL
       | Some (scheme, host, hostname) \<Rightarrow>
           if host = '''' \<or> scheme \<noteq> ''postgres'' \<and> scheme \<noteq> ''postgresql'' then Inl InvalidDatabaseURL else Inr rawURL)"

definition trusted_proxies :: "environment \<Rightarrow> string list" where
  "trusted_proxies env =
     (let rawProxies = stringValue env ''HTTP_TRUSTED_PROXIES'' (stringValue env ''TRUSTED_PROXIES'' '''')
      in if rawProxies = '''' then []
         else filter (\<lambda>p. p \<noteq> '''') (map TrimSpace (split_at (CHR '','') rawProxies)))"

text \<open>The legacy keys, a map: a later pair of the same key id replaces an earlier one.\<close>

fun legacy_pairs :: "string \<Rightarrow> string list \<Rightarrow> (string \<times> string) list \<Rightarrow> config_error + (string \<times> string) list" where
  "legacy_pairs active [] legacy = Inr legacy"
| "legacy_pairs active (pair # pairs) legacy =
     (case split_once (CHR '':'') (TrimSpace pair) of
        None \<Rightarrow> Inl (MalformedLegacyPair pair)
      | Some (keyID, secret) \<Rightarrow>
          if keyID = '''' \<or> secret = '''' then Inl (MalformedLegacyPair pair)
          else if keyID = active then Inl (LegacyHasActiveKey active)
          else legacy_pairs active pairs (AList.update keyID secret legacy))"

definition legacy_keys :: "environment \<Rightarrow> string \<Rightarrow> config_error + (string \<times> string) list" where
  "legacy_keys env active =
     (let rawLegacy = stringValue env ''JWT_LEGACY_KEYS'' ''''
      in if rawLegacy = '''' then Inr [] else legacy_pairs active (split_at (CHR '','') rawLegacy) [])"

section \<open>Validation\<close>

definition validateTrustedProxy :: "net_library \<Rightarrow> string \<Rightarrow> config_error option" where
  "validateTrustedProxy N p =
     (let proxy = TrimSpace p
      in if proxy = '''' then Some EmptyProxy
         else if net_ParseIP N proxy \<noteq> None then None
         else case net_ParseCIDR N proxy of
                None \<Rightarrow> Some (InvalidProxy proxy)
              | Some (ones, bits) \<Rightarrow> if ones = 0 \<and> bits > 0 then Some (UniversalProxy proxy) else None)"

definition first_error :: "('a \<Rightarrow> config_error option) \<Rightarrow> 'a list \<Rightarrow> config_error option" where
  "first_error check xs = foldr (\<lambda>x rest. case check x of None \<Rightarrow> rest | Some e \<Rightarrow> Some e) xs None"

definition validate :: "net_library \<Rightarrow> Config \<Rightarrow> config_error option" where
  "validate N c =
     (let http = cfg_HTTP c; database = cfg_Database c; security = cfg_Security c; idem = cfg_Idempotency c; audit = cfg_Audit c
      in if hc_Address http = '''' then Some EmptyAddress
         else if hc_MaxRequestBodyBytes http \<le> 0 then Some BodyLimitNotPositive
         else if TrimSpace (hc_MetricsToken http) = '''' then Some EmptyMetricsToken
         else case first_error (validateTrustedProxy N) (hc_TrustedProxies http) of
           Some e \<Rightarrow> Some e
         | None \<Rightarrow>
             if dc_MaxOpenConnections database \<le> 0 \<or> dc_MaxIdleConnections database < 0
                \<or> dc_MaxIdleConnections database > dc_MaxOpenConnections database then Some InvalidPoolLimits
             else if sc_AccessTokenTTL security \<le> 0 \<or> sc_RefreshTokenTTL security \<le> 0
                \<or> ic_LeaseTTL idem \<le> 0 \<or> ic_ReplayTTL idem \<le> 0 then Some InvalidTokenDurations
             else if ac_OutboxRetention audit \<le> 0 \<or> ac_WarningAge audit \<le> 0
                \<or> ac_CriticalAge audit \<le> ac_WarningAge audit \<or> ac_ReconciliationInterval audit \<le> 0 then Some InvalidAuditDurations
             else None)"

definition MinimumSecretLength :: nat where "MinimumSecretLength = 32"

text \<open>\<open>order\<close> is the order in which the map of legacy keys is visited.\<close>

definition ValidateSecretStrength :: "((string \<times> string) list \<Rightarrow> (string \<times> string) list) \<Rightarrow> Config \<Rightarrow> config_error option" where
  "ValidateSecretStrength order c =
     (if length (sc_JWTSecret (cfg_Security c)) < MinimumSecretLength then Some WeakJWTSecret
      else case first_error (\<lambda>(keyID, secret). if length secret < MinimumSecretLength then Some (WeakLegacySecret keyID) else None)
                  (order (sc_JWTLegacyKeys (cfg_Security c))) of
             Some e \<Rightarrow> Some e
           | None \<Rightarrow> if length (hc_MetricsToken (cfg_HTTP c)) < MinimumSecretLength then Some WeakMetricsToken else None)"

section \<open>Loading\<close>

definition Load :: "net_library \<Rightarrow> environment \<Rightarrow> config_error + Config" where
  "Load N env =
     bind_result (DatabaseURL N env) (\<lambda>databaseURL.
     bind_result (required env ''JWT_SECRET'') (\<lambda>jwtSecret.
     bind_result (required env ''METRICS_TOKEN'') (\<lambda>metricsToken.
     let trustedProxies = trusted_proxies env; keyID = stringValue env ''JWT_KEY_ID'' ''v1'' in
     bind_result (legacy_keys env keyID) (\<lambda>legacy.
     bind_result (readDuration env ''HTTP_READ_TIMEOUT'' (10 * Second)) (\<lambda>readTimeout.
     bind_result (readDuration env ''HTTP_WRITE_TIMEOUT'' (15 * Second)) (\<lambda>writeTimeout.
     bind_result (readDuration env ''HTTP_IDLE_TIMEOUT'' (60 * Second)) (\<lambda>idleTimeout.
     bind_result (readDuration env ''SHUTDOWN_TIMEOUT'' (10 * Second)) (\<lambda>shutdownTimeout.
     bind_result (readInt64 env ''MAX_REQUEST_BODY_BYTES'' 1048576 1) (\<lambda>maxBody.
     bind_result (readInt env ''DB_MAX_OPEN_CONNS'' 20 1) (\<lambda>maxOpen.
     bind_result (readInt env ''DB_MAX_IDLE_CONNS'' 10 0) (\<lambda>maxIdle.
     bind_result (readDuration env ''DB_CONN_MAX_LIFETIME'' (30 * Minute)) (\<lambda>maxLifetime.
     bind_result (readDuration env ''ACCESS_TOKEN_TTL'' (15 * Minute)) (\<lambda>accessTTL.
     bind_result (readDuration env ''REFRESH_TOKEN_TTL'' (7 * 24 * Hour)) (\<lambda>refreshTTL.
     bind_result (readDuration env ''IDEMPOTENCY_LEASE_TTL'' (30 * Second)) (\<lambda>leaseTTL.
     bind_result (readDuration env ''IDEMPOTENCY_REPLAY_TTL'' (24 * Hour)) (\<lambda>replayTTL.
     bind_result (readDuration env ''AUDIT_OUTBOX_RETENTION'' (30 * 24 * Hour)) (\<lambda>retention.
     bind_result (readDuration env ''AUDIT_WARNING_AGE'' (5 * Minute)) (\<lambda>warningAge.
     bind_result (readDuration env ''AUDIT_CRITICAL_AGE'' (15 * Minute)) (\<lambda>criticalAge.
     bind_result (readDuration env ''AUDIT_RECONCILIATION_INTERVAL'' (15 * Minute)) (\<lambda>reconciliation.
     bind_result (readInt env ''AUDIT_OUTBOX_BATCH_SIZE'' 50 1) (\<lambda>batchSize.
     bind_result (readDuration env ''AUDIT_RELAY_INTERVAL'' (5 * Second)) (\<lambda>relayInterval.
     let config =
       \<lparr>cfg_HTTP = \<lparr>hc_Address = stringValue env ''HTTP_ADDRESS'' '':8080'', hc_ReadTimeout = readTimeout,
          hc_WriteTimeout = writeTimeout, hc_IdleTimeout = idleTimeout, hc_ShutdownTimeout = shutdownTimeout,
          hc_MaxRequestBodyBytes = maxBody, hc_MetricsToken = metricsToken, hc_TrustedProxies = trustedProxies\<rparr>,
        cfg_Database = \<lparr>dc_URL = databaseURL, dc_MaxOpenConnections = maxOpen, dc_MaxIdleConnections = maxIdle,
          dc_ConnectionMaxLifetime = maxLifetime\<rparr>,
        cfg_Security = \<lparr>sc_JWTSecret = jwtSecret, sc_JWTKeyID = keyID, sc_JWTLegacyKeys = legacy,
          sc_JWTIssuer = stringValue env ''JWT_ISSUER'' ''disbursement-api'',
          sc_JWTAudience = stringValue env ''JWT_AUDIENCE'' ''disbursement-api-users'',
          sc_AccessTokenTTL = accessTTL, sc_RefreshTokenTTL = refreshTTL\<rparr>,
        cfg_Idempotency = \<lparr>ic_LeaseTTL = leaseTTL, ic_ReplayTTL = replayTTL\<rparr>,
        cfg_Audit = \<lparr>ac_OutboxRetention = retention, ac_WarningAge = warningAge, ac_CriticalAge = criticalAge,
          ac_ReconciliationInterval = reconciliation, ac_OutboxBatchSize = batchSize, ac_RelayInterval = relayInterval\<rparr>\<rparr>
     in case validate N config of Some e \<Rightarrow> Inl e | None \<Rightarrow> Inr config))))))))))))))))))))))"

section \<open>What a loaded configuration satisfies\<close>

definition proxy_ok :: "net_library \<Rightarrow> string \<Rightarrow> bool" where
  "proxy_ok N proxy \<longleftrightarrow>
     net_ParseIP N proxy \<noteq> None \<or> (\<exists>ones bits. net_ParseCIDR N proxy = Some (ones, bits) \<and> (ones \<noteq> 0 \<or> bits \<le> 0))"

definition durations_ok :: "Config \<Rightarrow> bool" where
  "durations_ok c \<longleftrightarrow>
     0 < hc_ReadTimeout (cfg_HTTP c) \<and> 0 < hc_WriteTimeout (cfg_HTTP c) \<and> 0 < hc_IdleTimeout (cfg_HTTP c)
     \<and> 0 < hc_ShutdownTimeout (cfg_HTTP c) \<and> 0 < dc_ConnectionMaxLifetime (cfg_Database c)
     \<and> 0 < sc_AccessTokenTTL (cfg_Security c) \<and> 0 < sc_RefreshTokenTTL (cfg_Security c)
     \<and> 0 < ic_LeaseTTL (cfg_Idempotency c) \<and> 0 < ic_ReplayTTL (cfg_Idempotency c)
     \<and> 0 < ac_OutboxRetention (cfg_Audit c) \<and> 0 < ac_WarningAge (cfg_Audit c) \<and> ac_WarningAge (cfg_Audit c) < ac_CriticalAge (cfg_Audit c)
     \<and> 0 < ac_ReconciliationInterval (cfg_Audit c) \<and> 0 < ac_RelayInterval (cfg_Audit c)"

definition keys_ok :: "SecurityConfig \<Rightarrow> bool" where
  "keys_ok s \<longleftrightarrow>
     sc_JWTSecret s \<noteq> '''' \<and> sc_JWTKeyID s \<noteq> '''' \<and> sc_JWTIssuer s \<noteq> '''' \<and> sc_JWTAudience s \<noteq> ''''
     \<and> distinct (map fst (sc_JWTLegacyKeys s))
     \<and> (\<forall>(keyID, secret) \<in> set (sc_JWTLegacyKeys s). keyID \<noteq> '''' \<and> secret \<noteq> '''' \<and> keyID \<noteq> sc_JWTKeyID s)"

lemma required_Inr: "required env name = Inr v \<Longrightarrow> v \<noteq> ''''"
  by (auto simp: required_def Let_def split: if_splits)

lemma stringValue_nonempty: "fallback \<noteq> '''' \<Longrightarrow> stringValue env name fallback \<noteq> ''''"
  by (simp add: stringValue_def Let_def)

lemma readDuration_Inr: "readDuration env name fallback = Inr d \<Longrightarrow> 0 < fallback \<Longrightarrow> 0 < d"
  by (auto simp: readDuration_def Let_def split: if_splits option.splits)

lemma readInt_Inr: "readInt env name fallback minimum = Inr n \<Longrightarrow> minimum \<le> fallback \<Longrightarrow> minimum \<le> n"
  "readInt64 env name fallback minimum = Inr n \<Longrightarrow> minimum \<le> fallback \<Longrightarrow> minimum \<le> n"
  by (auto simp: readInt_def readInt64_def Let_def split: if_splits option.splits)

lemma legacy_pairs_Inr:
  assumes "legacy_pairs active pairs m = Inr legacy"
    and "distinct (map fst m)" "\<forall>(k, v) \<in> set m. k \<noteq> '''' \<and> v \<noteq> '''' \<and> k \<noteq> active"
  shows "distinct (map fst legacy) \<and> (\<forall>(k, v) \<in> set legacy. k \<noteq> '''' \<and> v \<noteq> '''' \<and> k \<noteq> active)"
  using assms
proof (induction active pairs m rule: legacy_pairs.induct)
  case (2 active pair pairs m)
  then obtain k v where kv: "split_once (CHR '':'') (TrimSpace pair) = Some (k, v)" "k \<noteq> ''''" "v \<noteq> ''''" "k \<noteq> active"
    by (auto split: option.splits if_splits)
  have "\<forall>(k, v) \<in> set (AList.update k v m). k \<noteq> '''' \<and> v \<noteq> '''' \<and> k \<noteq> active"
    using set_update_subset[of k v m] kv 2(4) by blast
  moreover have "distinct (map fst (AList.update k v m))" using 2(3) by (rule distinct_update)
  ultimately show ?case using 2(1)[OF kv(1) refl] 2(2) kv by simp
qed simp

lemma legacy_keys_Inr:
  assumes "legacy_keys env active = Inr legacy"
  shows "distinct (map fst legacy) \<and> (\<forall>(k, v) \<in> set legacy. k \<noteq> '''' \<and> v \<noteq> '''' \<and> k \<noteq> active)"
  using assms legacy_pairs_Inr[of active _ "[]" legacy] by (auto simp: legacy_keys_def Let_def split: if_splits)

lemma first_error_None: "first_error check xs = None \<longleftrightarrow> (\<forall>x \<in> set xs. check x = None)"
  unfolding first_error_def by (induction xs) (auto split: option.splits)

lemma validate_None:
  assumes "validate N c = None"
  shows "hc_Address (cfg_HTTP c) \<noteq> ''''" "0 < hc_MaxRequestBodyBytes (cfg_HTTP c)" "TrimSpace (hc_MetricsToken (cfg_HTTP c)) \<noteq> ''''"
    "\<forall>p \<in> set (hc_TrustedProxies (cfg_HTTP c)). validateTrustedProxy N p = None"
    "0 < dc_MaxOpenConnections (cfg_Database c)" "0 \<le> dc_MaxIdleConnections (cfg_Database c)"
    "dc_MaxIdleConnections (cfg_Database c) \<le> dc_MaxOpenConnections (cfg_Database c)"
    "0 < sc_AccessTokenTTL (cfg_Security c)" "0 < sc_RefreshTokenTTL (cfg_Security c)"
    "0 < ic_LeaseTTL (cfg_Idempotency c)" "0 < ic_ReplayTTL (cfg_Idempotency c)"
    "0 < ac_OutboxRetention (cfg_Audit c)" "0 < ac_WarningAge (cfg_Audit c)"
    "ac_WarningAge (cfg_Audit c) < ac_CriticalAge (cfg_Audit c)" "0 < ac_ReconciliationInterval (cfg_Audit c)"
  using assms by (auto simp: validate_def Let_def first_error_None split: if_splits option.splits)

lemma validateTrustedProxy_None: "validateTrustedProxy N p = None \<Longrightarrow> proxy_ok N (TrimSpace p)"
  by (auto simp: validateTrustedProxy_def proxy_ok_def Let_def split: if_splits option.splits prod.splits)

lemma Load_facts:
  assumes "Load N env = Inr c"
  shows "validate N c = None
    \<and> required env ''JWT_SECRET'' = Inr (sc_JWTSecret (cfg_Security c))
    \<and> legacy_keys env (sc_JWTKeyID (cfg_Security c)) = Inr (sc_JWTLegacyKeys (cfg_Security c))
    \<and> sc_JWTKeyID (cfg_Security c) = stringValue env ''JWT_KEY_ID'' ''v1''
    \<and> sc_JWTIssuer (cfg_Security c) = stringValue env ''JWT_ISSUER'' ''disbursement-api''
    \<and> sc_JWTAudience (cfg_Security c) = stringValue env ''JWT_AUDIENCE'' ''disbursement-api-users''
    \<and> readDuration env ''HTTP_READ_TIMEOUT'' (10 * Second) = Inr (hc_ReadTimeout (cfg_HTTP c))
    \<and> readDuration env ''HTTP_WRITE_TIMEOUT'' (15 * Second) = Inr (hc_WriteTimeout (cfg_HTTP c))
    \<and> readDuration env ''HTTP_IDLE_TIMEOUT'' (60 * Second) = Inr (hc_IdleTimeout (cfg_HTTP c))
    \<and> readDuration env ''SHUTDOWN_TIMEOUT'' (10 * Second) = Inr (hc_ShutdownTimeout (cfg_HTTP c))
    \<and> readDuration env ''DB_CONN_MAX_LIFETIME'' (30 * Minute) = Inr (dc_ConnectionMaxLifetime (cfg_Database c))
    \<and> readDuration env ''AUDIT_RELAY_INTERVAL'' (5 * Second) = Inr (ac_RelayInterval (cfg_Audit c))
    \<and> readInt env ''AUDIT_OUTBOX_BATCH_SIZE'' 50 1 = Inr (ac_OutboxBatchSize (cfg_Audit c))"
  using assms unfolding Load_def bind_result_Inr Let_def
  by (elim exE conjE) (clarsimp split: option.splits)

lemma Load_Inr:
  assumes "Load N env = Inr c"
  shows "durations_ok c" "keys_ok (cfg_Security c)" "1 \<le> ac_OutboxBatchSize (cfg_Audit c)"
proof -
  note facts = Load_facts[OF assms]
  show "1 \<le> ac_OutboxBatchSize (cfg_Audit c)" using facts by (elim conjE) (drule readInt_Inr(1), simp_all)
  have "sc_JWTSecret (cfg_Security c) \<noteq> ''''" using facts by (elim conjE) (erule required_Inr)
  moreover have "legacy_keys env (sc_JWTKeyID (cfg_Security c)) = Inr (sc_JWTLegacyKeys (cfg_Security c))" using facts by (elim conjE)
  note legacy_keys_Inr[OF this]
  moreover have "sc_JWTKeyID (cfg_Security c) \<noteq> ''''" "sc_JWTIssuer (cfg_Security c) \<noteq> ''''" "sc_JWTAudience (cfg_Security c) \<noteq> ''''"
    using facts by (simp_all add: stringValue_nonempty)
  ultimately show "keys_ok (cfg_Security c)" by (simp add: keys_ok_def)
  have "0 < hc_ReadTimeout (cfg_HTTP c) \<and> 0 < hc_WriteTimeout (cfg_HTTP c) \<and> 0 < hc_IdleTimeout (cfg_HTTP c)
    \<and> 0 < hc_ShutdownTimeout (cfg_HTTP c) \<and> 0 < dc_ConnectionMaxLifetime (cfg_Database c) \<and> 0 < ac_RelayInterval (cfg_Audit c)"
    using facts by (elim conjE, intro conjI) (erule readDuration_Inr, simp)+
  then show "durations_ok c" using validate_None[OF conjunct1[OF facts]] by (simp add: durations_ok_def)
qed

section \<open>Properties\<close>

text \<open>
  C37. What \<open>Load\<close> returns is a usable configuration: the address and the secrets are there, every timeout,
  lifetime and interval is positive, the pool limits are ordered, warnings come before critical ages, the
  batch is not empty, each legacy key has its own non-empty id other than the active one, and no trusted
  proxy stands for all addresses.
\<close>

theorem load_usable:
  assumes "Load N env = Inr c"
  shows "durations_ok c \<and> keys_ok (cfg_Security c) \<and> hc_Address (cfg_HTTP c) \<noteq> '''' \<and> 0 < hc_MaxRequestBodyBytes (cfg_HTTP c)
    \<and> 0 \<le> dc_MaxIdleConnections (cfg_Database c) \<and> dc_MaxIdleConnections (cfg_Database c) \<le> dc_MaxOpenConnections (cfg_Database c)
    \<and> 0 < dc_MaxOpenConnections (cfg_Database c) \<and> 1 \<le> ac_OutboxBatchSize (cfg_Audit c)
    \<and> (\<forall>p \<in> set (hc_TrustedProxies (cfg_HTTP c)). proxy_ok N (TrimSpace p))"
  using Load_Inr[OF assms] validate_None[OF conjunct1[OF Load_facts[OF assms]]] validateTrustedProxy_None by simp

section \<open>A concrete environment\<close>

definition demo_env :: environment where
  "demo_env name =
     (if name = ''DATABASE_URL'' then ''postgres://db/app''
      else if name = ''JWT_SECRET'' then ''0123456789abcdef0123456789abcdef''
      else if name = ''METRICS_TOKEN'' then ''fedcba9876543210fedcba9876543210''
      else if name = ''IDEMPOTENCY_LEASE_TTL'' then ''45s''
      else if name = ''JWT_LEGACY_KEYS'' then ''v0:00112233445566778899aabbccddeeff'' else '''')"

definition demo_net :: net_library where
  "demo_net = \<lparr>url_Parse = (\<lambda>_. Some (''postgres'', ''db'', ''db'')), net_ParseIP = (\<lambda>_. None), net_ParseCIDR = (\<lambda>_. None)\<rparr>"

definition demo_config :: Config where
  "demo_config =
     \<lparr>cfg_HTTP = \<lparr>hc_Address = '':8080'', hc_ReadTimeout = 10 * Second, hc_WriteTimeout = 15 * Second,
        hc_IdleTimeout = 60 * Second, hc_ShutdownTimeout = 10 * Second, hc_MaxRequestBodyBytes = 1048576,
        hc_MetricsToken = ''fedcba9876543210fedcba9876543210'', hc_TrustedProxies = []\<rparr>,
      cfg_Database = \<lparr>dc_URL = ''postgres://db/app'', dc_MaxOpenConnections = 20, dc_MaxIdleConnections = 10,
        dc_ConnectionMaxLifetime = 30 * Minute\<rparr>,
      cfg_Security = \<lparr>sc_JWTSecret = ''0123456789abcdef0123456789abcdef'', sc_JWTKeyID = ''v1'',
        sc_JWTLegacyKeys = [(''v0'', ''00112233445566778899aabbccddeeff'')], sc_JWTIssuer = ''disbursement-api'',
        sc_JWTAudience = ''disbursement-api-users'', sc_AccessTokenTTL = 15 * Minute, sc_RefreshTokenTTL = 7 * 24 * Hour\<rparr>,
      cfg_Idempotency = \<lparr>ic_LeaseTTL = 45 * Second, ic_ReplayTTL = 24 * Hour\<rparr>,
      cfg_Audit = \<lparr>ac_OutboxRetention = 30 * 24 * Hour, ac_WarningAge = 5 * Minute, ac_CriticalAge = 15 * Minute,
        ac_ReconciliationInterval = 15 * Minute, ac_OutboxBatchSize = 50, ac_RelayInterval = 5 * Second\<rparr>\<rparr>"

lemma demo_texts:
  "TrimSpace '''' = ''''" "TrimSpace ''postgres://db/app'' = ''postgres://db/app''"
  "TrimSpace ''0123456789abcdef0123456789abcdef'' = ''0123456789abcdef0123456789abcdef''"
  "TrimSpace ''fedcba9876543210fedcba9876543210'' = ''fedcba9876543210fedcba9876543210''"
  "TrimSpace ''45s'' = ''45s''" "TrimSpace ''v0:00112233445566778899aabbccddeeff'' = ''v0:00112233445566778899aabbccddeeff''"
  by (rule TrimSpace_graphic; code_simp)+

lemma demo_duration: "ParseDuration ''45s'' = Some (45 * Second)"
  by code_simp

lemma demo_Load: "Load demo_net demo_env = Inr demo_config"
proof -
  have "validate demo_net demo_config = None"
    using demo_texts(4) by (simp add: validate_def demo_config_def first_error_def)
  then show ?thesis
    by (simp add: Load_def DatabaseURL_def required_def stringValue_def readDuration_def readInt_def readInt64_def
        trusted_proxies_def legacy_keys_def demo_env_def demo_net_def demo_texts demo_duration split_once_def demo_config_def Let_def)
qed

theorem load_usable_witness: "durations_ok demo_config \<and> keys_ok (cfg_Security demo_config)"
  using load_usable[OF demo_Load] by blast

end
