(* ===== verification/Rate_Limit.thy ===== *)
theory Rate_Limit
  imports Prelude Platform "HOL-Library.AList" "HOL-Library.Multiset"
begin

text \<open>
  \<open>internal/httpapi/middleware/rate_limit.go\<close>: the limiter of login and refresh attempts per client
  address. A Go map is an association list with distinct keys. Go visits the entries of a map in an
  order that is not specified and may change from one loop to the next: \<open>evictLeastRecent\<close>, the only
  loop whose effect depends on it, takes the order as an argument, a rearrangement of the entries.
  The index into an empty slice, which panics in Go, is the value \<open>None\<close>. The limiter's mutex makes
  one call of \<open>rateLimitHandler\<close> up to the unlock one step.

  The optimised limiter (pruned slices, periodic clean-up every 256 requests, at most 10000 clients)
  is proved equal to a reference that keeps the whole history of admitted requests and forgets a client's
  only when it is evicted.
\<close>

section \<open>The limiter\<close>

type_synonym tracked = "(string \<times> time list) list"

record ipRateLimiter =
  rl_requests :: tracked
  rl_limit :: int
  rl_window :: duration
  rl_cleanupAfter :: "64 word"

definition maxTrackedClients :: nat where "maxTrackedClients = 10000"

text \<open>The constructor panics on a limit or window out of range (the doubled window must not overflow).\<close>

definition newIPRateLimiter :: "int \<Rightarrow> duration \<Rightarrow> string + ipRateLimiter" where
  "newIPRateLimiter lim win =
     (if lim \<le> 0 then Inl ''rate limit must be greater than zero''
      else if win \<le> 0 \<or> wrap64 (2 * win) \<le> 0 then Inl ''rate limit window must be positive''
      else Inr \<lparr>rl_requests = [], rl_limit = lim, rl_window = win, rl_cleanupAfter = 0\<rparr>)"

definition recent :: "duration \<Rightarrow> time \<Rightarrow> time list \<Rightarrow> time list" where
  "recent win now stamps = filter (\<lambda>t. time_Sub now t \<le> win) stamps"

definition cleanupExpired :: "time \<Rightarrow> ipRateLimiter \<Rightarrow> ipRateLimiter" where
  "cleanupExpired now l = l\<lparr>rl_requests :=
     filter (\<lambda>(ip, valid). valid \<noteq> [])
       (map (\<lambda>(ip, stamps). (ip, recent (rl_window l) now stamps)) (rl_requests l))\<rparr>"

fun scan_oldest :: "(string \<times> time) option \<Rightarrow> tracked \<Rightarrow> (string \<times> time) option option" where
  "scan_oldest best [] = Some best"
| "scan_oldest best ((ip, stamps) # rest) =
     (if stamps = [] then None
      else let mostRecent = last stamps
           in scan_oldest
                (case best of
                   None \<Rightarrow> Some (ip, mostRecent)
                 | Some (oldestIP, oldest) \<Rightarrow> if mostRecent < oldest then Some (ip, mostRecent) else best)
                rest)"

definition evictLeastRecent :: "(tracked \<Rightarrow> tracked) \<Rightarrow> ipRateLimiter \<Rightarrow> ipRateLimiter option" where
  "evictLeastRecent order l =
     (case scan_oldest None (order (rl_requests l)) of
        None \<Rightarrow> None
      | Some None \<Rightarrow> Some l
      | Some (Some (oldestIP, oldest)) \<Rightarrow> Some (l\<lparr>rl_requests := AList.delete oldestIP (rl_requests l)\<rparr>))"

text \<open>\<open>l.requests[ip]\<close>: nil for a client without an entry.\<close>

definition times_of :: "string \<Rightarrow> ipRateLimiter \<Rightarrow> time list" where
  "times_of ip l = (case map_of (rl_requests l) ip of None \<Rightarrow> [] | Some stamps \<Rightarrow> stamps)"

datatype verdict = Admitted bool | Limited

text \<open>
  The critical section of the handler; \<open>Admitted e\<close> says whether a client was evicted. \<open>count_request\<close>
  is the counter with its periodic clean-up, \<open>make_room\<close> the eviction at capacity.
\<close>

definition count_request :: "time \<Rightarrow> ipRateLimiter \<Rightarrow> ipRateLimiter" where
  "count_request now l =
     (let l1 = l\<lparr>rl_cleanupAfter := rl_cleanupAfter l + 1\<rparr>
      in if rl_cleanupAfter l1 \<ge> 256 then (cleanupExpired now l1)\<lparr>rl_cleanupAfter := 0\<rparr> else l1)"

definition make_room :: "(tracked \<Rightarrow> tracked) \<Rightarrow> time \<Rightarrow> time list \<Rightarrow> ipRateLimiter \<Rightarrow> (bool \<times> ipRateLimiter) option" where
  "make_room order now stamps l =
     (if stamps = [] \<and> length (rl_requests l) \<ge> maxTrackedClients
      then let l1 = cleanupExpired now l
           in if length (rl_requests l1) \<ge> maxTrackedClients
              then map_option (\<lambda>l2. (True, l2)) (evictLeastRecent order l1)
              else Some (False, l1)
      else Some (False, l))"

definition admit :: "(tracked \<Rightarrow> tracked) \<Rightarrow> string \<Rightarrow> time \<Rightarrow> ipRateLimiter \<Rightarrow> (verdict \<times> ipRateLimiter) option" where
  "admit order clientIP now l =
     (let l1 = count_request now l;
          stamps = times_of clientIP l1;
          valid = recent (rl_window l1) now stamps
      in if int (length valid) \<ge> rl_limit l1
         then Some (Limited, l1\<lparr>rl_requests := AList.update clientIP valid (rl_requests l1)\<rparr>)
         else map_option
                (\<lambda>(evicted, l2). (Admitted evicted,
                   l2\<lparr>rl_requests := AList.update clientIP (valid @ [now]) (rl_requests l2)\<rparr>))
                (make_room order now stamps l1))"

text \<open>A sequence of requests: the client, the clock reading and the map order of each.\<close>

type_synonym arrival = "string \<times> time \<times> (tracked \<Rightarrow> tracked)"

fun serve :: "arrival list \<Rightarrow> ipRateLimiter \<Rightarrow> (verdict list \<times> ipRateLimiter) option" where
  "serve [] l = Some ([], l)"
| "serve ((ip, now, order) # rest) l =
     (case admit order ip now l of
        None \<Rightarrow> None
      | Some (v, l1) \<Rightarrow> map_option (\<lambda>(vs, l2). (v # vs, l2)) (serve rest l1))"

section \<open>The reference: a sliding window over the whole history\<close>

definition in_window :: "duration \<Rightarrow> string \<Rightarrow> time \<Rightarrow> (string \<times> time) list \<Rightarrow> (string \<times> time) list" where
  "in_window win ip now history = filter (\<lambda>(i, t). i = ip \<and> now - t \<le> win) history"

fun sliding :: "int \<Rightarrow> duration \<Rightarrow> (string \<times> time) list \<Rightarrow> (string \<times> time) list \<Rightarrow> bool list" where
  "sliding lim win [] history = []"
| "sliding lim win ((ip, now) # rest) history =
     (if int (length (in_window win ip now history)) < lim
      then True # sliding lim win rest (history @ [(ip, now)])
      else False # sliding lim win rest history)"

text \<open>
  The clients with a request in the window, and the reference at the limiter's capacity: \<open>window_run\<close>
  relates the requests, the history kept so far and the verdicts. A client with nothing in the window is
  admitted at the price of an eviction exactly when \<open>maxTrackedClients\<close> clients are active; the
  victim is one whose last request is the least recent, and its history is forgotten.
\<close>

definition active :: "duration \<Rightarrow> time \<Rightarrow> (string \<times> time) list \<Rightarrow> string set" where
  "active win now history = fst ` set (filter (\<lambda>(i, t). now - t \<le> win) history)"

definition last_in_window :: "duration \<Rightarrow> time \<Rightarrow> (string \<times> time) list \<Rightarrow> string \<Rightarrow> time" where
  "last_in_window win now history ip = last (map snd (in_window win ip now history))"

inductive window_run :: "int \<Rightarrow> duration \<Rightarrow> (string \<times> time) list \<Rightarrow> (string \<times> time) list \<Rightarrow> verdict list \<Rightarrow> bool"
  for lim win where
  run_end: "window_run lim win [] history []"
| run_refuse: "lim \<le> int (length (in_window win ip now history)) \<Longrightarrow> window_run lim win rest history vs
    \<Longrightarrow> window_run lim win ((ip, now) # rest) history (Limited # vs)"
| run_admit: "int (length (in_window win ip now history)) < lim
    \<Longrightarrow> in_window win ip now history \<noteq> [] \<or> card (active win now history) < maxTrackedClients
    \<Longrightarrow> window_run lim win rest (history @ [(ip, now)]) vs
    \<Longrightarrow> window_run lim win ((ip, now) # rest) history (Admitted False # vs)"
| run_evict: "0 < lim \<Longrightarrow> in_window win ip now history = [] \<Longrightarrow> maxTrackedClients \<le> card (active win now history)
    \<Longrightarrow> victim \<in> active win now history
    \<Longrightarrow> \<forall>i \<in> active win now history. last_in_window win now history victim \<le> last_in_window win now history i
    \<Longrightarrow> window_run lim win rest (filter (\<lambda>(i, t). i \<noteq> victim) history @ [(ip, now)]) vs
    \<Longrightarrow> window_run lim win ((ip, now) # rest) history (Admitted True # vs)"

text \<open>Without an eviction the reference is the sliding window.\<close>

lemma window_run_sliding:
  "window_run lim win rs history vs \<Longrightarrow> Admitted True \<notin> set vs \<Longrightarrow>
   map (\<lambda>v. v \<noteq> Limited) vs = sliding lim win rs history"
  by (induction rule: window_run.induct) auto

section \<open>The limiter's invariant\<close>

definition limiter_ok :: "ipRateLimiter \<Rightarrow> bool" where
  "limiter_ok l \<longleftrightarrow>
     distinct (map fst (rl_requests l))
     \<and> (\<forall>(ip, stamps) \<in> set (rl_requests l). stamps \<noteq> [])
     \<and> length (rl_requests l) \<le> maxTrackedClients
     \<and> 0 < rl_limit l \<and> 0 < rl_window l \<and> 2 * rl_window l < 2 ^ 63"

definition map_order :: "(tracked \<Rightarrow> tracked) \<Rightarrow> bool" where
  "map_order order \<longleftrightarrow> (\<forall>m. mset (order m) = mset m)"

lemma newIPRateLimiter_ok:
  assumes "newIPRateLimiter lim win = Inr l" "int64_range win"
  shows "limiter_ok l"
proof -
  have w: "0 < win" "\<not> wrap64 (2 * win) \<le> 0" "l = \<lparr>rl_requests = [], rl_limit = lim, rl_window = win, rl_cleanupAfter = 0\<rparr>" "0 < lim"
    using assms(1) by (auto simp: newIPRateLimiter_def split: if_splits)
  have "2 * win < 2 ^ 63"
  proof (rule ccontr)
    assume "\<not> 2 * win < 2 ^ 63"
    then have "wrap64 (2 * win + (- 1) * 2 ^ 64) \<le> 0"
      using assms(2) by (subst wrap64_id) (auto simp: int64_range_def)
    then show False using w(2) by (simp only: wrap64_shift)
  qed
  then show ?thesis using w by (simp add: limiter_ok_def)
qed

text \<open>Within the constructor's bounds the saturating subtraction never changes a comparison.\<close>

lemma recent_exact: "limiter_ok l \<Longrightarrow> recent (rl_window l) now stamps = filter (\<lambda>t. now - t \<le> rl_window l) stamps"
  by (auto simp: recent_def time_Sub_def limiter_ok_def intro!: filter_cong)

lemma times_of_update [simp]:
  "times_of ip (l\<lparr>rl_requests := AList.update ip' v (rl_requests l)\<rparr>) = (if ip = ip' then v else times_of ip l)"
  by (simp add: times_of_def update_conv')

lemma times_of_counter [simp]: "times_of ip (l\<lparr>rl_cleanupAfter := n\<rparr>) = times_of ip l"
  by (simp add: times_of_def)

lemma cleanup_fields [simp]:
  "rl_limit (cleanupExpired now l) = rl_limit l" "rl_window (cleanupExpired now l) = rl_window l"
  by (simp_all add: cleanupExpired_def)

lemma map_of_cleanup:
  "distinct (map fst m) \<Longrightarrow>
   map_of (filter (\<lambda>(ip, valid). valid \<noteq> []) (map (\<lambda>(ip, stamps). (ip, f stamps)) m)) ip
     = (case map_of m ip of None \<Rightarrow> None | Some stamps \<Rightarrow> if f stamps = [] then None else Some (f stamps))"
proof (induction m)
  case (Cons e m)
  obtain k ts where e: "e = (k, ts)" by (cases e)
  have none: "map_of m k = None" using Cons.prems e by (simp add: map_of_eq_None_iff)
  show ?case using Cons.IH Cons.prems none unfolding e by (cases "ip = k") auto
qed simp

lemma times_of_cleanup [simp]:
  "limiter_ok l \<Longrightarrow> times_of ip (cleanupExpired now l) = recent (rl_window l) now (times_of ip l)"
  unfolding times_of_def cleanupExpired_def
  by (auto simp: map_of_cleanup limiter_ok_def recent_def split: option.splits)

lemma cleanup_keys: "map fst (rl_requests (cleanupExpired now l))
    = map fst (filter (\<lambda>(ip, stamps). recent (rl_window l) now stamps \<noteq> []) (rl_requests l))"
proof -
  have "map fst (filter (\<lambda>(ip, v). v \<noteq> []) (map (\<lambda>(ip, ts). (ip, f ts)) m)) = map fst (filter (\<lambda>(ip, ts). f ts \<noteq> []) m)"
    for f :: "time list \<Rightarrow> time list" and m :: tracked
    by (induction m) auto
  then show ?thesis by (simp add: cleanupExpired_def)
qed

lemma cleanup_length: "length (rl_requests (cleanupExpired now l)) \<le> length (rl_requests l)"
proof -
  have "length (map fst (rl_requests (cleanupExpired now l))) \<le> length (rl_requests l)"
    unfolding cleanup_keys by simp
  then show ?thesis by simp
qed

lemma cleanup_ok [simp]: "limiter_ok l \<Longrightarrow> limiter_ok (cleanupExpired now l)"
  using cleanup_length[of now l]
  unfolding limiter_ok_def cleanup_keys
  by (auto simp: distinct_map_filter) (auto simp: cleanupExpired_def)

lemma counter_ok [simp]: "limiter_ok (l\<lparr>rl_cleanupAfter := n\<rparr>) = limiter_ok l"
  by (simp add: limiter_ok_def)

lemma count_request_ok [simp]: "limiter_ok l \<Longrightarrow> limiter_ok (count_request now l)"
  by (simp add: count_request_def Let_def)

lemma count_request_fields [simp]:
  "rl_limit (count_request now l) = rl_limit l" "rl_window (count_request now l) = rl_window l"
  by (simp_all add: count_request_def Let_def)

text \<open>The loop finds an entry whose most recent request is the least recent of all, and never panics.\<close>

lemma scan_oldest_min:
  assumes "\<forall>(ip, stamps) \<in> set m. stamps \<noteq> []"
  shows "\<exists>b. scan_oldest best m = Some b
           \<and> (b = None \<longleftrightarrow> best = None \<and> m = [])
           \<and> (\<forall>ip t. b = Some (ip, t) \<longrightarrow>
                (best = Some (ip, t) \<or> (\<exists>stamps. (ip, stamps) \<in> set m \<and> t = last stamps))
                \<and> (\<forall>ip' t'. best = Some (ip', t') \<longrightarrow> t \<le> t')
                \<and> (\<forall>(ip', stamps') \<in> set m. t \<le> last stamps'))"
  using assms
proof (induction best m rule: scan_oldest.induct)
  case (2 best ip stamps rest)
  let ?best = "case best of None \<Rightarrow> Some (ip, last stamps)
     | Some (oldestIP, oldest) \<Rightarrow> if last stamps < oldest then Some (ip, last stamps) else best"
  have ne: "stamps \<noteq> []" using 2(2) by simp
  obtain b where b: "scan_oldest ?best rest = Some b" "b \<noteq> None"
    and min: "\<forall>ip t. b = Some (ip, t) \<longrightarrow>
        (?best = Some (ip, t) \<or> (\<exists>stamps. (ip, stamps) \<in> set rest \<and> t = last stamps))
        \<and> (\<forall>ip' t'. ?best = Some (ip', t') \<longrightarrow> t \<le> t') \<and> (\<forall>(ip', stamps') \<in> set rest. t \<le> last stamps')"
    using 2(1)[OF ne refl] 2(2) by (cases best) (auto split: if_splits)
  obtain ipb tb where bb: "b = Some (ipb, tb)" using b(2) by auto
  show ?case
    using b ne min unfolding bb
    by (cases best) (auto split: if_splits simp: Let_def intro: order_trans)
qed auto

lemma evict_total:
  assumes "limiter_ok l" "map_order order" "rl_requests l \<noteq> []"
  obtains ip stamps where "evictLeastRecent order l = Some (l\<lparr>rl_requests := AList.delete ip (rl_requests l)\<rparr>)"
    "(ip, stamps) \<in> set (rl_requests l)"
    "\<forall>(ip', stamps') \<in> set (rl_requests l). last stamps \<le> last stamps'"
proof -
  have same: "set (order (rl_requests l)) = set (rl_requests l)"
    using assms(2) unfolding map_order_def by (metis set_mset_mset)
  have ne: "\<forall>(ip, stamps) \<in> set (order (rl_requests l)). stamps \<noteq> []" "order (rl_requests l) \<noteq> []"
    using assms(1,3) same unfolding limiter_ok_def by auto
  obtain ip t where s: "scan_oldest None (order (rl_requests l)) = Some (Some (ip, t))"
    "\<exists>stamps. (ip, stamps) \<in> set (order (rl_requests l)) \<and> t = last stamps"
    "\<forall>(ip', stamps') \<in> set (order (rl_requests l)). t \<le> last stamps'"
    using scan_oldest_min[OF ne(1), of None] ne(2) by fastforce
  show ?thesis using that s same by (auto simp: evictLeastRecent_def)
qed

section \<open>One request\<close>

lemma times_ne:
  assumes "limiter_ok l"
  shows "times_of ip l = [] \<longleftrightarrow> ip \<notin> fst ` set (rl_requests l)"
proof (cases "map_of (rl_requests l) ip")
  case None
  then have "ip \<notin> fst ` set (rl_requests l)" by (simp add: map_of_eq_None_iff)
  moreover have "times_of ip l = []" using None by (simp add: times_of_def)
  ultimately show ?thesis by simp
next
  case (Some v)
  then have "(ip, v) \<in> set (rl_requests l)" by (rule map_of_SomeD)
  then show ?thesis using assms Some by (force simp: times_of_def limiter_ok_def)
qed

lemma make_room_total:
  assumes ok: "limiter_ok l" and order: "map_order order" and stamps: "stamps = times_of ip l"
  obtains e l2 where "make_room order now stamps l = Some (e, l2)" "limiter_ok l2"
    "rl_limit l2 = rl_limit l" "rl_window l2 = rl_window l"
    "stamps = [] \<Longrightarrow> length (rl_requests l2) < maxTrackedClients"
    "stamps \<noteq> [] \<Longrightarrow> l2 = l"
    "\<not> e \<Longrightarrow> l2 = l \<or> l2 = cleanupExpired now l"
    "e \<Longrightarrow> maxTrackedClients \<le> length (filter (\<lambda>(ip, ts). recent (rl_window l) now ts \<noteq> []) (rl_requests l))"
proof (cases "stamps = [] \<and> length (rl_requests l) \<ge> maxTrackedClients")
  case False
  then show ?thesis using that[of False l] ok by (auto simp: make_room_def)
next
  case True
  let ?l1 = "cleanupExpired now l"
  show ?thesis
  proof (cases "length (rl_requests ?l1) \<ge> maxTrackedClients")
    case False
    then show ?thesis using that[of False ?l1] True ok by (auto simp: make_room_def Let_def)
  next
    case big: True
    have ok1: "limiter_ok ?l1" using ok by simp
    have "rl_requests ?l1 \<noteq> []" using big by (auto simp: maxTrackedClients_def)
    then obtain ip' ts where ev: "evictLeastRecent order ?l1 = Some (?l1\<lparr>rl_requests := AList.delete ip' (rl_requests ?l1)\<rparr>)"
      "(ip', ts) \<in> set (rl_requests ?l1)"
      using evict_total[OF ok1 order] by metis
    let ?l2 = "?l1\<lparr>rl_requests := AList.delete ip' (rl_requests ?l1)\<rparr>"
    have "length (AList.delete ip' (rl_requests ?l1)) < length (rl_requests ?l1)"
      using ev(2) unfolding AList.delete_eq by (intro length_filter_less) auto
    then have len: "length (AList.delete ip' (rl_requests ?l1)) < maxTrackedClients"
      using ok1 by (simp add: limiter_ok_def)
    have "limiter_ok ?l2"
      using ok1 len by (auto simp: limiter_ok_def distinct_map_filter AList.delete_eq)
    moreover have "maxTrackedClients \<le> length (filter (\<lambda>(ip, ts). recent (rl_window l) now ts \<noteq> []) (rl_requests l))"
      using big cleanup_keys[of now l] by (metis length_map)
    ultimately show ?thesis using that[of True ?l2] True big ev(1) len by (auto simp: make_room_def Let_def)
  qed
qed

lemma update_ok:
  assumes "limiter_ok l" "v \<noteq> []" "ip \<in> fst ` set (rl_requests l) \<or> length (rl_requests l) < maxTrackedClients"
  shows "limiter_ok (l\<lparr>rl_requests := AList.update ip v (rl_requests l)\<rparr>)"
proof -
  have "length (AList.update ip v m) = length m + (if ip \<in> fst ` set m then 0 else 1)" for m :: tracked
    by (induction m) auto
  moreover have "ts \<noteq> []" if "(i, ts) \<in> set (AList.update ip v m)" "\<forall>(i, ts) \<in> set m. ts \<noteq> []" for i ts and m :: tracked
    using that assms(2) by (induction m) (auto split: if_splits)
  ultimately show ?thesis using assms by (auto simp: limiter_ok_def distinct_update split: if_splits)
qed

text \<open>
  \<open>admit_spec\<close> gathers what one request does: it never panics, keeps the invariant, refuses exactly
  when the client has \<open>limit\<close> recorded requests in the window, records an admitted request, and
  evicts only when every slot is held by a client active in the window.
\<close>

lemma admit_spec:
  assumes ok: "limiter_ok l" and order: "map_order order"
  obtains v l' where "admit order ip now l = Some (v, l')" "limiter_ok l'"
    "rl_limit l' = rl_limit l" "rl_window l' = rl_window l"
    "v = Limited \<longleftrightarrow> rl_limit l \<le> int (length (recent (rl_window l) now (times_of ip (count_request now l))))"
    "\<And>ip'. v \<noteq> Admitted True \<Longrightarrow>
       times_of ip' l' = (if ip' = ip then recent (rl_window l) now (times_of ip (count_request now l)) @ (if v = Limited then [] else [now])
                          else times_of ip' (count_request now l))
       \<or> times_of ip' l' = (if ip' = ip then recent (rl_window l) now (times_of ip (count_request now l)) @ (if v = Limited then [] else [now])
                          else recent (rl_window l) now (times_of ip' (count_request now l)))"
    "v = Admitted True \<Longrightarrow> maxTrackedClients \<le> length (filter (\<lambda>(ip, ts). recent (rl_window l) now ts \<noteq> []) (rl_requests (count_request now l)))"
proof -
  let ?l1 = "count_request now l"
  let ?valid = "recent (rl_window l) now (times_of ip ?l1)"
  have ok1: "limiter_ok ?l1" using ok by simp
  show ?thesis
  proof (cases "rl_limit l \<le> int (length ?valid)")
    case True
    then have "?valid \<noteq> []" using ok by (auto simp: limiter_ok_def)
    then have "times_of ip ?l1 \<noteq> []" by (auto simp: recent_def)
    then have "ip \<in> fst ` set (rl_requests ?l1)" using times_ne[OF ok1] by blast
    then have "limiter_ok (?l1\<lparr>rl_requests := AList.update ip ?valid (rl_requests ?l1)\<rparr>)"
      using update_ok[OF ok1 \<open>?valid \<noteq> []\<close>] by blast
    then show ?thesis using True
      by (intro that[of Limited "?l1\<lparr>rl_requests := AList.update ip ?valid (rl_requests ?l1)\<rparr>"])
         (simp_all add: admit_def Let_def)
  next
    case False
    obtain e l2 where room: "make_room order now (times_of ip ?l1) ?l1 = Some (e, l2)" "limiter_ok l2"
      "rl_limit l2 = rl_limit ?l1" "rl_window l2 = rl_window ?l1"
      "times_of ip ?l1 = [] \<Longrightarrow> length (rl_requests l2) < maxTrackedClients"
      "times_of ip ?l1 \<noteq> [] \<Longrightarrow> l2 = ?l1"
      "\<not> e \<Longrightarrow> l2 = ?l1 \<or> l2 = cleanupExpired now ?l1"
      "e \<Longrightarrow> maxTrackedClients \<le> length (filter (\<lambda>(ip, ts). recent (rl_window ?l1) now ts \<noteq> []) (rl_requests ?l1))"
      by (rule make_room_total[OF ok1 order refl, where ip = ip and now = now]) blast
    let ?l3 = "l2\<lparr>rl_requests := AList.update ip (?valid @ [now]) (rl_requests l2)\<rparr>"
    have "ip \<in> fst ` set (rl_requests l2) \<or> length (rl_requests l2) < maxTrackedClients"
      using room(5,6) times_ne[OF ok1, of ip] by blast
    then have "limiter_ok ?l3" using update_ok[OF room(2), of "?valid @ [now]" ip] by simp
    moreover have "admit order ip now l = Some (Admitted e, ?l3)"
      using False room(1) by (simp add: admit_def Let_def)
    moreover have "times_of ip' l2 = times_of ip' ?l1 \<or> times_of ip' l2 = recent (rl_window l) now (times_of ip' ?l1)"
      if "\<not> e" for ip'
      using room(7)[OF that] times_of_cleanup[OF ok1] by auto
    ultimately show ?thesis using False room(3,4,8) by (intro that[of "Admitted e" ?l3]) simp_all
  qed
qed

section \<open>Sequences of requests\<close>

text \<open>The limiter agrees with the history: from \<open>T\<close> on, the stamps in the window are those of the history.\<close>

definition tracks :: "ipRateLimiter \<Rightarrow> (string \<times> time) list \<Rightarrow> time \<Rightarrow> bool" where
  "tracks l history T \<longleftrightarrow>
     (\<forall>ip now. T \<le> now \<longrightarrow>
        recent (rl_window l) now (times_of ip l) = map snd (in_window (rl_window l) ip now history))"

lemma recent_recent:
  "limiter_ok l \<Longrightarrow> now \<le> later \<Longrightarrow>
   recent (rl_window l) later (recent (rl_window l) now stamps) = recent (rl_window l) later stamps"
  by (auto simp: recent_exact intro!: filter_cong)

lemma recent_append [simp]: "recent win now (xs @ ys) = recent win now xs @ recent win now ys"
  by (simp add: recent_def)

lemma recent_Nil [simp]: "recent win now [] = []"
  by (simp add: recent_def)

lemma length_filter_mono: "(\<And>x. x \<in> set xs \<Longrightarrow> P x \<Longrightarrow> Q x) \<Longrightarrow> length (filter P xs) \<le> length (filter Q xs)"
  by (induction xs) auto

lemma tracks_count: "limiter_ok l \<Longrightarrow> tracks l history T \<Longrightarrow> T \<le> now \<Longrightarrow> tracks (count_request now l) history now"
  by (auto simp: tracks_def count_request_def Let_def)
     (metis recent_recent order_trans)

lemma tracks_admit:
  assumes ok: "limiter_ok l" and order: "map_order order" and tr: "tracks l history T" "T \<le> now"
    and adm: "admit order ip now l = Some (v, l')" and kept: "v \<noteq> Admitted True"
  shows "v = Limited \<longleftrightarrow> rl_limit l \<le> int (length (in_window (rl_window l) ip now history))"
    and "tracks l' (if v = Limited then history else history @ [(ip, now)]) now"
proof -
  let ?l1 = "count_request now l" and ?h' = "if v = Limited then history else history @ [(ip, now)]"
  have tr1: "tracks ?l1 history now" by (rule tracks_count[OF ok tr])
  obtain v' l'' where spec: "admit order ip now l = Some (v', l'')" "rl_window l'' = rl_window l"
    "v' = Limited \<longleftrightarrow> rl_limit l \<le> int (length (recent (rl_window l) now (times_of ip ?l1)))"
    "\<And>ip'. v' \<noteq> Admitted True \<Longrightarrow>
       times_of ip' l'' = (if ip' = ip then recent (rl_window l) now (times_of ip ?l1) @ (if v' = Limited then [] else [now])
                          else times_of ip' ?l1)
       \<or> times_of ip' l'' = (if ip' = ip then recent (rl_window l) now (times_of ip ?l1) @ (if v' = Limited then [] else [now])
                          else recent (rl_window l) now (times_of ip' ?l1))"
    by (rule admit_spec[OF ok order, where ip = ip and now = now]) blast
  have eq: "v' = v" "l'' = l'" using adm spec(1) by simp_all
  show "v = Limited \<longleftrightarrow> rl_limit l \<le> int (length (in_window (rl_window l) ip now history))"
    using spec(3) tr1 eq by (simp add: tracks_def)
  have "recent (rl_window l) t (times_of ip' l') = map snd (in_window (rl_window l) ip' t ?h')" if t: "now \<le> t" for ip' t
  proof -
    have prune: "recent (rl_window l) t (recent (rl_window l) now xs) = recent (rl_window l) t xs" for xs
      by (rule recent_recent[OF ok t])
    have old: "recent (rl_window l) t (times_of i ?l1) = map snd (in_window (rl_window l) i t history)" for i
      using tr1 t by (simp add: tracks_def)
    have new: "recent (rl_window l) t [now] = (if t - now \<le> rl_window l then [now] else [])"
      using recent_exact[OF ok] by simp
    show ?thesis using spec(4)[of ip'] kept old[of ip'] new unfolding eq
      by (auto simp: prune in_window_def split: if_splits)
  qed
  then show "tracks l' ?h' now" using spec(2) eq by (simp add: tracks_def)
qed

definition arrivals_ok :: "time \<Rightarrow> arrival list \<Rightarrow> bool" where
  "arrivals_ok T rs \<longleftrightarrow> sorted (T # map (\<lambda>(ip, now, order). now) rs) \<and> (\<forall>(ip, now, order) \<in> set rs. map_order order)"

abbreviation clients :: "arrival list \<Rightarrow> (string \<times> time) list" where
  "clients rs \<equiv> map (\<lambda>(ip, now, order). (ip, now)) rs"

lemma serve_total:
  assumes "limiter_ok l" "\<forall>(ip, now, order) \<in> set rs. map_order order"
  shows "\<exists>vs l'. serve rs l = Some (vs, l') \<and> limiter_ok l' \<and> length vs = length rs"
  using assms
proof (induction rs l rule: serve.induct)
  case (2 ip now order rest l)
  have "map_order order" using 2(3) by simp
  then obtain v l1 where "admit order ip now l = Some (v, l1)" "limiter_ok l1"
    using admit_spec[OF 2(2)] by metis
  with 2 show ?case by fastforce
qed simp

text \<open>After the counting step the clients in the window are the keys that a clean-up keeps.\<close>

lemma active_in_window: "i \<in> active win now history \<longleftrightarrow> in_window win i now history \<noteq> []"
  by (force simp: active_def in_window_def filter_empty_conv)

lemma active_keys:
  assumes ok: "limiter_ok l" and tr: "tracks l history now"
  shows "active (rl_window l) now history = set (map fst (rl_requests (cleanupExpired now l)))"
    and "card (active (rl_window l) now history) = length (rl_requests (cleanupExpired now l))"
proof -
  have stamps: "recent (rl_window l) now (times_of i l) = map snd (in_window (rl_window l) i now history)" for i
    using tr by (simp add: tracks_def)
  have "i \<in> active (rl_window l) now history \<longleftrightarrow> times_of i (cleanupExpired now l) \<noteq> []" for i
    using stamps[of i] ok by (simp add: active_in_window)
  then show keys: "active (rl_window l) now history = set (map fst (rl_requests (cleanupExpired now l)))"
    using times_ne[OF cleanup_ok[OF ok]] by auto
  have "distinct (map fst (rl_requests (cleanupExpired now l)))" using cleanup_ok[OF ok, of now] by (simp add: limiter_ok_def)
  then show "card (active (rl_window l) now history) = length (rl_requests (cleanupExpired now l))"
    unfolding keys by (simp add: distinct_card del: set_map)
qed

lemma room_left:
  assumes ok: "limiter_ok l" and tr: "tracks l history now" and room: "make_room order now (times_of ip l) l = Some (False, l2)"
    and none: "recent (rl_window l) now (times_of ip l) = []"
  shows "card (active (rl_window l) now history) < maxTrackedClients"
proof (cases "times_of ip l = []")
  case True
  then show ?thesis using room active_keys(2)[OF ok tr] cleanup_length[of now l]
    by (auto simp: make_room_def Let_def split: if_splits)
next
  case False
  then have tracked: "ip \<in> fst ` set (rl_requests l)" using times_ne[OF ok] by blast
  have fresh: "ip \<notin> fst ` set (rl_requests (cleanupExpired now l))"
    using times_ne[OF cleanup_ok[OF ok], of ip now] none ok by simp
  have "set (map fst (rl_requests (cleanupExpired now l))) \<subseteq> set (map fst (rl_requests l))"
    unfolding cleanup_keys by auto
  then have gone: "set (map fst (rl_requests (cleanupExpired now l))) \<subset> set (map fst (rl_requests l))"
    using tracked fresh by auto
  have "card (active (rl_window l) now history) < card (set (map fst (rl_requests l)))"
    unfolding active_keys(1)[OF ok tr] by (rule psubset_card_mono[OF finite_set gone])
  also have "card (set (map fst (rl_requests l))) \<le> maxTrackedClients"
    using ok card_length[of "map fst (rl_requests l)"] unfolding limiter_ok_def by (metis length_map le_trans)
  finally show ?thesis .
qed

lemma tracks_evict:
  assumes ok: "limiter_ok l" and order: "map_order order" and tr: "tracks l history T" "T \<le> now"
    and adm: "admit order ip now l = Some (Admitted True, l')"
  obtains victim where "in_window (rl_window l) ip now history = []"
    "maxTrackedClients \<le> card (active (rl_window l) now history)" "victim \<in> active (rl_window l) now history"
    "\<forall>i \<in> active (rl_window l) now history.
       last_in_window (rl_window l) now history victim \<le> last_in_window (rl_window l) now history i"
    "tracks l' (filter (\<lambda>(i, t). i \<noteq> victim) history @ [(ip, now)]) now"
proof -
  let ?l1 = "count_request now l" let ?lc = "cleanupExpired now ?l1" let ?win = "rl_window l"
  have ok1: "limiter_ok ?l1" and tr1: "tracks ?l1 history now" using ok tracks_count[OF ok tr] by simp_all
  have stamps: "recent ?win t (times_of i ?l1) = map snd (in_window ?win i t history)" if "now \<le> t" for i t
    using tr1 that by (simp add: tracks_def)
  obtain l2 where room: "make_room order now (times_of ip ?l1) ?l1 = Some (True, l2)"
    and l': "l' = l2\<lparr>rl_requests := AList.update ip (recent ?win now (times_of ip ?l1) @ [now]) (rl_requests l2)\<rparr>"
    using adm by (auto simp: admit_def Let_def split: if_splits)
  then have fresh: "times_of ip ?l1 = []" and full: "maxTrackedClients \<le> length (rl_requests ?lc)"
    and evict: "evictLeastRecent order ?lc = Some l2"
    by (auto simp: make_room_def Let_def split: if_splits)
  note keys = active_keys[OF ok1 tr1, simplified]
  have okc: "limiter_ok ?lc" and some: "rl_requests ?lc \<noteq> []" using ok1 full by (auto simp: maxTrackedClients_def)
  obtain victim ts where v: "l2 = ?lc\<lparr>rl_requests := AList.delete victim (rl_requests ?lc)\<rparr>"
    "(victim, ts) \<in> set (rl_requests ?lc)" "\<forall>(i, us) \<in> set (rl_requests ?lc). last ts \<le> last us"
    using evict_total[OF okc order some] evict by (metis option.inject)
  have entry: "us = map snd (in_window ?win i now history)" if "(i, us) \<in> set (rl_requests ?lc)" for i us
  proof -
    have "map_of (rl_requests ?lc) i = Some us" using that okc by (simp add: limiter_ok_def)
    then have "us = times_of i ?lc" by (simp add: times_of_def)
    then show ?thesis using ok1 stamps[of now i] by simp
  qed
  have least: "last_in_window ?win now history victim \<le> last_in_window ?win now history i"
    if "i \<in> active ?win now history" for i
  proof -
    obtain us where us: "(i, us) \<in> set (rl_requests ?lc)" using \<open>i \<in> active ?win now history\<close> keys(1) by auto
    then have "last ts \<le> last us" using v(3) by auto
    then show ?thesis unfolding last_in_window_def using entry[OF us] entry[OF v(2)] by simp
  qed
  have gone: "times_of i l2 = (if i = victim then [] else recent ?win now (times_of i ?l1))" for i
  proof -
    have "times_of i l2 = (if i = victim then [] else times_of i ?lc)" unfolding v(1) by (simp add: times_of_def delete_conv')
    then show ?thesis using ok1 by simp
  qed
  have "recent ?win t (times_of i l') = map snd (in_window ?win i t (filter (\<lambda>(i, t). i \<noteq> victim) history @ [(ip, now)]))"
    if t: "now \<le> t" for i t
  proof -
    have later: "recent ?win t (recent ?win now xs) = recent ?win t xs" for xs by (rule recent_recent[OF ok t])
    have own: "in_window ?win ip t history = []" using stamps[OF t, of ip] fresh by simp
    have "in_window ?win i t (filter (\<lambda>(i, t). i \<noteq> victim) history) = (if i = victim then [] else in_window ?win i t history)"
      by (auto simp: in_window_def filter_empty_conv intro!: filter_cong)
    then show ?thesis using own stamps[OF t, of i] recent_exact[OF ok, of t "[now]"] unfolding l'
      by (auto simp: gone fresh later in_window_def)
  qed
  moreover have "rl_window l' = ?win" using l' v(1) by simp
  ultimately have after: "tracks l' (filter (\<lambda>(i, t). i \<noteq> victim) history @ [(ip, now)]) now" by (simp add: tracks_def)
  have "in_window ?win ip now history = []" using stamps[of now ip] fresh by simp
  moreover have "victim \<in> active ?win now history" using v(2) unfolding keys(1) by force
  ultimately show ?thesis using that after least full keys(2) by simp
qed

lemma serve_window_run:
  assumes "limiter_ok l" "arrivals_ok T rs" "tracks l history T" "serve rs l = Some (vs, l')"
  shows "window_run (rl_limit l) (rl_window l) (clients rs) history vs"
  using assms
proof (induction rs l arbitrary: T history vs rule: serve.induct)
  case (1 l)
  then show ?case by (simp add: run_end)
next
  case (2 ip now order rest l)
  have ar: "map_order order" "T \<le> now" "arrivals_ok now rest"
    using 2(3) by (auto simp: arrivals_ok_def)
  obtain v l1 where adm: "admit order ip now l = Some (v, l1)" "limiter_ok l1" "rl_limit l1 = rl_limit l" "rl_window l1 = rl_window l"
    by (rule admit_spec[OF 2(2) ar(1), where ip = ip and now = now]) blast
  obtain vs1 where vs: "serve rest l1 = Some (vs1, l')" "vs = v # vs1" using 2(5) adm(1) by auto
  have rest: "window_run (rl_limit l) (rl_window l) (clients rest) h vs1" if "tracks l1 h now" for h
    using 2(1)[OF adm(1) refl adm(2) ar(3) that vs(1)] adm(3,4) by simp
  note step = tracks_admit[OF 2(2) ar(1) 2(4) ar(2) adm(1)]
  show ?case
  proof (cases "v = Admitted True")
    case True
    have "0 < rl_limit l" using 2(2) by (simp add: limiter_ok_def)
    then show ?thesis using tracks_evict[OF 2(2) ar(1) 2(4) ar(2) adm(1)[unfolded True]] rest vs(2) True
      by (simp add: run_evict) (metis run_evict)
  next
    case kept: False
    show ?thesis
    proof (cases v)
      case Limited
      then show ?thesis using step[OF kept] rest vs(2) by (simp add: run_refuse)
    next
      case (Admitted e)
      then have v: "v = Admitted False" using kept by (cases e) auto
      have ok1: "limiter_ok (count_request now l)" using 2(2) by simp
      have tr1: "tracks (count_request now l) history now" by (rule tracks_count[OF 2(2,4) ar(2)])
      obtain l2 where "make_room order now (times_of ip (count_request now l)) (count_request now l) = Some (False, l2)"
        using adm(1) unfolding v by (auto simp: admit_def Let_def split: if_splits)
      then have "in_window (rl_window l) ip now history \<noteq> [] \<or> card (active (rl_window l) now history) < maxTrackedClients"
        using room_left[OF ok1 tr1] tr1 by (auto simp: tracks_def)
      then show ?thesis using step[OF kept] rest[of "history @ [(ip, now)]"] vs(2) unfolding v by (simp add: run_admit)
    qed
  qed
qed

text \<open>The reference admits at most \<open>limit\<close> requests of a client in any window.\<close>

fun admitted :: "(string \<times> time) list \<Rightarrow> bool list \<Rightarrow> (string \<times> time) list" where
  "admitted (r # rs) (b # bs) = (if b then r # admitted rs bs else admitted rs bs)"
| "admitted rs bs = []"

lemma sliding_bound:
  assumes "sorted (map snd (history @ rs))" "0 \<le> lim"
    and "\<forall>t. int (length (filter (\<lambda>(i, u). i = ip \<and> t \<le> u \<and> u \<le> t + win) history)) \<le> lim"
  shows "int (length (filter (\<lambda>(i, u). i = ip \<and> t \<le> u \<and> u \<le> t + win) (history @ admitted rs (sliding lim win rs history)))) \<le> lim"
  using assms
proof (induction rs arbitrary: history)
  case (Cons r rs)
  obtain i now where r: "r = (i, now)" by (cases r)
  have late: "u \<le> now" if "(j, u) \<in> set history" for j u
    using Cons.prems(1) that r by (force simp: sorted_append)
  show ?case
  proof (cases "int (length (in_window win i now history)) < lim")
    case False
    have "sorted (map snd (history @ rs))" using Cons.prems(1) by (auto simp: sorted_append)
    then show ?thesis using Cons.IH[of history] Cons.prems(2,3) False r by simp
  next
    case True
    let ?h = "history @ [(i, now)]"
    have "int (length (filter (\<lambda>(j, u). j = ip \<and> t \<le> u \<and> u \<le> t + win) ?h)) \<le> lim" for t
    proof (cases "i = ip \<and> t \<le> now \<and> now \<le> t + win")
      case False
      then show ?thesis using Cons.prems(3) by auto
    next
      case in_t: True
      have "length (filter (\<lambda>(j, u). j = ip \<and> t \<le> u \<and> u \<le> t + win) history) \<le> length (in_window win i now history)"
        unfolding in_window_def using in_t
        by (intro length_filter_mono) auto
      then show ?thesis using True in_t by auto
    qed
    moreover have "sorted (map snd (?h @ rs))" using Cons.prems(1) r by simp
    ultimately show ?thesis using Cons.IH[of ?h] Cons.prems(2) True r by simp
  qed
qed simp


section \<open>Properties\<close>

text \<open>
  C29. The rate limiter decides exactly as a window over the history of admitted requests, although the
  code prunes, cleans up every 256 requests and drops idle clients. For every sequence of requests whose
  clock does not run backwards (the reading is taken under the mutex, and Go's clock readings are
  monotonic) and every order in which Go visits the map: a request is refused if and only if \<open>limit\<close>
  requests of its client were admitted in the window before it and not forgotten; a client is forgotten if
  and only if a client with no request in the window arrives while 10000 others have one, and then it is one
  whose last request is the least recent. So in a run without an eviction the verdicts are those of the plain
  sliding window, and no client gets more than \<open>limit\<close> requests into any window.
\<close>

theorem rate_limit_exact:
  assumes "newIPRateLimiter lim win = Inr l" "int64_range win" "arrivals_ok T rs" "serve rs l = Some (vs, l')"
  shows "window_run lim win (clients rs) [] vs
    \<and> (Admitted True \<notin> set vs \<longrightarrow>
         map (\<lambda>v. v \<noteq> Limited) vs = sliding lim win (clients rs) []
         \<and> int (length (filter (\<lambda>(i, u). i = ip \<and> t \<le> u \<and> u \<le> t + win)
                      (admitted (clients rs) (map (\<lambda>v. v \<noteq> Limited) vs)))) \<le> lim)"
proof -
  have l: "rl_limit l = lim" "rl_window l = win" "rl_requests l = []" "0 < lim"
    using assms(1) by (auto simp: newIPRateLimiter_def split: if_splits)
  have "tracks l [] T" using l by (simp add: tracks_def times_of_def in_window_def)
  then have run: "window_run lim win (clients rs) [] vs"
    using serve_window_run[OF newIPRateLimiter_ok[OF assms(1,2)] assms(3) _ assms(4)] l by simp
  have "sorted (map snd ([] @ clients rs))"
    using assms(3) by (simp add: arrivals_ok_def comp_def case_prod_beta')
  then have "int (length (filter (\<lambda>(i, u). i = ip \<and> t \<le> u \<and> u \<le> t + win) (admitted (clients rs) (sliding lim win (clients rs) [])))) \<le> lim"
    using sliding_bound[of "[]" "clients rs" lim ip win t] l(4) by simp
  then show ?thesis using run window_run_sliding[OF run] by simp
qed

text \<open>
  C30. The rate limiter never panics: whatever requests it has served, whatever the clock and the map
  order, the next request gets a verdict (the index into a client's last request never hits an empty
  slice), at most 10000 clients are tracked, and a client is evicted only when the 10000 tracked clients
  all have a request inside the window.
\<close>

theorem rate_limit_total:
  assumes "newIPRateLimiter lim win = Inr l" "int64_range win"
    and "\<forall>(ip, now, order) \<in> set rs. map_order order" "map_order order"
  shows "\<exists>vs l1 v l2. serve rs l = Some (vs, l1) \<and> admit order ip now l1 = Some (v, l2)
    \<and> length (rl_requests l2) \<le> maxTrackedClients
    \<and> (v = Admitted True \<longrightarrow>
        maxTrackedClients \<le> length (filter (\<lambda>(i, ts). recent (rl_window l1) now ts \<noteq> []) (rl_requests (count_request now l1))))"
proof -
  obtain vs l1 where s: "serve rs l = Some (vs, l1)" "limiter_ok l1"
    using serve_total[OF newIPRateLimiter_ok[OF assms(1,2)] assms(3)] by blast
  obtain v l2 where "admit order ip now l1 = Some (v, l2)" "limiter_ok l2"
    "v = Admitted True \<longrightarrow> maxTrackedClients \<le> length (filter (\<lambda>(i, ts). recent (rl_window l1) now ts \<noteq> []) (rl_requests (count_request now l1)))"
    by (rule admit_spec[OF s(2) assms(4), where ip = ip and now = now]) blast
  then show ?thesis using s(1) by (auto simp: limiter_ok_def)
qed

definition demo_limiter :: ipRateLimiter where
  "demo_limiter = \<lparr>rl_requests = [], rl_limit = 2, rl_window = 10, rl_cleanupAfter = 0\<rparr>"

definition demo_arrivals :: "arrival list" where
  "demo_arrivals = map (\<lambda>t. (''10.0.0.1'', t, \<lambda>m. m)) [1, 2, 3, 12]"

lemma demo_limiter_facts:
  "newIPRateLimiter 2 10 = Inr demo_limiter" "int64_range (10::int)" "map_order (\<lambda>m. m)"
  "arrivals_ok 0 demo_arrivals"
  "map_option fst (serve demo_arrivals demo_limiter) = Some [Admitted False, Admitted False, Limited, Admitted False]"
proof -
  show "newIPRateLimiter 2 10 = Inr demo_limiter" by (simp add: newIPRateLimiter_def demo_limiter_def wrap64_def)
  show "int64_range (10::int)" by (simp add: int64_range_def)
  show "map_order (\<lambda>m. m)" by (simp add: map_order_def)
  show "arrivals_ok 0 demo_arrivals" by (simp add: arrivals_ok_def demo_arrivals_def map_order_def)
  show "map_option fst (serve demo_arrivals demo_limiter) = Some [Admitted False, Admitted False, Limited, Admitted False]"
    by code_simp
qed

theorem rate_limit_exact_witness:
  "\<exists>vs l'. serve demo_arrivals demo_limiter = Some (vs, l')
     \<and> map (\<lambda>v. v \<noteq> Limited) vs = [True, True, False, True]
     \<and> sliding 2 10 (clients demo_arrivals) [] = [True, True, False, True]
     \<and> window_run 2 10 (clients demo_arrivals) [] vs"
proof -
  obtain l' where s: "serve demo_arrivals demo_limiter = Some ([Admitted False, Admitted False, Limited, Admitted False], l')"
    using demo_limiter_facts(5) by auto
  then show ?thesis using rate_limit_exact[OF demo_limiter_facts(1,2,4) s] by simp
qed

theorem rate_limit_total_witness:
  "\<exists>vs l1 v l2. serve demo_arrivals demo_limiter = Some (vs, l1)
     \<and> admit (\<lambda>m. m) ''10.0.0.1'' 13 l1 = Some (v, l2) \<and> length (rl_requests l2) \<le> maxTrackedClients"
proof -
  have "\<forall>(ip, now, order) \<in> set demo_arrivals. map_order order"
    by (simp add: demo_arrivals_def map_order_def)
  then show ?thesis
    using rate_limit_total[OF demo_limiter_facts(1,2) _ demo_limiter_facts(3), of demo_arrivals "''10.0.0.1''" 13] by blast
qed

end
