(* ===== verification/Http_Middleware.thy ===== *)
theory Http_Middleware
  imports Rate_Limit Auth_Service
begin

text \<open>
  \<open>internal/httpapi/response\<close> and \<open>internal/httpapi/middleware\<close>: the response envelope and the gin
  middleware (request id, access log metrics, recovery, body limit, rate limit, authentication, roles).

  gin is third-party code. What the program reads of a request (headers, path parameters, the body,
  the client address) are fields of \<open>gin_context\<close>, beside the values middleware puts into the request's
  context and the response written so far. A handler takes the context and the server and returns or
  panics; a middleware takes the rest of the chain, which \<open>c.Next()\<close> runs, as its argument \<open>next\<close>, so
  that returning without it is \<open>c.Abort()\<close>. The lines the program logs are output only and left out.
\<close>

section \<open>Contexts and servers\<close>

record gin_context =
  gc_Method :: string
  gc_Path :: string
  gc_FullPath :: string
  gc_GetHeader :: "string \<Rightarrow> string"
  gc_Param :: "string \<Rightarrow> string"
  gc_ClientIP :: string
  gc_Body :: string
  gc_RawQuery :: string
  gc_BodyLimit :: "int option"
  gc_RequestID :: "string option"
  gc_Identity :: "UserIdentity option"
  gc_userID :: "string option"
  gc_ResponseHeader :: "(string \<times> string) list"
  gc_Status :: int
  gc_Written :: bool
  gc_Output :: "json list"

record server =
  srv_world :: world
  srv_limiter :: ipRateLimiter

datatype outcome = Returned gin_context server | Panicked gin_context server

type_synonym handler = "gin_context \<Rightarrow> server \<Rightarrow> outcome"

text \<open>Run a computation of the services on the server.\<close>

definition run_go :: "'a go \<Rightarrow> server \<Rightarrow> (go_error + 'a) \<times> server" where
  "run_go m s = (case m (srv_world s) of (r, w) \<Rightarrow> (r, s\<lparr>srv_world := w\<rparr>))"

text \<open>\<open>if collector != nil { collector.Record(...) }\<close>\<close>

definition count_metric :: "(MetricsCollector \<Rightarrow> MetricsCollector) \<Rightarrow> server \<Rightarrow> server" where
  "count_metric f s = snd (run_go (record_metric f) s)"

section \<open>Responses\<close>

record Meta =
  mt_Page :: int
  mt_Limit :: int
  mt_Total :: int
  mt_TotalPages :: int

definition SetHeader :: "string \<Rightarrow> string \<Rightarrow> gin_context \<Rightarrow> gin_context" where
  "SetHeader k v c = c\<lparr>gc_ResponseHeader := AList.update k v (gc_ResponseHeader c)\<rparr>"

text \<open>gin ignores a status after the body has been started.\<close>

definition WriteHeader :: "int \<Rightarrow> gin_context \<Rightarrow> gin_context" where
  "WriteHeader status c = (if gc_Written c then c else c\<lparr>gc_Status := status\<rparr>)"

text \<open>\<open>json.NewEncoder(writer).Encode\<close>: a value that cannot be marshalled writes nothing.\<close>

definition Encode :: "go_error + json \<Rightarrow> gin_context \<Rightarrow> gin_context" where
  "Encode payload c =
     (case payload of Inl _ \<Rightarrow> c | Inr j \<Rightarrow> c\<lparr>gc_Written := True, gc_Output := gc_Output c @ [j]\<rparr>)"

definition writeJSON :: "int \<Rightarrow> go_error + json \<Rightarrow> gin_context \<Rightarrow> gin_context" where
  "writeJSON status payload c =
     Encode payload (WriteHeader status (SetHeader ''Content-Type'' ''application/json; charset=utf-8'' c))"

definition marshal_Meta :: "Meta \<Rightarrow> json" where
  "marshal_Meta m =
     JObj [(''page'', json_int (mt_Page m)), (''limit'', json_int (mt_Limit m)),
           (''total'', json_int (mt_Total m)), (''total_pages'', json_int (mt_TotalPages m))]"

definition marshal_Success :: "json \<Rightarrow> Meta option \<Rightarrow> json" where
  "marshal_Success data meta =
     JObj ([(''success'', JBool True), (''data'', data)]
           @ (case meta of None \<Rightarrow> [] | Some m \<Rightarrow> [(''meta'', marshal_Meta m)]))"

definition WriteSuccess :: "int \<Rightarrow> go_error + json \<Rightarrow> Meta option \<Rightarrow> gin_context \<Rightarrow> gin_context" where
  "WriteSuccess status data meta = writeJSON status (bind_result data (\<lambda>j. Inr (marshal_Success j meta)))"

definition WriteNoContent :: "gin_context \<Rightarrow> gin_context" where
  "WriteNoContent = WriteHeader 204"

definition marshal_FieldError :: "FieldError \<Rightarrow> json" where
  "marshal_FieldError e = JObj [(''field'', json_string (fe_Field e)), (''message'', json_string (fe_Message e))]"

definition marshal_Error :: "string \<Rightarrow> domain_error \<Rightarrow> json" where
  "marshal_Error requestID e =
     JObj [(''success'', JBool False),
           (''error'', JObj ([(''code'', json_string (err_Code e)), (''message'', json_string (err_Message e))]
              @ (if err_Details e = [] then [] else [(''details'', JArr (map marshal_FieldError (err_Details e)))]))),
           (''request_id'', json_string requestID)]"

text \<open>Whole seconds, rounded up.\<close>

definition retry_after_seconds :: "duration \<Rightarrow> int" where
  "retry_after_seconds d = (let seconds = quot d Second in if remainder d Second \<noteq> 0 then seconds + 1 else seconds)"

definition WriteError :: "string \<Rightarrow> go_error \<Rightarrow> gin_context \<Rightarrow> gin_context" where
  "WriteError requestID err c =
     (let domainError = AsError err;
          c1 = (if err_RetryAfter domainError > 0
                then SetHeader ''Retry-After'' (FormatInt (retry_after_seconds (err_RetryAfter domainError))) c else c)
      in writeJSON (err_Status domainError) (Inr (marshal_Error requestID domainError)) c1)"

section \<open>Request ids, access log, recovery, body limit\<close>

definition RequestIDHeader :: string where "RequestIDHeader = ''X-Request-ID''"

definition RequestIDFromContext :: "gin_context \<Rightarrow> string" where
  "RequestIDFromContext c = (case gc_RequestID c of None \<Rightarrow> '''' | Some i \<Rightarrow> i)"

definition isUUIDv4 :: "platform \<Rightarrow> string \<Rightarrow> bool" where
  "isUUIDv4 P v \<longleftrightarrow> (case uuid_Parse P v of None \<Rightarrow> False | Some u \<Rightarrow> uuid_Version P u = 4)"

text \<open>\<open>new_uuid\<close> and \<open>read_clock\<close> on the server; neither fails.\<close>

definition server_uuid :: "platform \<Rightarrow> server \<Rightarrow> uuid \<times> server" where
  "server_uuid P s = (uuid_New P (calls (srv_world s)), snd (run_go (new_uuid P) s))"

definition server_clock :: "platform \<Rightarrow> server \<Rightarrow> time \<times> server" where
  "server_clock P s = (time_Now P (calls (srv_world s)), snd (run_go (read_clock P) s))"

definition RequestID :: "platform \<Rightarrow> handler \<Rightarrow> handler" where
  "RequestID P next c s =
     (let header = gc_GetHeader c RequestIDHeader;
          (requestID, s1) = (if isUUIDv4 P header then (header, s) else map_prod (uuid_String P) id (server_uuid P s))
      in next (SetHeader RequestIDHeader requestID (c\<lparr>gc_RequestID := Some requestID\<rparr>)) s1)"

definition unmatchedRouteLabel :: string where "unmatchedRouteLabel = ''unmatched''"

definition AccessLog :: "platform \<Rightarrow> handler \<Rightarrow> handler" where
  "AccessLog P next c s =
     (let (startedAt, s1) = server_clock P s
      in case next c s1 of
           Panicked c2 s2 \<Rightarrow> Panicked c2 s2
         | Returned c2 s2 \<Rightarrow>
             (let (finishedAt, s3) = server_clock P s2;
                  latencyMs = quot (time_Sub finishedAt startedAt) 1000000;
                  path = gc_Path c2;
                  isProbe = (path = ''/healthz'' \<or> path = ''/readyz'');
                  metricPath = (if gc_FullPath c2 = '''' then unmatchedRouteLabel else gc_FullPath c2)
              in Returned c2 (if isProbe then s3
                              else count_metric (RecordHTTPRequest (gc_Method c2) metricPath (gc_Status c2) latencyMs) s3)))"

definition Recovery :: "handler \<Rightarrow> handler" where
  "Recovery next c s =
     (case next c s of
        Returned c1 s1 \<Rightarrow> Returned c1 s1
      | Panicked c1 s1 \<Rightarrow>
          Returned (if gc_Written c1 then c1 else WriteError (RequestIDFromContext c1) (DomainError Internal) c1) s1)"

definition BodyLimit :: "int \<Rightarrow> handler \<Rightarrow> handler" where
  "BodyLimit maxBytes next c s = next (c\<lparr>gc_BodyLimit := Some maxBytes\<rparr>) s"

section \<open>Rate limit\<close>

definition too_many_requests :: domain_error where
  "too_many_requests =
     new_error ''TOO_MANY_REQUESTS'' ''Terlalu banyak percobaan, silakan coba beberapa saat lagi'' 429"

definition client_key :: "gin_context \<Rightarrow> string" where
  "client_key c = (if gc_ClientIP c = '''' then ''unknown'' else gc_ClientIP c)"

text \<open>A panic in the critical section leaves the limiter's lock held; the state is then not read again.\<close>

definition rateLimitHandler :: "platform \<Rightarrow> (tracked \<Rightarrow> tracked) \<Rightarrow> handler \<Rightarrow> handler" where
  "rateLimitHandler P order next c s =
     (let (now, s1) = server_clock P s
      in case admit order (client_key c) now (srv_limiter s1) of
           None \<Rightarrow> Panicked c s1
         | Some (Limited, l) \<Rightarrow>
             Returned (WriteError (RequestIDFromContext c) (DomainError too_many_requests) (SetHeader ''Retry-After'' ''60'' c))
               (count_metric (RecordAuthFailure ''rate_limited'') (s1\<lparr>srv_limiter := l\<rparr>))
         | Some (Admitted evicted, l) \<Rightarrow>
             next c (let s2 = s1\<lparr>srv_limiter := l\<rparr> in if evicted then count_metric RecordRateLimiterEviction s2 else s2))"

section \<open>Authentication\<close>

text \<open>\<open>strings.SplitN(s, " ", 2)\<close> with two parts, or \<open>None\<close> when there is no space.\<close>

fun split_space :: "string \<Rightarrow> (string \<times> string) option" where
  "split_space [] = None"
| "split_space (ch # cs) =
     (if ch = CHR '' '' then Some ([], cs) else map_option (\<lambda>(a, b). (ch # a, b)) (split_space cs))"

text \<open>\<open>strings.EqualFold(s, "Bearer")\<close>: no rune beyond ASCII folds to one of these letters.\<close>

definition equal_fold_bearer :: "string \<Rightarrow> bool" where
  "equal_fold_bearer s \<longleftrightarrow> map lower_byte s = ''bearer''"

definition bearer_token :: "string \<Rightarrow> string option" where
  "bearer_token authHeader =
     (case split_space authHeader of
        None \<Rightarrow> None
      | Some (scheme, rest) \<Rightarrow>
          if \<not> equal_fold_bearer scheme \<or> TrimSpace rest = '''' then None else Some (TrimSpace rest))"

text \<open>One \<open>jwt.Parse\<close>, which reads the clock; the claims of a token that is valid.\<close>

definition hs256_key :: "string \<Rightarrow> string \<Rightarrow> go_error + string" where
  "hs256_key secret alg =
     (if alg \<noteq> ''HS256'' then Inl (PlainError ''unexpected signing algorithm'') else Inr secret)"

definition parseTokenWithSecret :: "platform \<Rightarrow> jwt_library \<Rightarrow> string \<Rightarrow> string \<Rightarrow> server \<Rightarrow> (string \<times> json) list option \<times> server" where
  "parseTokenWithSecret P J tokenString secret s =
     (let (now, s1) = server_clock P s
      in (case jwt_Parse J tokenString now (hs256_key secret) of Inr (True, claims) \<Rightarrow> Some claims | _ \<Rightarrow> None, s1))"

fun try_keys :: "platform \<Rightarrow> jwt_library \<Rightarrow> string \<Rightarrow> string \<Rightarrow> (string \<times> string) list \<Rightarrow> server \<Rightarrow> (string \<times> json) list option \<times> server" where
  "try_keys P J tokenString activeKid [] s = (None, s)"
| "try_keys P J tokenString activeKid ((k, secret) # keys) s =
     (if k = activeKid then try_keys P J tokenString activeKid keys s
      else case parseTokenWithSecret P J tokenString secret s of
             (Some claims, s1) \<Rightarrow> (Some claims, s1)
           | (None, s1) \<Rightarrow> try_keys P J tokenString activeKid keys s1)"

datatype kid_header = NoKid | Kid string | BadKid

definition kid_of :: "jwt_library \<Rightarrow> string \<Rightarrow> kid_header" where
  "kid_of J tokenString =
     (case jwt_ParseUnverified J tokenString of
        None \<Rightarrow> NoKid
      | Some header \<Rightarrow>
          (case map_of header ''kid'' of None \<Rightarrow> NoKid | Some (JStr k) \<Rightarrow> Kid k | Some _ \<Rightarrow> BadKid))"

text \<open>The verified claims of a token; \<open>order\<close> is the order in which the map of all keys is visited.\<close>

definition verify_token ::
  "platform \<Rightarrow> jwt_library \<Rightarrow> ((string \<times> string) list \<Rightarrow> (string \<times> string) list) \<Rightarrow> KeyProvider \<Rightarrow> string \<Rightarrow> server
   \<Rightarrow> (string \<times> json) list option \<times> server" where
  "verify_token P J order kp tokenString s =
     (case kid_of J tokenString of
        BadKid \<Rightarrow> (None, s)
      | Kid kid \<Rightarrow>
          (case kp_GetKey kp kid of
             None \<Rightarrow> (None, s)
           | Some secret \<Rightarrow> parseTokenWithSecret P J tokenString secret s)
      | NoKid \<Rightarrow>
          (let (activeKid, activeSecret) = kp_ActiveKey kp;
               (first, s1) = (if activeSecret \<noteq> '''' then parseTokenWithSecret P J tokenString activeSecret s else (None, s))
           in case first of
                Some claims \<Rightarrow> (Some claims, s1)
              | None \<Rightarrow> try_keys P J tokenString activeKid (order (kp_AllKeys kp)) s1))"

definition string_claim :: "(string \<times> json) list \<Rightarrow> string \<Rightarrow> string option" where
  "string_claim claims k = (case map_of claims k of Some (JStr v) \<Rightarrow> Some v | _ \<Rightarrow> None)"

text \<open>The checks on the claims, in the code's order, and the identity they give.\<close>

definition claimed_identity :: "platform \<Rightarrow> string \<Rightarrow> string \<Rightarrow> (string \<times> json) list \<Rightarrow> UserIdentity option" where
  "claimed_identity P expectedIssuer expectedAudience claims =
     (if expectedIssuer \<noteq> '''' \<and> string_claim claims ''iss'' \<noteq> Some expectedIssuer then None
      else if expectedAudience \<noteq> '''' \<and> string_claim claims ''aud'' \<noteq> Some expectedAudience then None
      else
        (let subStr = (case string_claim claims ''sub'' of Some v \<Rightarrow> v | None \<Rightarrow> '''')
         in case uuid_Parse P subStr of
              None \<Rightarrow> None
            | Some userID \<Rightarrow>
                (case string_claim claims ''username'' of
                   None \<Rightarrow> None
                 | Some username \<Rightarrow>
                     if TrimSpace username = '''' then None
                     else
                       (let role = (case string_claim claims ''role'' of Some v \<Rightarrow> v | None \<Rightarrow> '''')
                        in if \<not> UserRole_IsValid role then None
                           else Some \<lparr>id_ID = userID, id_Username = username, id_Role = role\<rparr>))))"

definition unauthorized :: handler where
  "unauthorized c s =
     Returned (WriteError (RequestIDFromContext c) (DomainError Unauthorized) c)
       (count_metric (RecordAuthFailure ''unauthorized'') s)"

definition AuthenticateWithKeyProvider ::
  "platform \<Rightarrow> jwt_library \<Rightarrow> ((string \<times> string) list \<Rightarrow> (string \<times> string) list) \<Rightarrow> KeyProvider option
   \<Rightarrow> string \<Rightarrow> string \<Rightarrow> handler \<Rightarrow> handler" where
  "AuthenticateWithKeyProvider P J order keyProvider expectedIssuer expectedAudience next c s =
     (case keyProvider of
        None \<Rightarrow> unauthorized c s
      | Some kp \<Rightarrow>
          if gc_GetHeader c ''Authorization'' = '''' then unauthorized c s
          else
            (case bearer_token (gc_GetHeader c ''Authorization'') of
               None \<Rightarrow> unauthorized c s
             | Some tokenString \<Rightarrow>
                 (case verify_token P J order kp tokenString s of
                    (None, s1) \<Rightarrow> unauthorized c s1
                  | (Some claims, s1) \<Rightarrow>
                      (case claimed_identity P expectedIssuer expectedAudience claims of
                         None \<Rightarrow> unauthorized c s1
                       | Some identity \<Rightarrow>
                           next (c\<lparr>gc_userID := Some (uuid_String P (id_ID identity)), gc_Identity := Some identity\<rparr>) s1))))"

definition Authenticate ::
  "platform \<Rightarrow> jwt_library \<Rightarrow> ((string \<times> string) list \<Rightarrow> (string \<times> string) list) \<Rightarrow> string \<Rightarrow> string \<Rightarrow> string \<Rightarrow> handler \<Rightarrow> handler" where
  "Authenticate P J order jwtSecret =
     AuthenticateWithKeyProvider P J order (Some (static_provider (NewStaticKeyProvider ''v1'' jwtSecret [])))"

definition RequireRole :: "UserRole list \<Rightarrow> handler \<Rightarrow> handler" where
  "RequireRole allowedRoles next c s =
     (case gc_Identity c of
        None \<Rightarrow> Returned (WriteError (RequestIDFromContext c) (DomainError Unauthorized) c) s
      | Some identity \<Rightarrow>
          if id_Role identity \<notin> set allowedRoles
          then Returned (WriteError (RequestIDFromContext c) (DomainError Forbidden) c) s
          else next c s)"

end
