(* ===== verification/Http_Validation.thy ===== *)
theory Http_Validation
  imports Http_Middleware Disbursement_Service
begin

text \<open>
  \<open>internal/httpapi/dto\<close>, \<open>internal/httpapi/validation\<close> and \<open>internal/httpapi/binding\<close>: the request
  bodies with their \<open>validate\<close> tags as data, the translation of the validator's errors, and dates.
  The engine of \<open>go-playground/validator\<close> and gin's binding are third-party code and arguments: the
  engine is given the registered \<open>maxchars\<close> rule and, per field, the name the program's
  \<open>jsonFieldName\<close> reports, its value and its tag.
\<close>

section \<open>The validator\<close>

datatype field_value = FString string | FInt int

record struct_field =
  sf_Name :: string
  sf_json :: string
  sf_value :: field_value
  sf_validate :: string

datatype engine_outcome = EngineOK | EngineErrors "(string \<times> string \<times> string) list" | EngineInvalid

record validator_library =
  engine_Struct :: "(string \<Rightarrow> field_value \<Rightarrow> bool) \<Rightarrow> (string \<times> field_value \<times> string) list \<Rightarrow> engine_outcome"

definition jsonFieldName :: "struct_field \<Rightarrow> string" where
  "jsonFieldName field =
     (let name = takeWhile (\<lambda>ch. ch \<noteq> CHR '','') (sf_json field)
      in if name = '''' \<or> name = ''-'' then sf_Name field else name)"

fun parse_digits :: "rune list \<Rightarrow> int \<Rightarrow> int option" where
  "parse_digits [] maximum = Some maximum"
| "parse_digits (r # rs) maximum =
     (if r < 48 \<or> r > 57 then None else parse_digits rs (wrap64 (wrap64 (maximum * 10) + int (r - 48))))"

definition parseMaximum :: "string \<Rightarrow> int \<times> bool" where
  "parseMaximum v = (case parse_digits (runes v) 0 of None \<Rightarrow> (0, False) | Some maximum \<Rightarrow> (maximum, maximum > 0))"

definition maxCharacters :: "string \<Rightarrow> field_value \<Rightarrow> bool" where
  "maxCharacters param field =
     (case parseMaximum param of (maximum, parsed) \<Rightarrow>
        parsed \<and> (case field of FString s \<Rightarrow> int (RuneCountInString s) \<le> maximum | FInt _ \<Rightarrow> False))"

definition messageFor :: "string \<Rightarrow> string \<Rightarrow> string" where
  "messageFor tag param =
     (if tag = ''required'' then ''wajib diisi''
      else if tag = ''gte'' then ''harus lebih besar atau sama dengan '' @ param
      else if tag = ''lte'' then ''harus lebih kecil atau sama dengan '' @ param
      else if tag = ''min'' then ''panjang minimum '' @ param
      else if tag = ''max'' \<or> tag = ''maxchars'' then ''panjang maksimum '' @ param
      else if tag = ''numeric'' then ''harus berupa angka''
      else if tag = ''alphanum'' then ''harus alfanumerik''
      else if tag = ''oneof'' then ''nilai tidak didukung''
      else if tag = ''datetime'' then ''format tanggal tidak valid''
      else ''tidak valid'')"

definition toFieldErrors :: "(string \<times> string \<times> string) list \<Rightarrow> FieldError list" where
  "toFieldErrors errors = map (\<lambda>(field, tag, param). \<lparr>fe_Field = field, fe_Message = messageFor tag param\<rparr>) errors"

definition Validator_Validate :: "validator_library \<Rightarrow> struct_field list \<Rightarrow> FieldError list" where
  "Validator_Validate V structure =
     (case engine_Struct V maxCharacters (map (\<lambda>f. (jsonFieldName f, sf_value f, sf_validate f)) structure) of
        EngineOK \<Rightarrow> []
      | EngineErrors errors \<Rightarrow> toFieldErrors errors
      | EngineInvalid \<Rightarrow> [\<lparr>fe_Field = ''body'', fe_Message = ''Input tidak valid''\<rparr>])"

section \<open>Request bodies\<close>

definition text_field :: "string \<Rightarrow> string \<Rightarrow> string \<Rightarrow> string \<Rightarrow> struct_field" where
  "text_field name tag v rules = \<lparr>sf_Name = name, sf_json = tag, sf_value = FString v, sf_validate = rules\<rparr>"

definition number_field :: "string \<Rightarrow> string \<Rightarrow> int \<Rightarrow> string \<Rightarrow> struct_field" where
  "number_field name tag v rules = \<lparr>sf_Name = name, sf_json = tag, sf_value = FInt v, sf_validate = rules\<rparr>"

record CreateDisbursementRequest =
  cr_RecipientName :: string
  cr_AccountNumber :: string
  cr_BankCode :: string
  cr_Amount :: int
  cr_Note :: string

definition CreateDisbursementRequest_fields :: "CreateDisbursementRequest \<Rightarrow> struct_field list" where
  "CreateDisbursementRequest_fields r =
     [text_field ''RecipientName'' ''recipient_name'' (cr_RecipientName r) ''required,maxchars=150'',
      text_field ''AccountNumber'' ''account_number'' (cr_AccountNumber r) ''required,numeric,min=6,max=34'',
      text_field ''BankCode'' ''bank_code'' (cr_BankCode r) ''required,alphanum,min=3,max=10'',
      number_field ''Amount'' ''amount'' (cr_Amount r) ''gte=10000,lte=100000000000'',
      text_field ''Note'' ''note'' (cr_Note r) ''omitempty,maxchars=500'']"

record UpdateDisbursementStatusRequest =
  up_Status :: string
  up_Note :: string

definition UpdateDisbursementStatusRequest_fields :: "UpdateDisbursementStatusRequest \<Rightarrow> struct_field list" where
  "UpdateDisbursementStatusRequest_fields r =
     [text_field ''Status'' ''status'' (up_Status r) ''required,oneof=APPROVED REJECTED'',
      text_field ''Note'' ''note'' (up_Note r) ''omitempty,maxchars=500'']"

record ListDisbursementsQuery =
  lq_Page :: int
  lq_Limit :: int
  lq_Status :: string
  lq_Search :: string
  lq_SortBy :: string
  lq_SortOrder :: string
  lq_DateFrom :: string
  lq_DateTo :: string

text \<open>The query has \<open>form\<close> tags and no \<open>json\<close> tag.\<close>

definition ListDisbursementsQuery_fields :: "ListDisbursementsQuery \<Rightarrow> struct_field list" where
  "ListDisbursementsQuery_fields q =
     [number_field ''Page'' '''' (lq_Page q) ''omitempty,gte=1'',
      number_field ''Limit'' '''' (lq_Limit q) ''omitempty,gte=1,lte=100'',
      text_field ''Status'' '''' (lq_Status q) ''omitempty,oneof=PENDING APPROVED REJECTED'',
      text_field ''Search'' '''' (lq_Search q) ''omitempty,maxchars=150'',
      text_field ''SortBy'' '''' (lq_SortBy q) ''omitempty,oneof=created_at amount recipient_name status'',
      text_field ''SortOrder'' '''' (lq_SortOrder q) ''omitempty,oneof=asc desc'',
      text_field ''DateFrom'' '''' (lq_DateFrom q) ''omitempty,datetime=2006-01-02'',
      text_field ''DateTo'' '''' (lq_DateTo q) ''omitempty,datetime=2006-01-02'']"

definition LoginRequest_fields :: "LoginRequest \<Rightarrow> struct_field list" where
  "LoginRequest_fields r =
     [text_field ''Username'' ''username'' (lr_Username r) ''required,maxchars=100'',
      text_field ''Password'' ''password'' (lr_Password r) ''required,maxchars=256'']"

definition RefreshRequest_fields :: "RefreshRequest \<Rightarrow> struct_field list" where
  "RefreshRequest_fields r = [text_field ''RefreshToken'' ''refresh_token'' (rr_RefreshToken r) ''required,maxchars=4096'']"

definition LogoutRequest_fields :: "LogoutRequest \<Rightarrow> struct_field list" where
  "LogoutRequest_fields r = [text_field ''RefreshToken'' ''refresh_token'' (lo_RefreshToken r) ''required,maxchars=4096'']"

text \<open>
  gin's \<open>ShouldBindJSON\<close> and \<open>ShouldBindQuery\<close>, per type: the value read from the body, of which at most the
  limit of \<open>MaxBytesReader\<close> is available, or \<open>None\<close> on an error.
\<close>

record gin_library =
  bind_Login :: "int option \<Rightarrow> string \<Rightarrow> LoginRequest option"
  bind_Refresh :: "int option \<Rightarrow> string \<Rightarrow> RefreshRequest option"
  bind_Logout :: "int option \<Rightarrow> string \<Rightarrow> LogoutRequest option"
  bind_Create :: "int option \<Rightarrow> string \<Rightarrow> CreateDisbursementRequest option"
  bind_Update :: "int option \<Rightarrow> string \<Rightarrow> UpdateDisbursementStatusRequest option"
  bind_Query :: "string \<Rightarrow> ListDisbursementsQuery option"

text \<open>
  \<open>binding.DecodeJSON\<close> on the outcomes of the two calls of the decoder: the first value, and the error of the
  second call (\<open>None\<close> is no error), of which only \<open>io.EOF\<close> is accepted.
\<close>

definition DecodeJSON :: "go_error + 'a \<Rightarrow> go_error option \<Rightarrow> go_error \<Rightarrow> go_error + 'a" where
  "DecodeJSON first second eof =
     (case first of
        Inl err \<Rightarrow> Inl (WrapError ''decode JSON body'' err)
      | Inr x \<Rightarrow>
          if \<not> (case second of None \<Rightarrow> False | Some err \<Rightarrow> errors_Is err eof)
          then Inl (PlainError ''JSON body must contain one value'') else Inr x)"

section \<open>Dates\<close>

text \<open>\<open>time.Parse("2006-01-02", s)\<close>: four, two and two digits, a month and a day that exist.\<close>

definition digit_value :: "char \<Rightarrow> int" where
  "digit_value ch = int (byte_val ch) - 48"

definition digits_value :: "string \<Rightarrow> int" where
  "digits_value s = foldl (\<lambda>n ch. n * 10 + digit_value ch) 0 s"

definition leap_year :: "int \<Rightarrow> bool" where
  "leap_year y \<longleftrightarrow> 4 dvd y \<and> (\<not> 100 dvd y \<or> 400 dvd y)"

definition days_in_months :: "int \<Rightarrow> int list" where
  "days_in_months y = [31, if leap_year y then 29 else 28, 31, 30, 31, 30, 31, 31, 30, 31, 30, 31]"

text \<open>Days from January 1, year 1.\<close>

definition days_before_year :: "int \<Rightarrow> int" where
  "days_before_year y = (let z = y - 1 in 365 * z + z div 4 - z div 100 + z div 400)"

definition parse_date :: "string \<Rightarrow> time option" where
  "parse_date s =
     (if length s = 10 \<and> s ! 4 = CHR ''-'' \<and> s ! 7 = CHR ''-''
         \<and> list_all (\<lambda>i. is_digit_byte (s ! i)) [0, 1, 2, 3, 5, 6, 8, 9]
      then let y = digits_value (take 4 s); m = digits_value (take 2 (drop 5 s)); d = digits_value (drop 8 s)
           in if 1 \<le> m \<and> m \<le> 12 \<and> 1 \<le> d \<and> d \<le> days_in_months y ! nat (m - 1)
              then Some ((days_before_year y + sum_list (take (nat (m - 1)) (days_in_months y)) + (d - 1)) * day)
              else None
      else None)"

end
