(* ===== verification/Http_Handlers.thy ===== *)
theory Http_Handlers
  imports Http_Validation
begin

text \<open>
  \<open>internal/httpapi\<close>: the handlers of the authentication and disbursement endpoints, the probes, the
  metrics endpoint and the router. gin matches the method and path of a request to a registered
  pattern; the context carries the pattern it found (\<open>gc_FullPath\<close>, empty when there is none) and the
  path's parameters, and the router below is the table of patterns with their chains of handlers.
\<close>

text \<open>
  What the handlers are constructed with, and the packages they call. \<open>api_ilike\<close> and \<open>api_order_by\<close> are
  PostgreSQL's text search and its arrangement of a result at the given call, \<open>api_key_order\<close> and
  \<open>api_limiter_order\<close> the orders in which Go visits its maps at the given call, \<open>api_snapshot_json\<close> the text of a metrics snapshot.
\<close>

record MetricsSnapshot =
  ms_HTTPRequestsTotal :: "string \<rightharpoonup> counter"
  ms_HTTPDurationMsAverage :: rat
  ms_HTTPRequestsCount :: counter
  ms_IdempotencyClaimsTotal :: "string \<rightharpoonup> counter"
  ms_FinalizationsTotal :: "string \<rightharpoonup> counter"
  ms_AuthFailuresTotal :: "string \<rightharpoonup> counter"
  ms_RateLimiterEvictionsTotal :: counter
  ms_OutboxBacklogDepth :: int
  ms_OutboxDeliveriesTotal :: counter
  ms_OutboxDeliveryFailures :: counter
  ms_OutboxReconcileWarning :: int
  ms_OutboxReconcileCritical :: int
  ms_DBConnectionsOpen :: int
  ms_DBConnectionsInUse :: int
  ms_DBConnectionsIdle :: int

record api =
  api_P :: platform
  api_J :: jwt_library
  api_V :: validator_library
  api_G :: gin_library
  api_auth :: auth_service
  api_coordinator :: Coordinator
  api_keyProvider :: KeyProvider
  api_issuer :: string
  api_audience :: string
  api_maxBody :: int
  api_metricsToken :: string
  api_ilike :: "string \<Rightarrow> string \<Rightarrow> bool"
  api_order_by :: "nat \<Rightarrow> string \<Rightarrow> bool \<Rightarrow> dbDisbursement list \<Rightarrow> dbDisbursement list"
  api_key_order :: "nat \<Rightarrow> (string \<times> string) list \<Rightarrow> (string \<times> string) list"
  api_limiter_order :: "nat \<Rightarrow> tracked \<Rightarrow> tracked"
  api_snapshot_json :: "MetricsSnapshot \<Rightarrow> json"

section \<open>Shared steps\<close>

definition respond_error :: "go_error \<Rightarrow> handler" where
  "respond_error err c s = Returned (WriteError (RequestIDFromContext c) err c) s"

definition invalid_body :: go_error where
  "invalid_body = DomainError (Validation [\<lparr>fe_Field = ''body'', fe_Message = ''format JSON tidak valid''\<rparr>])"

text \<open>
  \<open>if err := c.ShouldBindJSON(&req); ...\<close> followed by \<open>if details := validator.Validate(req); ...\<close>.
\<close>

definition with_body :: "api \<Rightarrow> (int option \<Rightarrow> string \<Rightarrow> 'r option) \<Rightarrow> ('r \<Rightarrow> struct_field list) \<Rightarrow> ('r \<Rightarrow> handler) \<Rightarrow> handler" where
  "with_body A bind structure use c s =
     (case bind (gc_BodyLimit c) (gc_Body c) of
        None \<Rightarrow> respond_error invalid_body c s
      | Some request \<Rightarrow>
          (let details = Validator_Validate (api_V A) (structure request)
           in if details \<noteq> [] then respond_error (DomainError (Validation details)) c s else use request c s))"

text \<open>Call a service and answer with its error, or go on with its value.\<close>

definition call_service :: "'a go \<Rightarrow> ('a \<Rightarrow> handler) \<Rightarrow> handler" where
  "call_service m use c s =
     (case run_go m s of (Inl err, s1) \<Rightarrow> respond_error err c s1 | (Inr x, s1) \<Rightarrow> use x c s1)"

definition respond :: "int \<Rightarrow> go_error + json \<Rightarrow> Meta option \<Rightarrow> handler" where
  "respond status data meta c s = Returned (WriteSuccess status data meta c) s"

definition respond_no_content :: handler where
  "respond_no_content c s = Returned (WriteNoContent c) s"

section \<open>Authentication endpoints\<close>

definition marshal_TokenResponse :: "TokenResponse \<Rightarrow> json" where
  "marshal_TokenResponse t =
     JObj [(''access_token'', json_string (tr_AccessToken t)), (''refresh_token'', json_string (tr_RefreshToken t)),
           (''token_type'', json_string (tr_TokenType t)), (''expires_in'', json_int (tr_ExpiresIn t)),
           (''refresh_expires_in'', json_int (tr_RefreshExpiresIn t))]"

definition AuthHandler_Login :: "api \<Rightarrow> handler" where
  "AuthHandler_Login A = with_body A (bind_Login (api_G A)) LoginRequest_fields (\<lambda>request.
     call_service (Auth_Login (api_P A) (api_J A) (api_auth A) request) (\<lambda>tokenResponse.
     respond 200 (Inr (marshal_TokenResponse tokenResponse)) None))"

definition AuthHandler_Refresh :: "api \<Rightarrow> handler" where
  "AuthHandler_Refresh A = with_body A (bind_Refresh (api_G A)) RefreshRequest_fields (\<lambda>request.
     call_service (Auth_Refresh (api_P A) (api_J A) (api_auth A) request) (\<lambda>tokenResponse.
     respond 200 (Inr (marshal_TokenResponse tokenResponse)) None))"

definition AuthHandler_Logout :: "api \<Rightarrow> handler" where
  "AuthHandler_Logout A = with_body A (bind_Logout (api_G A)) LogoutRequest_fields (\<lambda>request.
     call_service (Auth_Logout (api_P A) request) (\<lambda>_. respond_no_content))"

section \<open>Disbursement endpoints\<close>

text \<open>The request id as a UUID, a new one when the text is none.\<close>

definition with_request_uuid :: "api \<Rightarrow> (uuid \<Rightarrow> handler) \<Rightarrow> handler" where
  "with_request_uuid A use c s =
     (case uuid_Parse (api_P A) (RequestIDFromContext c) of
        Some requestID \<Rightarrow> use requestID c s
      | None \<Rightarrow> (case server_uuid (api_P A) s of (requestID, s1) \<Rightarrow> use requestID c s1))"

definition with_identity :: "(UserIdentity \<Rightarrow> handler) \<Rightarrow> handler" where
  "with_identity use c s =
     (case gc_Identity c of None \<Rightarrow> respond_error (DomainError Unauthorized) c s | Some identity \<Rightarrow> use identity c s)"

definition with_path_id :: "api \<Rightarrow> (uuid \<Rightarrow> handler) \<Rightarrow> handler" where
  "with_path_id A use c s =
     (case uuid_Parse (api_P A) (gc_Param c ''id'') of
        None \<Rightarrow> respond_error (DomainError DisbursementNotFound) c s
      | Some i \<Rightarrow> use i c s)"

definition create_input :: "CreateDisbursementRequest \<Rightarrow> CreateDisbursementInput" where
  "create_input req =
     \<lparr>in_RecipientName = cr_RecipientName req, in_AccountNumber = cr_AccountNumber req,
      in_BankCode = cr_BankCode req, in_Amount = cr_Amount req, in_Note = cr_Note req\<rparr>"

definition disbursement_json :: "api \<Rightarrow> Disbursement \<Rightarrow> go_error + json" where
  "disbursement_json A d = marshal_DisbursementResponse (api_P A) (NewDisbursementResponse d)"

definition respond_created :: "api \<Rightarrow> CreateResult \<Rightarrow> handler" where
  "respond_created A result c s =
     (case cres_ReplayResponse result of
        Some replay \<Rightarrow>
          if cres_IsReplay result
          then respond (rp_StatusCode replay) (Inr (case rp_Body replay of None \<Rightarrow> JNull | Some b \<Rightarrow> b)) None
                 (SetHeader ''X-Idempotent-Replayed'' ''true'' c) s
          else respond 201 (disbursement_json A (case cres_Disbursement result of Some d \<Rightarrow> d | None \<Rightarrow> zero_disbursement)) None c s
      | None \<Rightarrow> respond 201 (disbursement_json A (case cres_Disbursement result of Some d \<Rightarrow> d | None \<Rightarrow> zero_disbursement)) None c s)"

definition DisbursementHandler_Create :: "api \<Rightarrow> handler" where
  "DisbursementHandler_Create A =
     with_request_uuid A (\<lambda>requestID.
     with_identity (\<lambda>identity.
     with_body A (bind_Create (api_G A)) CreateDisbursementRequest_fields (\<lambda>req c s.
       let idempotencyKey = gc_GetHeader c ''Idempotency-Key''
       in if idempotencyKey = '''' then respond_error (DomainError InvalidIdempotencyKey) c s
          else call_service (Service_Create (api_P A) (api_coordinator A) (id_ID identity) requestID idempotencyKey (create_input req))
                 (respond_created A) c s)))"

definition DisbursementHandler_GetByID :: "api \<Rightarrow> handler" where
  "DisbursementHandler_GetByID A =
     with_path_id A (\<lambda>i. call_service (Service_GetByID (api_P A) i) (\<lambda>d. respond 200 (disbursement_json A d) None))"

text \<open>The date range of a query: a missing end is the other one.\<close>

definition query_dates :: "ListDisbursementsQuery \<Rightarrow> go_error + DateRange option" where
  "query_dates q =
     (if lq_DateFrom q = '''' \<and> lq_DateTo q = '''' then Inr None
      else
        let fromStr = (if lq_DateFrom q = '''' then lq_DateTo q else lq_DateFrom q);
            toStr = (if lq_DateTo q = '''' then lq_DateFrom q else lq_DateTo q)
        in case (parse_date fromStr, parse_date toStr) of
             (Some fromDate, Some toDate) \<Rightarrow> bind_result (NewUTCDateRange fromDate toDate) (\<lambda>dr. Inr (Some dr))
           | _ \<Rightarrow> Inl (DomainError (Validation
                    [\<lparr>fe_Field = ''date_range'', fe_Message = ''format tanggal harus YYYY-MM-DD''\<rparr>])))"

definition list_filter :: "api \<Rightarrow> ListDisbursementsQuery \<Rightarrow> DateRange option \<Rightarrow> DisbursementFilter" where
  "list_filter A q dateRange =
     \<lparr>fl_Page = lq_Page q, fl_Limit = lq_Limit q, fl_Status = ToUpper (unicode_upper (api_P A)) (lq_Status q),
      fl_Search = lq_Search q, fl_SortBy = lq_SortBy q, fl_SortOrder = lq_SortOrder q, fl_DateRange = dateRange\<rparr>"

text \<open>The items as one JSON array; an item that cannot be marshalled makes the whole fail.\<close>

fun marshal_items :: "api \<Rightarrow> Disbursement list \<Rightarrow> go_error + json list" where
  "marshal_items A [] = Inr []"
| "marshal_items A (d # ds) =
     bind_result (disbursement_json A d) (\<lambda>j. bind_result (marshal_items A ds) (\<lambda>js. Inr (j # js)))"

definition list_meta :: "Pagination \<Rightarrow> Meta" where
  "list_meta p = \<lparr>mt_Page = pg_Page p, mt_Limit = pg_Limit p, mt_Total = pg_Total p, mt_TotalPages = pg_TotalPages p\<rparr>"

definition DisbursementHandler_List :: "api \<Rightarrow> handler" where
  "DisbursementHandler_List A c s =
     (case bind_Query (api_G A) (gc_RawQuery c) of
        None \<Rightarrow> respond_error (DomainError (Validation [\<lparr>fe_Field = ''query'', fe_Message = ''parameter query tidak valid''\<rparr>])) c s
      | Some query \<Rightarrow>
          (let details = Validator_Validate (api_V A) (ListDisbursementsQuery_fields query)
           in if details \<noteq> [] then respond_error (DomainError (Validation details)) c s
              else
                (case query_dates query of
                   Inl err \<Rightarrow> respond_error err c s
                 | Inr dateRange \<Rightarrow>
                     call_service (Service_List (api_P A) (api_ilike A) (api_order_by A) (list_filter A query dateRange))
                       (\<lambda>(items, pagination).
                          respond 200 (bind_result (marshal_items A items) (\<lambda>js. Inr (JArr js))) (Some (list_meta pagination)))
                       c s)))"

definition DisbursementHandler_UpdateStatus :: "api \<Rightarrow> handler" where
  "DisbursementHandler_UpdateStatus A =
     with_request_uuid A (\<lambda>requestID.
     with_identity (\<lambda>identity.
     with_path_id A (\<lambda>i.
     with_body A (bind_Update (api_G A)) UpdateDisbursementStatusRequest_fields (\<lambda>req.
       let decision = \<lparr>dec_Status = ToUpper (unicode_upper (api_P A)) (up_Status req), dec_ActorID = id_ID identity, dec_Note = up_Note req\<rparr>
       in call_service (Service_UpdateStatus (api_P A) (id_ID identity) requestID i decision)
            (\<lambda>updated. respond 200 (disbursement_json A updated) None)))))"

definition DisbursementHandler_Delete :: "api \<Rightarrow> handler" where
  "DisbursementHandler_Delete A =
     with_request_uuid A (\<lambda>requestID.
     with_identity (\<lambda>identity.
     with_path_id A (\<lambda>i.
       call_service (Service_SoftDelete (api_P A) (id_ID identity) requestID i) (\<lambda>_. respond_no_content))))"

section \<open>Probes and metrics\<close>

text \<open>\<open>c.JSON\<close>: the content type is set unless the handler did.\<close>

definition gin_JSON :: "int \<Rightarrow> json \<Rightarrow> handler" where
  "gin_JSON status j c s =
     Returned (Encode (Inr j) (WriteHeader status
       (if map_of (gc_ResponseHeader c) ''Content-Type'' = None
        then SetHeader ''Content-Type'' ''application/json; charset=utf-8'' c else c))) s"

definition health_json :: "string \<Rightarrow> string \<Rightarrow> json" where
  "health_json status reason =
     JObj ([(''status'', json_string status)] @ (if reason = '''' then [] else [(''reason'', json_string reason)]))"

definition healthUPResponse :: json where "healthUPResponse = health_json ''UP'' ''''"
definition healthDOWNResponse :: json where "healthDOWNResponse = health_json ''DOWN'' ''database ping failed''"
definition healthUnconfiguredResponse :: json where
  "healthUnconfiguredResponse = health_json ''DOWN'' ''health checker not configured''"

definition Healthz :: handler where
  "Healthz = gin_JSON 200 healthUPResponse"

text \<open>A ping is a call to the database that changes nothing.\<close>

definition PingContext :: "platform \<Rightarrow> unit go" where
  "PingContext P = pool_exec P (\<lambda>t d. (Inr (), d))"

definition Readyz :: "platform \<Rightarrow> bool \<Rightarrow> handler" where
  "Readyz P configured c s =
     (if \<not> configured then gin_JSON 503 healthUnconfiguredResponse c s
      else case run_go (PingContext P) s of
             (Inl _, s1) \<Rightarrow> gin_JSON 503 healthDOWNResponse c s1
           | (Inr _, s1) \<Rightarrow> gin_JSON 200 healthUPResponse c s1)"

definition Snapshot :: "MetricsCollector \<Rightarrow> MetricsSnapshot" where
  "Snapshot m =
     \<lparr>ms_HTTPRequestsTotal = httpRequestsTotal m,
      ms_HTTPDurationMsAverage =
        (if httpDurationMsCount m > 0
         then float64 (float64 (of_nat (unat (httpDurationMsTotal m))) / float64 (of_nat (unat (httpDurationMsCount m)))) else 0),
      ms_HTTPRequestsCount = httpDurationMsCount m,
      ms_IdempotencyClaimsTotal = idempotencyClaimsTotal m, ms_FinalizationsTotal = finalizationsTotal m,
      ms_AuthFailuresTotal = authFailuresTotal m, ms_RateLimiterEvictionsTotal = rateLimiterEvictionsTotal m,
      ms_OutboxBacklogDepth = outboxBacklogDepth m, ms_OutboxDeliveriesTotal = outboxDeliveriesTotal m,
      ms_OutboxDeliveryFailures = outboxDeliveryFailures m, ms_OutboxReconcileWarning = outboxReconcileWarning m,
      ms_OutboxReconcileCritical = outboxReconcileCritical m, ms_DBConnectionsOpen = dbConnectionsOpen m,
      ms_DBConnectionsInUse = dbConnectionsInUse m, ms_DBConnectionsIdle = dbConnectionsIdle m\<rparr>"

definition no_store :: "gin_context \<Rightarrow> gin_context" where
  "no_store = SetHeader ''Cache-Control'' ''no-store, no-cache, must-revalidate''"

definition metrics_HTTPHandler :: "(MetricsSnapshot \<Rightarrow> json) \<Rightarrow> string \<Rightarrow> MetricsCollector \<Rightarrow> handler" where
  "metrics_HTTPHandler snapshot_json metricsToken m c s =
     (if metricsToken = ''''
      then gin_JSON 503 (JObj [(''error'', JStr ''metrics authentication is not configured'')]) (no_store c) s
      else
        let reqToken = gc_GetHeader c ''X-Metrics-Token''
        in if reqToken = '''' \<or> reqToken \<noteq> metricsToken
           then gin_JSON 401 (JObj [(''error'', JStr ''unauthorized metrics access'')]) (no_store c) s
           else gin_JSON 200 (snapshot_json (Snapshot m))
                  (SetHeader ''Content-Type'' ''application/json; charset=utf-8'' (no_store c)) s)"

section \<open>The router\<close>

definition auth_chain :: "api \<Rightarrow> handler \<Rightarrow> handler" where
  "auth_chain A next c s =
     AuthenticateWithKeyProvider (api_P A) (api_J A) (api_key_order A (calls (srv_world s))) (Some (api_keyProvider A))
       (api_issuer A) (api_audience A) next c s"

definition rate_limited :: "api \<Rightarrow> handler \<Rightarrow> handler" where
  "rate_limited A next c s = rateLimitHandler (api_P A) (api_limiter_order A (calls (srv_world s))) next c s"

definition registerAuthRoutes :: "api \<Rightarrow> string \<Rightarrow> (string \<times> string \<times> handler) list" where
  "registerAuthRoutes A prefix =
     [(''POST'', prefix @ ''/auth/login'', rate_limited A (AuthHandler_Login A)),
      (''POST'', prefix @ ''/auth/refresh'', rate_limited A (AuthHandler_Refresh A)),
      (''POST'', prefix @ ''/auth/logout'', AuthHandler_Logout A)]"

definition registerDisbursementRoutes :: "api \<Rightarrow> string \<Rightarrow> (string \<times> string \<times> handler) list" where
  "registerDisbursementRoutes A prefix =
     [(''POST'', prefix, auth_chain A (RequireRole [RoleOperator, RoleAdmin, RoleSuperadmin] (DisbursementHandler_Create A))),
      (''GET'', prefix, auth_chain A (RequireRole [RoleOperator, RoleAdmin, RoleSuperadmin] (DisbursementHandler_List A))),
      (''GET'', prefix @ ''/:id'', auth_chain A (RequireRole [RoleOperator, RoleAdmin, RoleSuperadmin] (DisbursementHandler_GetByID A))),
      (''PATCH'', prefix @ ''/:id/status'', auth_chain A (RequireRole [RoleAdmin, RoleSuperadmin] (DisbursementHandler_UpdateStatus A))),
      (''DELETE'', prefix @ ''/:id'', auth_chain A (RequireRole [RoleSuperadmin] (DisbursementHandler_Delete A)))]"

text \<open>The metrics route exists when there is a collector, which the server keeps.\<close>

definition metrics_endpoint :: "api \<Rightarrow> handler" where
  "metrics_endpoint A c s =
     (case collector (srv_world s) of
        None \<Rightarrow> Panicked c s
      | Some m \<Rightarrow> metrics_HTTPHandler (api_snapshot_json A) (api_metricsToken A) m c s)"

definition routes :: "api \<Rightarrow> bool \<Rightarrow> (string \<times> string \<times> handler) list" where
  "routes A has_collector =
     [(''GET'', ''/healthz'', Healthz), (''GET'', ''/readyz'', Readyz (api_P A) True)]
     @ (if has_collector then [(''GET'', ''/metrics'', metrics_endpoint A)] else [])
     @ registerAuthRoutes A '''' @ registerAuthRoutes A ''/api/v1''
     @ registerDisbursementRoutes A ''/disbursements'' @ registerDisbursementRoutes A ''/api/v1/disbursements''"

definition NoRoute :: handler where
  "NoRoute = respond_error (DomainError (new_error CodeDisbursementNotFound ''Resource tidak ditemukan'' 404))"

definition dispatch :: "api \<Rightarrow> handler" where
  "dispatch A c s =
     (case find (\<lambda>(m, pattern, h). m = gc_Method c \<and> pattern = gc_FullPath c) (routes A (collector (srv_world s) \<noteq> None)) of
        Some (_, _, h) \<Rightarrow> h c s
      | None \<Rightarrow> NoRoute c s)"

definition NewRouter :: "api \<Rightarrow> handler" where
  "NewRouter A =
     RequestID (api_P A) (AccessLog (api_P A) (Recovery (BodyLimit (api_maxBody A) (dispatch A))))"

end
