(* ===== verification/Auth_Sessions.thy ===== *)
theory Auth_Sessions
  imports Auth_Service Scenario
begin

text \<open>
  What login, refresh and logout do to the refresh sessions: each either leaves the database as it
  was or makes its one change as a whole, whatever faults occur; a session that was revoked stays so
  for ever, hence a refresh token works at most once.
\<close>

section \<open>Sessions over time\<close>

text \<open>No session disappears, what identifies it never changes, and a revoked session is frozen.\<close>

definition session_progress :: "session_row \<Rightarrow> session_row \<Rightarrow> bool" where
  "session_progress r r' \<longleftrightarrow>
     rs_id r' = rs_id r \<and> rs_user_id r' = rs_user_id r \<and> rs_token_hash r' = rs_token_hash r
     \<and> rs_expires_at r' = rs_expires_at r \<and> rs_created_at r' = rs_created_at r
     \<and> (rs_revoked_at r \<noteq> None \<longrightarrow> r' = r)"

definition sessions_kept :: "database \<Rightarrow> database \<Rightarrow> bool" where
  "sessions_kept d d' \<longleftrightarrow>
     (\<exists>old new. refresh_sessions d' = old @ new \<and> list_all2 session_progress (refresh_sessions d) old)"

lemma session_progress_refl [simp]: "session_progress r r"
  by (simp add: session_progress_def)

lemma session_progress_trans: "session_progress a b \<Longrightarrow> session_progress b c \<Longrightarrow> session_progress a c"
  by (auto simp: session_progress_def)

lemma sessions_grow: "list_all2 session_progress (refresh_sessions d) old \<Longrightarrow> refresh_sessions d' = old @ new \<Longrightarrow> sessions_kept d d'"
  unfolding sessions_kept_def by blast

lemma sessions_same: "refresh_sessions d' = refresh_sessions d \<Longrightarrow> sessions_kept d d'"
  by (rule sessions_grow[where new = "[]" and old = "refresh_sessions d"]) (simp_all add: list.rel_refl)

lemma sessions_kept_trans: "sessions_kept a b \<Longrightarrow> sessions_kept b c \<Longrightarrow> sessions_kept a c"
proof -
  assume "sessions_kept a b" "sessions_kept b c"
  then obtain o1 n1 o2 n2 where 1: "refresh_sessions b = o1 @ n1" "list_all2 session_progress (refresh_sessions a) o1"
    and 2: "refresh_sessions c = o2 @ n2" "list_all2 session_progress (o1 @ n1) o2"
    unfolding sessions_kept_def by metis
  from 2(2) obtain p q where pq: "o2 = p @ q" "list_all2 session_progress o1 p"
    by (metis list_all2_append1)
  have "list_all2 session_progress (refresh_sessions a) p"
    by (rule list_all2_trans[OF _ 1(2) pq(2)]) (rule session_progress_trans)
  then show ?thesis unfolding sessions_kept_def using 2(1) pq(1) by auto
qed

lemma update_progress:
  "(\<And>r. p r \<Longrightarrow> session_progress r (f r)) \<Longrightarrow> list_all2 session_progress rows (update_where p f rows)"
  by (induction rows) (auto simp: update_where_def)

interpretation sessions: db_evolution sessions_kept
  by unfold_locales (auto intro: sessions_same sessions_kept_trans)

interpretation sessions: session_evolution sessions_kept
proof (unfold_locales, goal_cases)
  case (1 d P session created t)
  show ?case
    by (auto simp: insert_session_def Let_def split: sum.splits
             intro: sessions_same sessions_grow[where old = "refresh_sessions d"] simp: list.rel_refl)
next
  case (2 d P now i tokenHash t)
  have "list_all2 session_progress (refresh_sessions d)
      (update_where (live_session P tokenHash now) (replace_session P now i) (refresh_sessions d))"
    by (rule update_progress) (simp add: live_session_def replace_session_def session_progress_def)
  then show ?case
    by (auto simp: rotate_session_def with_text_def Let_def
             intro: sessions_same sessions_grow[where new = "[]"])
next
  case (3 d P now tokenHash t)
  have "list_all2 session_progress (refresh_sessions d)
      (update_where (active_session tokenHash) (\<lambda>r. r\<lparr>rs_revoked_at := Some (pg_timestamptz P now)\<rparr>) (refresh_sessions d))"
    by (rule update_progress) (simp add: active_session_def session_progress_def)
  then show ?case
    by (auto simp: revoke_session_def with_text_def intro: sessions_same sessions_grow[where new = "[]"])
qed

lemma revoked_forever:
  assumes "sessions_kept d d'" "r \<in> set (refresh_sessions d)" "rs_revoked_at r \<noteq> None"
  shows "r \<in> set (refresh_sessions d')"
proof -
  obtain old new where o: "refresh_sessions d' = old @ new" "list_all2 session_progress (refresh_sessions d) old"
    using assms(1) unfolding sessions_kept_def by blast
  obtain r' where "r' \<in> set old" "session_progress r r'"
    using o(2) assms(2) by (metis list_all2_conv_all_nth in_set_conv_nth)
  then have "r \<in> set old" using assms(3) by (auto simp: session_progress_def)
  then show ?thesis using o(1) by simp
qed

section \<open>Every operation of the service\<close>

context session_evolution begin

lemma evolves_rejected: "evolves R rejected_login"
  unfolding rejected_login_def by (intro evo_intros)

lemma evolves_Login: "evolves R (Auth_Login P J s req)"
  unfolding Auth_Login_def open_session_def Let_def
  by (auto split: sum.splits intro!: evo_intros evolves_users evolves_rejected evolves_Create)

lemma evolves_Refresh: "evolves R (Auth_Refresh P J s req)"
  unfolding Auth_Refresh_def refresh_body_def rotate_session_of_def Let_def
  by (auto split: sum.splits intro!: evo_intros evolves_users evolves_FindByTokenHash evolves_Rotate)

lemma evolves_Logout: "evolves R (Auth_Logout P req)"
  unfolding Auth_Logout_def Let_def by (auto intro!: evo_intros evolves_Revoke)

end

section \<open>Token hashes\<close>

lemma hex_digit_ascii: "n < 16 \<Longrightarrow> 48 \<le> byte_val (hex_digit n) \<and> byte_val (hex_digit n) < 128"
  by (auto simp: hex_digit_def)

lemma hash_text_ok [simp]: "pg_text_ok (hashToken P token)"
proof -
  have "48 \<le> byte_val c \<and> byte_val c < 128" if "c \<in> set (EncodeToString s)" for c s
    using that hex_digit_ascii[of "byte_val x div 16" for x] hex_digit_ascii[of "byte_val x mod 16" for x]
    by (auto simp: EncodeToString_def less_mult_imp_div_less)
  then have "is_ascii (hashToken P token)" "byte_chr 0 \<notin> set (hashToken P token)"
    by (auto simp: hashToken_def is_ascii_def list_all_iff) (metis byte_val_chr not_numeral_le_zero zero_less_numeral)
  then show ?thesis by (simp add: pg_text_ok_def valid_utf8_ascii)
qed

section \<open>Transactions touch the database only at the commit\<close>

lemma tx_only_sessions:
  "tx_only (RefreshSessionStore_Create P session)" "tx_only (RefreshSessionStore_FindByTokenHash P True h)"
  "tx_only (RefreshSessionStore_Rotate P h session now)" "tx_only (RefreshSessionStore_RevokeByTokenHash P h now)"
  "tx_only (UserStore_FindByID P i)"
  unfolding RefreshSessionStore_Create_def RefreshSessionStore_FindByTokenHash_def RefreshSessionStore_Rotate_def
    RefreshSessionStore_RevokeByTokenHash_def UserStore_FindByID_def
  by (auto split: sum.splits intro!: tx_only_env tx_only_tx tx_only_read tx_only_handle tx_only_andThen
           simp: find_user_by_id_def)

lemma tx_only_refresh_body: "tx_only (refresh_body P J s h now)"
  unfolding refresh_body_def rotate_session_of_def Let_def
  by (auto split: sum.splits intro!: tx_only_env tx_only_handle tx_only_andThen tx_only_sessions)


section \<open>Refresh\<close>

text \<open>The whole change a refresh makes: the old session is revoked and replaced by a new one of the same user.\<close>

definition rotated :: "platform \<Rightarrow> string \<Rightarrow> time \<Rightarrow> session_row \<Rightarrow> database \<Rightarrow> database \<Rightarrow> bool" where
  "rotated P h now new d d' \<longleftrightarrow>
     (\<exists>old \<in> set (refresh_sessions d). rs_token_hash old = h \<and> rs_revoked_at old = None
        \<and> pg_timestamptz P now < rs_expires_at old \<and> rs_user_id new = rs_user_id old)
     \<and> rs_revoked_at new = None \<and> rs_token_hash new \<noteq> h
     \<and> (\<forall>r \<in> set (refresh_sessions d). rs_id r \<noteq> rs_id new \<and> rs_token_hash r \<noteq> rs_token_hash new)
     \<and> d' = d\<lparr>refresh_sessions :=
         update_where (\<lambda>r. rs_token_hash r = h) (replace_session P now (rs_id new)) (refresh_sessions d) @ [new]\<rparr>"

lemma insert_session_Inr:
  assumes "insert_session P session created t d = (Inr u, d')"
  obtains row where "d' = d\<lparr>refresh_sessions := refresh_sessions d @ [row]\<rparr>"
    "rs_id row = se_ID session" "rs_user_id row = se_UserID session" "rs_token_hash row = se_TokenHash session"
    "rs_revoked_at row = None" "rs_expires_at row = pg_timestamptz P (se_ExpiresAt session)"
    "\<forall>r \<in> set (refresh_sessions d). rs_id r \<noteq> rs_id row \<and> rs_token_hash r \<noteq> rs_token_hash row"
proof -
  define row where "row = \<lparr>rs_id = se_ID session, rs_user_id = se_UserID session, rs_token_hash = se_TokenHash session,
    rs_expires_at = pg_timestamptz P (se_ExpiresAt session), rs_revoked_at = None, rs_replaced_by_id = None, rs_created_at = created\<rparr>"
  show ?thesis using assms
    by (intro that[of row])
       (auto simp: insert_session_def Let_def text_column_def row_def split: if_splits sum.splits)
qed

lemma rotate_session_Inr:
  assumes "rotate_session P now i h t d = (Inr n, d')" "pg_text_ok h" "n \<noteq> 0"
  shows "\<exists>r \<in> set (refresh_sessions d). live_session P h now r"
    and "d' = d\<lparr>refresh_sessions := update_where (live_session P h now) (replace_session P now i) (refresh_sessions d)\<rparr>"
proof -
  show "d' = d\<lparr>refresh_sessions := update_where (live_session P h now) (replace_session P now i) (refresh_sessions d)\<rparr>"
    using assms by (auto simp: rotate_session_def with_text_def Let_def split: if_splits)
  have "affected (live_session P h now) (refresh_sessions d) \<noteq> 0"
    using assms by (auto simp: rotate_session_def with_text_def Let_def simp del: affected_0 split: if_splits)
  then show "\<exists>r \<in> set (refresh_sessions d). live_session P h now r" by (simp only: affected_0) blast
qed

lemma Rotate_effect:
  assumes run: "RefreshSessionStore_Rotate P h session now w = (Inr u, w')"
    and d: "working w = Some d" "db_ok d" "pg_text_ok h"
    and old: "old \<in> set (refresh_sessions d)" "rs_token_hash old = h"
  obtains new d' where "working w' = Some d'" "rotated P h now new d d' \<or> rs_user_id new \<noteq> rs_user_id old"
    "rs_token_hash new = se_TokenHash session" "rs_user_id new = se_UserID session"
proof -
  obtain d1 d2 n t1 t2 where ins: "insert_session P session (pg_timestamptz P now) t1 d = (Inr (), d1)"
    and rot: "rotate_session P now (se_ID session) h t2 d1 = (Inr n, d2)" "n \<noteq> 0" "working w' = Some d2"
    using run d(1) unfolding RefreshSessionStore_Rotate_def
    by (auto simp: run_Inr split: if_splits)
  obtain new where new: "d1 = d\<lparr>refresh_sessions := refresh_sessions d @ [new]\<rparr>" "rs_id new = se_ID session"
    "rs_user_id new = se_UserID session" "rs_token_hash new = se_TokenHash session" "rs_revoked_at new = None"
    "\<forall>r \<in> set (refresh_sessions d). rs_id r \<noteq> rs_id new \<and> rs_token_hash r \<noteq> rs_token_hash new"
    using insert_session_Inr[OF ins] by metis
  have h: "rs_token_hash new \<noteq> h" using new(6) old by metis
  note r = rotate_session_Inr[OF rot(1) d(3) rot(2)]
  have same: "r = old" if "r \<in> set (refresh_sessions d)" "rs_token_hash r = h" for r
    using unique_by_same[OF db_okD(5)[OF d(2)] that(1) old(1)] that(2) old(2) by simp
  have live: "live_session P h now old"
    using r(1) new(1) h same by (auto simp: live_session_def)
  have eq: "update_where (live_session P h now) f (refresh_sessions d @ [new])
      = update_where (\<lambda>r. rs_token_hash r = h) f (refresh_sessions d) @ [new]" for f
  proof -
    have "live_session P h now r = (rs_token_hash r = h)" if "r \<in> set (refresh_sessions d)" for r
      using that same live by (auto simp: live_session_def)
    then show ?thesis using h by (auto simp: update_where_def live_session_def)
  qed
  have "d2 = d\<lparr>refresh_sessions :=
      update_where (\<lambda>r. rs_token_hash r = h) (replace_session P now (rs_id new)) (refresh_sessions d) @ [new]\<rparr>"
    using r(2) new(1,2) by (simp add: eq)
  then show ?thesis using live new(3-6) h old rot(3)
    by (intro that[of d2 new]) (auto simp: rotated_def live_session_def)
qed

lemma refresh_body_effect:
  assumes run: "refresh_body P J s h now w = (Inr (token, access), w')"
    and d: "working w = Some d" "db_ok d" "pg_text_ok h"
  obtains new d' where "working w' = Some d'" "rotated P h now new d d'" "rs_token_hash new = hashToken P token"
proof -
  obtain old row user w1 w2 w3 where
    found: "RefreshSessionStore_FindByTokenHash P True h w = (Inr old, w1)"
    and user: "UserStore_FindByID P (se_UserID old) w1 = (Inr user, w2)"
    and rot: "rotate_session_of P J s h now user w2 = (Inr (token, access), w3)" "w' = w3"
    using run unfolding refresh_body_def by (auto simp: classified_Inr split: if_splits)
  obtain row where row: "row \<in> set (refresh_sessions d)" "rs_token_hash row = h" "old = scan_session row" "working w1 = Some d"
    using found d(1,3) unfolding RefreshSessionStore_FindByTokenHash_def
    by (auto simp: run_Inr find_session_def with_text_def split: option.splits dest: first_where_Some)
  have u: "us_ID user = rs_user_id row" "working w2 = Some d"
    using user row(3,4) unfolding UserStore_FindByID_def
    by (auto simp: run_Inr find_user_by_id_def scan_user_def scan_session_def split: option.splits dest!: first_where_Some)
  obtain sid w4 w5 where ro: "RefreshSessionStore_Rotate P h
      (new_session P sid (us_ID user) token (now + as_refreshTokenTTL s)) now w4 = (Inr (), w5)"
    "working w4 = Some d" "working w' = working w5"
    using rot u(2) unfolding rotate_session_of_def by (auto simp: run_Inr Let_def)
  obtain new d' where "working w5 = Some d'" "rotated P h now new d d' \<or> rs_user_id new \<noteq> rs_user_id row"
    "rs_token_hash new = hashToken P token" "rs_user_id new = us_ID user"
    by (rule Rotate_effect[OF ro(1,2) d(2,3) row(1,2)]) (auto simp: new_session_def)
  then show ?thesis using u(1) ro(3) by (intro that[of d' new]) auto
qed

lemma Refresh_cases:
  assumes run: "Auth_Refresh P J s req w = (r, w')" and d: "db_ok (committed w)"
  obtains (unchanged) "committed w' = committed w" "\<exists>e. r = Inl e"
  | (rotated) token access new where "rr_RefreshToken req \<noteq> ''''"
      "rotated P (hashToken P (rr_RefreshToken req)) (time_Now P (calls w)) new (committed w) (committed w')"
      "rs_token_hash new = hashToken P token" "r = Inr (token_response s access token) \<or> (\<exists>e. r = Inl (Classify e))"
proof (cases "rr_RefreshToken req = ''''")
  case True
  then have "committed w' = committed w" "\<exists>e. r = Inl e" using run by (auto simp: Auth_Refresh_def fail_def)
  then show ?thesis by (rule unchanged)
next
  case False
  let ?h = "hashToken P (rr_RefreshToken req)" and ?now = "time_Now P (calls w)"
  let ?w = "w\<lparr>calls := Suc (calls w)\<rparr>"
  obtain r1 w1 where t: "WithinTransaction P (refresh_body P J s ?h ?now) ?w = (r1, w1)"
    and r: "committed w' = committed w1"
      "r = (case r1 of Inl e \<Rightarrow> Inl e | Inr (token, access) \<Rightarrow> Inr (token_response s access token))"
    using run False
    by (cases "WithinTransaction P (refresh_body P J s ?h ?now) ?w")
       (auto simp: Auth_Refresh_def go_unfold Let_def split: sum.splits prod.splits)
  from t tx_only_refresh_body show ?thesis
  proof (cases rule: WithinTransaction_cases)
    case unchanged
    then show ?thesis using r that(1) by auto
  next
    case (committed x w2 w3)
    obtain token access where x: "x = (token, access)" by (cases x)
    obtain new d' where "working w3 = Some d'" "rotated P ?h ?now new (committed w) d'" "rs_token_hash new = hashToken P token"
      by (rule refresh_body_effect[OF committed(5)[unfolded x] committed(1)]) (auto simp: d)
    then show ?thesis using committed(6,7) r x False by (intro that(2)[of new token access]) auto
  qed
qed


section \<open>Spent tokens\<close>

text \<open>A session with the token's hash exists and is revoked.\<close>

definition spent :: "string \<Rightarrow> database \<Rightarrow> bool" where
  "spent h d \<longleftrightarrow> (\<exists>r \<in> set (refresh_sessions d). rs_token_hash r = h \<and> rs_revoked_at r \<noteq> None)"

lemma spent_kept: "spent h d \<Longrightarrow> sessions_kept d d' \<Longrightarrow> spent h d'"
  unfolding spent_def using revoked_forever by blast

lemma rotated_spent:
  assumes "rotated P h now new d d'"
  shows "spent h d'"
proof -
  obtain old where "old \<in> set (refresh_sessions d)" "rs_token_hash old = h"
    using assms by (auto simp: rotated_def)
  then have "replace_session P now (rs_id new) old \<in> set (refresh_sessions d')" "rs_token_hash old = h"
    using assms by (auto simp: rotated_def update_where_def)
  then show ?thesis unfolding spent_def by (intro bexI) (simp_all add: replace_session_def)
qed

lemma spent_not_rotated:
  assumes "db_ok d" "spent h d"
  shows "\<not> rotated P h now new d d'"
proof
  assume "rotated P h now new d d'"
  then obtain old where old: "old \<in> set (refresh_sessions d)" "rs_token_hash old = h" "rs_revoked_at old = None"
    by (auto simp: rotated_def)
  obtain r where r: "r \<in> set (refresh_sessions d)" "rs_token_hash r = h" "rs_revoked_at r \<noteq> None"
    using assms(2) by (auto simp: spent_def)
  have "r = old" using unique_by_same[OF db_okD(5)[OF assms(1)] r(1) old(1)] r(2) old(2) by simp
  then show False using old(3) r(3) by simp
qed

lemma find_session_unique:
  assumes "db_ok d" "r \<in> set (refresh_sessions d)" "rs_token_hash r = h" "pg_text_ok h"
  shows "find_session h t d = (Inr r, d)"
proof -
  have "first_where (\<lambda>x. rs_token_hash x = h) (refresh_sessions d) = Some r"
    using assms(3) by (intro first_where_unique[OF db_okD(5)[OF assms(1)] assms(2)]) auto
  then show ?thesis using assms(4) by (simp add: find_session_def with_text_def)
qed

lemma Refresh_faultless_fails:
  assumes "faultless P" "rr_RefreshToken req \<noteq> ''''"
    and "refresh_body P J s (hashToken P (rr_RefreshToken req)) (time_Now P (calls w)) (started P (w\<lparr>calls := Suc (calls w)\<rparr>)) = (Inl e, w1)"
  shows "fst (Auth_Refresh P J s req w) = Inl e"
proof -
  obtain w2 where "WithinTransaction P (refresh_body P J s (hashToken P (rr_RefreshToken req)) (time_Now P (calls w)))
      (w\<lparr>calls := Suc (calls w)\<rparr>) = (Inl e, w2)"
    using transaction_fails[OF assms(1) tx_only_refresh_body assms(3)] by blast
  then show ?thesis using assms(2) by (simp add: Auth_Refresh_def go_unfold Let_def)
qed

lemma refresh_spent:
  assumes d: "db_ok (committed w)" "spent (hashToken P (rr_RefreshToken req)) (committed w)"
    and run: "Auth_Refresh P J s req w = (r, w')"
  shows "committed w' = committed w \<and> (\<exists>e. r = Inl e) \<and> (faultless P \<longrightarrow> r = Inl (DomainError InvalidRefreshToken))"
proof -
  let ?h = "hashToken P (rr_RefreshToken req)"
  from run d(1) have un: "committed w' = committed w" "\<exists>e. r = Inl e"
    by (cases rule: Refresh_cases; use spent_not_rotated[OF d] in auto)+
  obtain row where row: "row \<in> set (refresh_sessions (committed w))" "rs_token_hash row = ?h" "rs_revoked_at row \<noteq> None"
    using d(2) by (auto simp: spent_def)
  have "r = Inl (DomainError InvalidRefreshToken)" if P: "faultless P"
  proof (cases "rr_RefreshToken req = ''''")
    case True
    then show ?thesis using run by (simp add: Auth_Refresh_def fail_def)
  next
    case False
    let ?w = "started P (w\<lparr>calls := Suc (calls w)\<rparr>)"
    have "tx_exec P (find_session ?h) ?w = (Inr row, ?w\<lparr>calls := Suc (calls ?w)\<rparr>)"
      using P by (simp add: tx_exec_faultless[OF P] find_session_unique[OF d(1) row(1,2)])
    then have "\<exists>w1. refresh_body P J s ?h (time_Now P (calls w)) ?w = (Inl (DomainError InvalidRefreshToken), w1)"
      using row(3) by (simp add: refresh_body_def RefreshSessionStore_FindByTokenHash_def go_unfold scan_session_def)
    then show ?thesis using Refresh_faultless_fails[OF P False] run by (metis fst_conv)
  qed
  then show ?thesis using un by blast
qed

section \<open>Logout\<close>

lemma Logout_cases:
  assumes run: "Auth_Logout P req w = (r, w')"
  obtains (unchanged) "committed w' = committed w" "r = Inr () \<Longrightarrow> lo_RefreshToken req = ''''"
  | (revoked) "committed w' = snd (revoke_session P (time_Now P (calls w)) (hashToken P (lo_RefreshToken req)) 0 (committed w))"
proof (cases "lo_RefreshToken req = ''''")
  case True
  then show ?thesis using run that(1) by (auto simp: Auth_Logout_def ok_def)
next
  case False
  let ?h = "hashToken P (lo_RefreshToken req)" and ?now = "time_Now P (calls w)"
  have t: "WithinTransaction P (RefreshSessionStore_RevokeByTokenHash P ?h ?now) (w\<lparr>calls := Suc (calls w)\<rparr>) = (r, w')"
    using run False by (simp add: Auth_Logout_def go_unfold Let_def)
  from t tx_only_sessions(4) show ?thesis
  proof (cases rule: WithinTransaction_cases)
    case unchanged
    then show ?thesis using that(1) by auto
  next
    case (committed x w2 w3)
    then show ?thesis using that(2)
      by (auto simp: RefreshSessionStore_RevokeByTokenHash_def run_Inr revoke_session_def with_text_def)
  qed
qed

lemma revoke_spent:
  assumes "r \<in> set (refresh_sessions d)" "rs_token_hash r = h" "pg_text_ok h"
  shows "spent h (snd (revoke_session P now h t d))"
proof (cases "rs_revoked_at r = None")
  case True
  then have "r\<lparr>rs_revoked_at := Some (pg_timestamptz P now)\<rparr> \<in> set (refresh_sessions (snd (revoke_session P now h t d)))"
    using assms by (force simp: revoke_session_def with_text_def active_session_def update_where_def)
  then show ?thesis using assms(2) unfolding spent_def
    by (intro bexI[of _ "r\<lparr>rs_revoked_at := Some (pg_timestamptz P now)\<rparr>"]) simp_all
next
  case False
  then have "r \<in> set (refresh_sessions (snd (revoke_session P now h t d)))"
    using assms by (force simp: revoke_session_def with_text_def active_session_def update_where_def)
  then show ?thesis using assms(2) False unfolding spent_def by blast
qed


section \<open>Success without faults\<close>

text \<open>A new session that no constraint refuses.\<close>

definition fresh_session :: "platform \<Rightarrow> database \<Rightarrow> uuid \<Rightarrow> string \<Rightarrow> bool" where
  "fresh_session P d i token \<longleftrightarrow>
     (\<forall>r \<in> set (refresh_sessions d). rs_id r \<noteq> i \<and> rs_replaced_by_id r \<noteq> Some i \<and> rs_token_hash r \<noteq> hashToken P token)"

lemma insert_session_succeeds:
  assumes "fresh_session P d i token" "user_exists d u" "created < pg_timestamptz P expires"
  shows "\<exists>row. insert_session P (new_session P i u token expires) created t d
      = (Inr (), d\<lparr>refresh_sessions := refresh_sessions d @ [row]\<rparr>)
    \<and> rs_id row = i \<and> rs_user_id row = u \<and> rs_token_hash row = hashToken P token \<and> rs_revoked_at row = None
    \<and> rs_expires_at row = pg_timestamptz P expires \<and> rs_replaced_by_id row = None"
  using assms
  by (auto simp: insert_session_def new_session_def text_column_def Let_def session_check_def fresh_session_def)

lemma Create_succeeds:
  assumes "faultless P" "working w = Some d" "fresh_session P d i token" "user_exists d u"
    and "tx_now w < pg_timestamptz P expires"
  shows "\<exists>row w'. RefreshSessionStore_Create P (new_session P i u token expires) w = (Inr (), w')
    \<and> working w' = Some (d\<lparr>refresh_sessions := refresh_sessions d @ [row]\<rparr>)
    \<and> rs_id row = i \<and> rs_user_id row = u \<and> rs_token_hash row = hashToken P token \<and> rs_revoked_at row = None
    \<and> rs_expires_at row = pg_timestamptz P expires"
proof -
  obtain row where "insert_session P (new_session P i u token expires) (tx_now w) (tx_now w) d
      = (Inr (), d\<lparr>refresh_sessions := refresh_sessions d @ [row]\<rparr>)"
    "rs_id row = i \<and> rs_user_id row = u \<and> rs_token_hash row = hashToken P token \<and> rs_revoked_at row = None
     \<and> rs_expires_at row = pg_timestamptz P expires"
    using insert_session_succeeds[OF assms(3-5)] by blast
  then show ?thesis using assms(2)
    by (auto simp: RefreshSessionStore_Create_def go_unfold unwrapTransaction_def tx_exec_faultless[OF assms(1,2)])
qed

lemma Rotate_succeeds:
  assumes P: "faultless P" and w: "working w = Some d" and d: "db_ok d" "fresh_session P d i token"
    and u: "user_exists d u" and e: "pg_timestamptz P now < pg_timestamptz P expires"
    and old: "old \<in> set (refresh_sessions d)" "live_session P h now old" "pg_text_ok h"
  shows "\<exists>w' d'. RefreshSessionStore_Rotate P h (new_session P i u token expires) now w = (Inr (), w')
    \<and> working w' = Some d'"
proof -
  obtain row where ins: "insert_session P (new_session P i u token expires) (pg_timestamptz P now) (tx_now w) d
      = (Inr (), d\<lparr>refresh_sessions := refresh_sessions d @ [row]\<rparr>)"
    "rs_token_hash row = hashToken P token" "rs_replaced_by_id row = None"
    using insert_session_succeeds[OF d(2) u e] by blast
  let ?d1 = "d\<lparr>refresh_sessions := refresh_sessions d @ [row]\<rparr>"
  have h: "\<not> live_session P h now row"
    using ins(2) old(1,2) d(2) by (auto simp: live_session_def fresh_session_def)
  have "affected (live_session P h now) (refresh_sessions d) = 1"
    by (rule affected_unique[where p = "live_session P h now" and key = rs_token_hash, OF db_okD(5)[OF d(1)] old(1,2)]) (use old(2) in \<open>auto simp: live_session_def\<close>)
  then have one: "affected (live_session P h now) (refresh_sessions ?d1) = 1"
    using h by (simp add: affected_def)
  have "\<not> (\<exists>r \<in> set (refresh_sessions ?d1). \<not> live_session P h now r \<and> rs_replaced_by_id r = Some i)"
    using d(2) ins(3) by (auto simp: fresh_session_def)
  then have "\<exists>d2. rotate_session P now i h (tx_now w) ?d1 = (Inr 1, d2)"
    using one old(3) by (auto simp: rotate_session_def with_text_def Let_def)
  then obtain d2 where rot: "rotate_session P now i h (tx_now w) ?d1 = (Inr 1, d2)" by blast
  have tx1: "tx_exec P (insert_session P (new_session P i u token expires) (pg_timestamptz P now)) w
      = (Inr (), w\<lparr>calls := Suc (calls w), working := Some ?d1\<rparr>)"
    using ins(1) by (simp add: tx_exec_faultless[OF P w])
  have tx2: "tx_exec P (rotate_session P now i h) (w\<lparr>calls := Suc (calls w), working := Some ?d1\<rparr>)
      = (Inr 1, w\<lparr>calls := Suc (Suc (calls w)), working := Some d2\<rparr>)"
    using rot by (simp add: tx_exec_faultless[OF P])
  show ?thesis using w tx1 tx2
    by (simp add: RefreshSessionStore_Rotate_def go_unfold unwrapTransaction_def new_session_def)
qed

text \<open>
  A world in which a refresh of the request's token must succeed: no faults, a live session, room
  for the new one, and a signer that signs. The ids are the two that the environment gives next.
\<close>

definition refresh_ready :: "platform \<Rightarrow> jwt_library \<Rightarrow> auth_service \<Rightarrow> RefreshRequest \<Rightarrow> world \<Rightarrow> session_row \<Rightarrow> bool" where
  "refresh_ready P J s req w old \<longleftrightarrow>
     (let d = committed w; now = time_Now P (calls w); n = calls w + 4
      in faultless P \<and> db_ok d \<and> rr_RefreshToken req \<noteq> ''''
         \<and> old \<in> set (refresh_sessions d) \<and> live_session P (hashToken P (rr_RefreshToken req)) now old
         \<and> now < rs_expires_at old
         \<and> fresh_session P d (uuid_New P (n + 1)) (uuid_String P (uuid_New P n))
         \<and> pg_timestamptz P now < pg_timestamptz P (now + as_refreshTokenTTL s)
         \<and> (\<forall>user. \<exists>token. generateAccessToken P J s user now = Inr token))"

lemma refresh_body_succeeds:
  assumes ready: "refresh_ready P J s req w old" and h: "h = hashToken P (rr_RefreshToken req)"
    and now: "now = time_Now P (calls w)" and ws: "ws = started P (w\<lparr>calls := Suc (calls w)\<rparr>)"
  shows "\<exists>x w1 d1. refresh_body P J s h now ws = (Inr x, w1) \<and> working w1 = Some d1"
proof -
  let ?d = "committed w" and ?n = "calls w + 4"
  have P: "faultless P" and d: "db_ok ?d" and old: "old \<in> set (refresh_sessions ?d)" "live_session P h now old" "now < rs_expires_at old"
    and fr: "fresh_session P ?d (uuid_New P (?n + 1)) (uuid_String P (uuid_New P ?n))"
    and e: "pg_timestamptz P now < pg_timestamptz P (now + as_refreshTokenTTL s)"
    and sign: "\<exists>token. generateAccessToken P J s user now = Inr token" for user
    using ready by (auto simp: refresh_ready_def Let_def h now)
  have hash: "rs_token_hash old = h" "rs_revoked_at old = None" using old(2) by (auto simp: live_session_def)
  have user: "user_exists ?d (rs_user_id old)" using db_okD(13)[OF d old(1)] by blast
  obtain u where u: "first_where (\<lambda>r. ur_id r = rs_user_id old) (users ?d) = Some u" "ur_id u = rs_user_id old"
    using user by (cases "first_where (\<lambda>r. ur_id r = rs_user_id old) (users ?d)")
      (auto simp: user_exists_def first_where_None dest: first_where_Some)
  have find: "RefreshSessionStore_FindByTokenHash P True h ws = (Inr (scan_session old), ws\<lparr>calls := calls w + 3\<rparr>)"
    using find_session_unique[OF d old(1) hash(1)] unfolding ws h
    by (simp add: RefreshSessionStore_FindByTokenHash_def go_unfold tx_exec_faultless[OF P] eval_nat_numeral)
  have byid: "UserStore_FindByID P (rs_user_id old) (ws\<lparr>calls := calls w + 3\<rparr>) = (Inr (scan_user u), ws\<lparr>calls := calls w + 4\<rparr>)"
    using u(1) unfolding ws
    by (simp add: UserStore_FindByID_def go_unfold pool_exec_faultless[OF P] find_user_by_id_def eval_nat_numeral)
  obtain w2 d2 where rot: "RefreshSessionStore_Rotate P h
      (new_session P (uuid_New P (?n + 1)) (rs_user_id old) (uuid_String P (uuid_New P ?n)) (now + as_refreshTokenTTL s)) now
      (ws\<lparr>calls := ?n + 2\<rparr>) = (Inr (), w2)" "working w2 = Some d2"
    using Rotate_succeeds[OF P _ d fr user e old(1,2), of "ws\<lparr>calls := ?n + 2\<rparr>"] h ws by auto
  obtain token where "generateAccessToken P J s (scan_user u) now = Inr token" using sign by blast
  then have "rotate_session_of P J s h now (scan_user u) (ws\<lparr>calls := ?n\<rparr>) = (Inr (uuid_String P (uuid_New P ?n), token), w2)"
    using rot(1) u(2) by (simp add: rotate_session_of_def go_unfold Let_def scan_user_def eval_nat_numeral)
  then show ?thesis using find byid hash(2) old(3) rot(2)
    by (simp add: refresh_body_def go_unfold scan_session_def)
qed

lemma refresh_succeeds:
  assumes "refresh_ready P J s req w old"
  shows "\<exists>token access w'. Auth_Refresh P J s req w = (Inr (token_response s access token), w')"
proof -
  let ?h = "hashToken P (rr_RefreshToken req)" and ?now = "time_Now P (calls w)" and ?w = "w\<lparr>calls := Suc (calls w)\<rparr>"
  obtain x w1 d1 where "refresh_body P J s ?h ?now (started P ?w) = (Inr x, w1)" "working w1 = Some d1"
    using refresh_body_succeeds[OF assms refl refl refl] by blast
  moreover have P: "faultless P" "rr_RefreshToken req \<noteq> ''''" using assms by (simp_all add: refresh_ready_def Let_def)
  ultimately obtain w2 where "WithinTransaction P (refresh_body P J s ?h ?now) ?w = (Inr x, w2)"
    using transaction_commits[OF P(1), of "refresh_body P J s ?h ?now" ?w x w1 d1] by blast
  then show ?thesis using P(2) by (cases x) (auto simp: Auth_Refresh_def go_unfold Let_def)
qed


section \<open>Login\<close>

text \<open>The user a login names, with the password of the request.\<close>

definition authenticates :: "platform \<Rightarrow> LoginRequest \<Rightarrow> database \<Rightarrow> user_row \<Rightarrow> bool" where
  "authenticates P req d u \<longleftrightarrow>
     u \<in> set (users d) \<and> ur_username u = lr_Username req \<and> CompareHashAndPassword P (ur_password_hash u) (lr_Password req)"

text \<open>The whole change a login makes: one new live session of the user, under the hash of the token.\<close>

definition session_opened :: "platform \<Rightarrow> uuid \<Rightarrow> string \<Rightarrow> database \<Rightarrow> database \<Rightarrow> bool" where
  "session_opened P u token d d' \<longleftrightarrow>
     (\<exists>row. rs_user_id row = u \<and> rs_token_hash row = hashToken P token \<and> rs_revoked_at row = None
        \<and> d' = d\<lparr>refresh_sessions := refresh_sessions d @ [row]\<rparr>)"

lemma FindByUsername_Inr:
  assumes "UserStore_FindByUsername P name w = (Inr user, w1)"
  obtains u where "u \<in> set (users (committed w))" "ur_username u = name" "user = scan_user u"
    "w1 = w\<lparr>calls := Suc (calls w)\<rparr>" "first_where (\<lambda>r. ur_username r = name) (users (committed w)) = Some u"
  using assms unfolding UserStore_FindByUsername_def
  by (auto simp: run_Inr find_user_by_username_def with_text_def split: if_splits option.splits dest: first_where_Some)

lemma FindByUsername_Inl:
  assumes "UserStore_FindByUsername P name w = (Inl e, w1)"
  shows "committed w1 = committed w"
  using assms unfolding UserStore_FindByUsername_def
  by (auto simp: go_unfold pool_exec_def find_user_by_username_def with_text_def Let_def
        split: if_splits option.splits db_fault.splits sum.splits)

lemma open_session_cases:
  assumes run: "open_session P J s user w = (r, w')"
  obtains (unchanged) "committed w' = committed w" "\<exists>e. r = Inl e"
  | (opened) token access where "session_opened P (us_ID user) token (committed w) (committed w')"
      "generateAccessToken P J s user (time_Now P (calls w)) = Inr access"
      "r = Inr (token_response s access token) \<or> (\<exists>e. r = Inl (Classify e))"
proof (cases "generateAccessToken P J s user (time_Now P (calls w))")
  case (Inl e)
  then show ?thesis using run that(1) by (auto simp: open_session_def go_unfold)
next
  case (Inr access)
  let ?n = "calls w" and ?w = "w\<lparr>calls := calls w + 3\<rparr>"
  let ?token = "uuid_String P (uuid_New P (?n + 1))"
  let ?session = "new_session P (uuid_New P (?n + 2)) (us_ID user) ?token (time_Now P ?n + as_refreshTokenTTL s)"
  obtain r1 w1 where t: "WithinTransaction P (RefreshSessionStore_Create P ?session) ?w = (r1, w1)" by force
  have r: "w' = w1" "r = (case r1 of Inl e \<Rightarrow> Inl e | Inr _ \<Rightarrow> Inr (token_response s access ?token))"
    using run Inr t by (auto simp: open_session_def go_unfold Let_def eval_nat_numeral split: sum.splits)
  from t tx_only_sessions(1) show ?thesis
  proof (cases rule: WithinTransaction_cases)
    case unchanged
    then show ?thesis using r that(1) by auto
  next
    case (committed x w2 w3)
    obtain t1 d1 where ins: "insert_session P ?session t1 t1 (committed w) = (Inr (), d1)" "working w3 = Some d1"
      using committed(1,5) unfolding RefreshSessionStore_Create_def by (auto simp: run_Inr)
    have "session_opened P (us_ID user) ?token (committed w) (committed w')"
      using insert_session_Inr[OF ins(1)] ins(2) committed(6) r(1)
      unfolding session_opened_def by (auto simp: new_session_def)
    moreover have "r = Inr (token_response s access ?token) \<or> (\<exists>e. r = Inl (Classify e))"
      using committed(7) r(2) by auto
    ultimately show ?thesis using Inr that(2) by blast
  qed
qed

lemma open_session_succeeds:
  assumes P: "faultless P" and gen: "generateAccessToken P J s user (time_Now P (calls w)) = Inr access"
    and fresh: "fresh_session P (committed w) (uuid_New P (calls w + 2)) (uuid_String P (uuid_New P (calls w + 1)))"
    and u: "user_exists (committed w) (us_ID user)"
    and e: "pg_now P (calls w + 3) < pg_timestamptz P (time_Now P (calls w) + as_refreshTokenTTL s)"
  shows "\<exists>response w'. open_session P J s user w = (Inr response, w')"
proof -
  let ?n = "calls w"
  let ?w = "w\<lparr>calls := ?n + 3\<rparr>" and ?e = "time_Now P ?n + as_refreshTokenTTL s"
  let ?s = "new_session P (uuid_New P (?n + 2)) (us_ID user) (uuid_String P (uuid_New P (?n + 1))) ?e"
  obtain w1 d1 where "RefreshSessionStore_Create P ?s (started P ?w) = (Inr (), w1)" "working w1 = Some d1"
  proof -
    have "working (started P ?w) = Some (committed w)" "tx_now (started P ?w) < pg_timestamptz P ?e"
      using e by simp_all
    then show ?thesis using Create_succeeds[OF P _ fresh u] that by blast
  qed
  then obtain w2 where "WithinTransaction P (RefreshSessionStore_Create P ?s) ?w = (Inr (), w2)"
    using transaction_commits[OF P, of "RefreshSessionStore_Create P ?s" ?w "()" w1 d1] by blast
  then have "open_session P J s user w = (Inr (token_response s access (uuid_String P (uuid_New P (?n + 1)))), w2)"
    using gen by (simp add: open_session_def andThen_def handle_def read_clock_def lift_result_def new_uuid_def ok_def
        Let_def numeral_2_eq_2 numeral_3_eq_3)
  then show ?thesis by blast
qed

lemma Login_cases:
  assumes run: "Auth_Login P J s req w = (r, w')"
  obtains (unchanged) "committed w' = committed w" "\<exists>e. r = Inl e"
  | (opened) u token access where "authenticates P req (committed w) u"
      "session_opened P (ur_id u) token (committed w) (committed w')"
      "generateAccessToken P J s (scan_user u) (time_Now P (Suc (calls w))) = Inr access"
      "r = Inr (token_response s access token) \<or> (\<exists>e. r = Inl (Classify e))"
proof -
  obtain ru w1 where f: "UserStore_FindByUsername P (lr_Username req) w = (ru, w1)" by force
  show ?thesis
  proof (cases ru)
    case (Inl e)
    then show ?thesis using run f FindByUsername_Inl[of P _ w e w1] that(1)
      by (auto simp: Auth_Login_def rejected_login_def go_unfold split: if_splits)
  next
    case (Inr user)
    obtain u where u: "u \<in> set (users (committed w))" "ur_username u = lr_Username req" "user = scan_user u" "w1 = w\<lparr>calls := Suc (calls w)\<rparr>"
      using FindByUsername_Inr[OF f[unfolded Inr]] by metis
    show ?thesis
    proof (cases "CompareHashAndPassword P (us_PasswordHash user) (lr_Password req)")
      case False
      then show ?thesis using run f Inr u(4) that(1)
        by (auto simp: Auth_Login_def rejected_login_def go_unfold)
    next
      case True
      then have o: "open_session P J s user w1 = (r, w')" using run f Inr by (simp add: Auth_Login_def handle_def)
      have au: "authenticates P req (committed w) u" using u True by (simp add: authenticates_def scan_user_def)
      from o show ?thesis
      proof (cases rule: open_session_cases)
        case unchanged
        then show ?thesis using that(1) u(4) by simp
      next
        case (opened token access)
        then show ?thesis using that(2)[OF au] u(3,4) by (simp add: scan_user_def)
      qed
    qed
  qed
qed

section \<open>Properties\<close>

text \<open>
  C25. A refresh token works once: after a \<open>Refresh\<close> of it succeeded, in every later state of the
  database (sessions only ever progress: \<open>sessions_kept\<close>) a further \<open>Refresh\<close> of the same token changes
  nothing and fails, whatever faults occur; without faults the error is \<open>INVALID_REFRESH_TOKEN\<close>.
\<close>

theorem refresh_single_use:
  assumes "db_ok (committed w)" "Auth_Refresh P J s req w = (Inr response, w1)"
    and "sessions_kept (committed w1) (committed w2)" "db_ok (committed w2)" "Sum256 P2 = Sum256 P"
    and "Auth_Refresh P2 J2 s2 req w2 = (r, w3)"
  shows "committed w3 = committed w2 \<and> (\<exists>e. r = Inl e) \<and> (faultless P2 \<longrightarrow> r = Inl (DomainError InvalidRefreshToken))"
proof -
  from assms(2,1) have "spent (hashToken P (rr_RefreshToken req)) (committed w1)"
    by (cases rule: Refresh_cases) (auto intro: rotated_spent)
  then have "spent (hashToken P2 (rr_RefreshToken req)) (committed w2)"
    using spent_kept[OF _ assms(3)] assms(5) by (simp add: hashToken_def)
  then show ?thesis using refresh_spent[OF assms(4) _ assms(6)] by blast
qed

text \<open>
  C26. \<open>Refresh\<close> is all or nothing under every fault: either the database is as before and an error is
  reported, or the presented token's session, which was live, is revoked and replaced by exactly one
  new session of the same user under a new token, and nothing else changed (even when the reply to the
  commit was lost and the caller sees an error).
\<close>

theorem refresh_atomic:
  assumes "db_ok (committed w)" "Auth_Refresh P J s req w = (r, w')"
  shows "committed w' = committed w \<and> (\<exists>e. r = Inl e)
    \<or> (\<exists>token access new. rotated P (hashToken P (rr_RefreshToken req)) (time_Now P (calls w)) new (committed w) (committed w')
         \<and> rs_token_hash new = hashToken P token
         \<and> (r = Inr (token_response s access token) \<or> (\<exists>e. r = Inl (Classify e))))"
  using assms(2,1) by (cases rule: Refresh_cases) blast+

text \<open>
  C27. A login opens a session only for the right password: \<open>Login\<close> either changes nothing and fails, or
  the database has a user with that name whose stored hash accepts the password, and the one change is a
  new live session of that user under the hash of the refresh token it returns.
\<close>

theorem login_needs_password:
  "case Auth_Login P J s req w of (r, w') \<Rightarrow>
     committed w' = committed w \<and> (\<exists>e. r = Inl e)
     \<or> (\<exists>u token access. authenticates P req (committed w) u
          \<and> session_opened P (ur_id u) token (committed w) (committed w')
          \<and> (r = Inr (token_response s access token) \<or> (\<exists>e. r = Inl (Classify e))))"
proof -
  obtain r w' where run: "Auth_Login P J s req w = (r, w')" by force
  then have "committed w' = committed w \<and> (\<exists>e. r = Inl e)
     \<or> (\<exists>u token access. authenticates P req (committed w) u
          \<and> session_opened P (ur_id u) token (committed w) (committed w')
          \<and> (r = Inr (token_response s access token) \<or> (\<exists>e. r = Inl (Classify e))))"
    by (cases rule: Login_cases) blast+
  then show ?thesis unfolding run prod.case .
qed

text \<open>
  C28. Logging out ends the session for good: when the token had a session and \<open>Logout\<close> reported success,
  then in every later state of the database \<open>Refresh\<close> of that token changes nothing and fails, without faults
  with \<open>INVALID_REFRESH_TOKEN\<close>.
\<close>

theorem logout_ends_session:
  assumes "row \<in> set (refresh_sessions (committed w))" "rs_token_hash row = hashToken P token" "token \<noteq> ''''"
    and "Auth_Logout P \<lparr>lo_RefreshToken = token\<rparr> w = (Inr (), w1)"
    and "sessions_kept (committed w1) (committed w2)" "db_ok (committed w2)" "Sum256 P2 = Sum256 P"
    and "Auth_Refresh P2 J s \<lparr>rr_RefreshToken = token\<rparr> w2 = (r, w3)"
  shows "committed w3 = committed w2 \<and> (\<exists>e. r = Inl e) \<and> (faultless P2 \<longrightarrow> r = Inl (DomainError InvalidRefreshToken))"
proof -
  from assms(4) have "spent (hashToken P token) (committed w1)"
    by (cases rule: Logout_cases) (use assms(1-3) revoke_spent in auto)
  then have "spent (hashToken P2 token) (committed w2)"
    using spent_kept[OF _ assms(5)] assms(7) by (simp add: hashToken_def)
  then show ?thesis using refresh_spent[OF assms(6) _ assms(8)] by simp
qed


section \<open>A concrete session\<close>

definition demo_auth :: platform where
  "demo_auth = demo\<lparr>Sum256 := (\<lambda>s. s)\<rparr>"

definition demo_signer :: jwt_library where
  "demo_signer = \<lparr>jwt_SignedString = (\<lambda>_ _ _. Inr ''jwt''), jwt_ParseUnverified = (\<lambda>_. None), jwt_Parse = (\<lambda>_ _ _. Inl ErrNoRows)\<rparr>"

definition demo_auth_service :: auth_service where
  "demo_auth_service =
     \<lparr>as_keyProvider = static_provider (NewStaticKeyProvider ''v1'' ''secret'' []), as_jwtIssuer = ''issuer'',
      as_jwtAudience = ''audience'', as_accessTokenTTL = 900 * Second, as_refreshTokenTTL = 3600 * Second\<rparr>"

definition demo_session :: session_row where
  "demo_session =
     \<lparr>rs_id = 7, rs_user_id = demo_user, rs_token_hash = hashToken demo_auth ''t'', rs_expires_at = 3600 * Second,
      rs_revoked_at = None, rs_replaced_by_id = None, rs_created_at = 0\<rparr>"

definition session_db :: database where
  "session_db = demo_db\<lparr>refresh_sessions := [demo_session]\<rparr>"

lemma demo_auth_fields [simp]:
  "faultless demo_auth" "uuid_New demo_auth = uuid_New demo" "time_Now demo_auth = demo_time"
  "uuid_String demo_auth = demo_String" "pg_timestamptz demo_auth t = t div 1000 * 1000"
  "Sum256 demo_auth = (\<lambda>s. s)"
  using demo_ok(1) by (simp_all add: demo_auth_def faultless_def)

lemma session_db_ok [simp]: "db_ok session_db"
proof -
  have "db_ok (demo_db\<lparr>refresh_sessions := [demo_session]\<rparr>)"
    by (rule db_ok_refresh_sessions)
       (auto simp: unique_by_def demo_session_def session_check_def)
  then show ?thesis by (simp add: session_db_def)
qed

lemma EncodeToString_length [simp]: "length (EncodeToString s) = 2 * length s"
  by (induction s) (simp_all add: EncodeToString_def)

lemma demo_fresh: "rs_token_hash demo_session \<noteq> hashToken demo_auth (demo_String u)"
proof
  assume "rs_token_hash demo_session = hashToken demo_auth (demo_String u)"
  then have "length (hashToken demo_auth ''t'') = length (hashToken demo_auth (demo_String u))"
    by (simp add: demo_session_def)
  then show False by (simp add: hashToken_def demo_String_def)
qed

lemma demo_refresh_ready:
  "refresh_ready demo_auth demo_signer demo_auth_service \<lparr>rr_RefreshToken = ''t''\<rparr> (in_world session_db) demo_session"
proof -
  have "fresh_session demo_auth session_db (uuid_New demo 5) (demo_String (uuid_New demo 4))"
    using demo_fresh[of "uuid_New demo 4"]
    by (simp add: fresh_session_def session_db_def) (simp add: demo_session_def)
  then show ?thesis
    by (simp add: refresh_ready_def Let_def session_db_def[symmetric])
       (simp add: session_db_def demo_session_def live_session_def demo_time_def generateAccessToken_def
          demo_signer_def demo_auth_service_def split: prod.splits)
qed

theorem refresh_single_use_witness:
  "\<exists>response w1 r w3. Auth_Refresh demo_auth demo_signer demo_auth_service \<lparr>rr_RefreshToken = ''t''\<rparr> (in_world session_db) = (Inr response, w1)
     \<and> Auth_Refresh demo_auth demo_signer demo_auth_service \<lparr>rr_RefreshToken = ''t''\<rparr> w1 = (r, w3)
     \<and> committed w3 = committed w1 \<and> r = Inl (DomainError InvalidRefreshToken)"
proof -
  let ?R = "Auth_Refresh demo_auth demo_signer demo_auth_service \<lparr>rr_RefreshToken = ''t''\<rparr>"
  obtain response w1 where r1: "?R (in_world session_db) = (Inr response, w1)"
    using refresh_succeeds[OF demo_refresh_ready] by blast
  obtain r w3 where r2: "?R w1 = (r, w3)" by force
  have ok: "db_ok (committed w1)"
    using evolvesD(1)[OF schema.evolves_Refresh, of "in_world session_db" demo_auth demo_signer demo_auth_service] r1
    unfolding schema_kept_def by (metis in_world_simps(1) session_db_ok snd_conv)
  show ?thesis
    using r1 r2 ok refresh_single_use[OF _ r1 sessions_same[OF refl] ok refl r2] by simp
qed

theorem refresh_atomic_witness:
  "\<exists>(w'::world) token new. rotated demo_auth (hashToken demo_auth ''t'') (demo_time 0) new session_db (committed w')
     \<and> rs_token_hash new = hashToken demo_auth token"
proof -
  let ?R = "Auth_Refresh demo_auth demo_signer demo_auth_service \<lparr>rr_RefreshToken = ''t''\<rparr>"
  obtain response w1 where r1: "?R (in_world session_db) = (Inr response, w1)"
    using refresh_succeeds[OF demo_refresh_ready] by blast
  then have "\<exists>token new. rotated demo_auth (hashToken demo_auth ''t'') (demo_time 0) new session_db (committed w1)
      \<and> rs_token_hash new = hashToken demo_auth token"
    using refresh_atomic[OF _ r1] by auto
  then show ?thesis by blast
qed

lemma Logout_succeeds:
  assumes "faultless P"
  shows "\<exists>w'. Auth_Logout P req w = (Inr (), w')"
proof (cases "lo_RefreshToken req = ''''")
  case False
  let ?h = "hashToken P (lo_RefreshToken req)" and ?now = "time_Now P (calls w)" and ?w = "w\<lparr>calls := Suc (calls w)\<rparr>"
  have "\<exists>w1 d. RefreshSessionStore_RevokeByTokenHash P ?h ?now (started P ?w) = (Inr (), w1) \<and> working w1 = Some d"
    by (simp add: RefreshSessionStore_RevokeByTokenHash_def go_unfold unwrapTransaction_def
          tx_exec_faultless[OF assms] revoke_session_def with_text_def)
  then obtain w2 where "WithinTransaction P (RefreshSessionStore_RevokeByTokenHash P ?h ?now) ?w = (Inr (), w2)"
    using transaction_commits[OF assms, of "RefreshSessionStore_RevokeByTokenHash P ?h ?now" ?w] by blast
  then show ?thesis using False by (simp add: Auth_Logout_def go_unfold Let_def)
qed (simp add: Auth_Logout_def ok_def)

theorem logout_ends_session_witness:
  "\<exists>w1 r w3. Auth_Logout demo_auth \<lparr>lo_RefreshToken = ''t''\<rparr> (in_world session_db) = (Inr (), w1)
     \<and> Auth_Refresh demo_auth demo_signer demo_auth_service \<lparr>rr_RefreshToken = ''t''\<rparr> w1 = (r, w3)
     \<and> r = Inl (DomainError InvalidRefreshToken)"
proof -
  let ?R = "Auth_Refresh demo_auth demo_signer demo_auth_service \<lparr>rr_RefreshToken = ''t''\<rparr>"
  obtain w1 where r1: "Auth_Logout demo_auth \<lparr>lo_RefreshToken = ''t''\<rparr> (in_world session_db) = (Inr (), w1)"
    using Logout_succeeds[of demo_auth] by auto
  obtain r w3 where r2: "?R w1 = (r, w3)" by force
  have ok: "db_ok (committed w1)"
    using evolvesD(1)[OF schema.evolves_Logout, of "in_world session_db" demo_auth] r1
    unfolding schema_kept_def by (metis in_world_simps(1) session_db_ok snd_conv)
  have row: "demo_session \<in> set (refresh_sessions (committed (in_world session_db)))"
    "rs_token_hash demo_session = hashToken demo_auth ''t''"
    by (simp_all add: session_db_def) (simp add: demo_session_def)
  show ?thesis
    using r1 r2 logout_ends_session[OF row _ r1 sessions_same[OF refl] ok refl r2] by simp
qed

end
