(* ===== verification/Authentication.thy ===== *)
theory Authentication
  imports Auth_Sessions Http_Middleware "HOL-Library.Countable"
begin

text \<open>
  Access tokens from the service that signs them to the middleware that checks them: what the
  middleware lets through was verified under a key of the provider, and what login signed is let
  through. The laws of the key provider enter through its locale.
\<close>

section \<open>The database is not touched\<close>

abbreviation db :: "server \<Rightarrow> database" where "db s \<equiv> committed (srv_world s)"

lemma run_go_simps [simp]:
  "srv_limiter (snd (run_go m s)) = srv_limiter s" "srv_world (snd (run_go m s)) = snd (m (srv_world s))"
  "fst (run_go m s) = fst (m (srv_world s))"
  by (simp_all add: run_go_def split: prod.splits)

lemma count_metric_simps [simp]:
  "srv_limiter (count_metric f s) = srv_limiter s" "db (count_metric f s) = db s"
  "calls (srv_world (count_metric f s)) = calls (srv_world s)"
  "working (srv_world (count_metric f s)) = working (srv_world s)"
  by (simp_all add: count_metric_def record_metric_def)

text \<open>A step that leaves the database, an open transaction and the limiter as they were.\<close>

definition quiet :: "server \<Rightarrow> server \<Rightarrow> bool" where
  "quiet s s' \<longleftrightarrow> db s' = db s \<and> srv_limiter s' = srv_limiter s \<and> working (srv_world s') = working (srv_world s)"

lemma quiet_refl [simp]: "quiet s s"
  by (simp add: quiet_def)

lemma quiet_trans: "quiet a b \<Longrightarrow> quiet b c \<Longrightarrow> quiet a c"
  by (simp add: quiet_def)

lemma quiet_count: "quiet s s1 \<Longrightarrow> quiet s (count_metric f s1)"
  by (simp add: quiet_def)

lemma server_clock_quiet: "server_clock P s = (t, s1) \<Longrightarrow> quiet s s1 \<and> t = time_Now P (calls (srv_world s))"
  by (auto simp: server_clock_def read_clock_def quiet_def)

lemma server_uuid_quiet: "server_uuid P s = (u, s1) \<Longrightarrow> quiet s s1"
  by (auto simp: server_uuid_def new_uuid_def quiet_def)

lemma parseToken_quiet: "parseTokenWithSecret P J token secret s = (r, s1) \<Longrightarrow> quiet s s1"
  by (auto simp: parseTokenWithSecret_def Let_def dest: server_clock_quiet split: prod.splits)

lemma try_keys_quiet: "try_keys P J token kid keys s = (r, s1) \<Longrightarrow> quiet s s1"
proof (induction P J token kid keys s rule: try_keys.induct)
  case (2 P J token kid k secret keys s)
  obtain r' s' where p: "parseTokenWithSecret P J token secret s = (r', s')" by force
  then show ?case using 2 parseToken_quiet[OF p]
    by (cases r') (auto intro: quiet_trans split: if_splits)
qed simp

lemma verify_token_quiet:
  assumes "verify_token P J order kp token s = (r, s1)"
  shows "quiet s s1"
proof (cases "kid_of J token")
  case NoKid
  obtain kid secret where a: "kp_ActiveKey kp = (kid, secret)" by force
  obtain r' s' where p: "(if secret \<noteq> '''' then parseTokenWithSecret P J token secret s else (None, s)) = (r', s')" by force
  then have "quiet s s'" using parseToken_quiet by (auto split: if_splits)
  then show ?thesis using assms NoKid a p try_keys_quiet
    by (cases r') (auto simp: verify_token_def intro: quiet_trans)
qed (use assms parseToken_quiet in \<open>auto simp: verify_token_def split: option.splits\<close>)

section \<open>Soundness\<close>

lemma parseToken_Some:
  assumes "parseTokenWithSecret P J token secret s = (Some claims, s1)"
  shows "\<exists>now. jwt_Parse J token now (hs256_key secret) = Inr (True, claims)"
  using assms by (auto simp: parseTokenWithSecret_def Let_def split: prod.splits sum.splits bool.splits)

lemma try_keys_Some:
  assumes "try_keys P J token kid keys s = (Some claims, s1)"
  shows "\<exists>k secret now. (k, secret) \<in> set keys \<and> jwt_Parse J token now (hs256_key secret) = Inr (True, claims)"
  using assms
proof (induction P J token kid keys s rule: try_keys.induct)
  case (2 P J token kid k secret keys s)
  obtain r' s' where p: "parseTokenWithSecret P J token secret s = (r', s')" by force
  show ?case
  proof (cases "k \<noteq> kid \<and> r' \<noteq> None")
    case True
    then have "r' = Some claims" using 2(3) p by auto
    then show ?thesis using parseToken_Some[OF p[unfolded \<open>r' = Some claims\<close>]] by auto
  next
    case False
    then have "\<exists>k secret now. (k, secret) \<in> set keys \<and> jwt_Parse J token now (hs256_key secret) = Inr (True, claims)"
      using 2 p by (cases "k = kid") simp_all
    then show ?thesis by auto
  qed
qed simp

context key_provider begin

lemma verify_sound:
  assumes "verify_token P J order kp token s = (Some claims, s1)" "set (order (kp_AllKeys kp)) = set (kp_AllKeys kp)"
  shows "\<exists>secret now. trusted secret \<and> jwt_Parse J token now (hs256_key secret) = Inr (True, claims)"
proof (cases "kid_of J token")
  case NoKid
  obtain kid secret where a: "kp_ActiveKey kp = (kid, secret)" by force
  obtain r s2 where r: "(if secret \<noteq> '''' then parseTokenWithSecret P J token secret s else (None, s)) = (r, s2)" by force
  show ?thesis
  proof (cases r)
    case None
    then have "try_keys P J token kid (order (kp_AllKeys kp)) s2 = (Some claims, s1)"
      using assms(1) NoKid a r by (simp add: verify_token_def)
    then show ?thesis using try_keys_Some[of P J token kid] assms(2) trusted_AllKeys by blast
  next
    case (Some cl)
    then have "secret \<noteq> ''''" "parseTokenWithSecret P J token secret s = (Some claims, s1)"
      using assms(1) NoKid a r by (auto simp: verify_token_def split: if_splits)
    then show ?thesis using parseToken_Some[of P J token] trusted_ActiveKey a by (metis snd_conv)
  qed
next
  case (Kid kid)
  then show ?thesis using assms(1) parseToken_Some[of P J token] trusted_GetKey
    by (auto simp: verify_token_def split: option.splits) blast
next
  case BadKid
  then show ?thesis using assms(1) by (simp add: verify_token_def)
qed

text \<open>The middleware answers 401, or goes on with an identity that a verified token proves.\<close>

lemma authenticate_cases:
  assumes "set (order (kp_AllKeys kp)) = set (kp_AllKeys kp)"
  shows "\<exists>s1. quiet s s1 \<and>
    (AuthenticateWithKeyProvider P J order (Some kp) iss aud chain c s
       = Returned (WriteError (RequestIDFromContext c) (DomainError Unauthorized) c) s1
     \<or> (\<exists>identity token claims key now.
          bearer_token (gc_GetHeader c ''Authorization'') = Some token
          \<and> trusted key \<and> jwt_Parse J token now (hs256_key key) = Inr (True, claims)
          \<and> claimed_identity P iss aud claims = Some identity \<and> UserRole_IsValid (id_Role identity)
          \<and> AuthenticateWithKeyProvider P J order (Some kp) iss aud chain c s
            = chain (c\<lparr>gc_userID := Some (uuid_String P (id_ID identity)), gc_Identity := Some identity\<rparr>) s1))"
proof -
  let ?A = "AuthenticateWithKeyProvider P J order (Some kp) iss aud chain c s"
  have refused: ?thesis if "?A = unauthorized c s0" "quiet s s0" for s0
    using that by (intro exI[of _ "count_metric (RecordAuthFailure ''unauthorized'') s0"]) (simp add: unauthorized_def quiet_def)
  show ?thesis
  proof (cases "bearer_token (gc_GetHeader c ''Authorization'')")
    case None
    show ?thesis by (rule refused[of s]) (simp_all add: AuthenticateWithKeyProvider_def None)
  next
    case (Some token)
    then have ne: "gc_GetHeader c ''Authorization'' \<noteq> ''''" by (auto simp: bearer_token_def)
    obtain r s0 where v: "verify_token P J order kp token s = (r, s0)" by force
    have q: "quiet s s0" by (rule verify_token_quiet[OF v])
    show ?thesis
    proof (cases "r = None \<or> claimed_identity P iss aud (the r) = None")
      case True
      show ?thesis by (rule refused[OF _ q]) (use True in \<open>auto simp: AuthenticateWithKeyProvider_def Some ne v split: option.splits\<close>)
    next
      case False
      then obtain claims identity where r: "r = Some claims" and i: "claimed_identity P iss aud claims = Some identity" by auto
      have role: "UserRole_IsValid (id_Role identity)"
        using i by (auto simp: claimed_identity_def Let_def split: if_splits option.splits)
      have "?A = chain (c\<lparr>gc_userID := Some (uuid_String P (id_ID identity)), gc_Identity := Some identity\<rparr>) s0"
        by (simp add: AuthenticateWithKeyProvider_def Some ne v r i)
      then show ?thesis using verify_sound[OF v[unfolded r] assms] q i role Some by blast
    qed
  qed
qed

text \<open>A token signed with the active key and carrying its id is verified with that key.\<close>

lemma verify_active:
  assumes "kp_ActiveKey kp = (kid, secret)" "secret \<noteq> ''''"
    and "kid_of J token = Kid kid \<or> kid_of J token = NoKid"
    and "jwt_Parse J token (time_Now P (calls (srv_world s))) (hs256_key secret) = Inr (True, claims)"
  shows "\<exists>s1. verify_token P J order kp token s = (Some claims, s1)"
proof -
  have "\<exists>s1. parseTokenWithSecret P J token secret s = (Some claims, s1)"
    using assms(4) by (simp add: parseTokenWithSecret_def server_clock_def Let_def)
  then show ?thesis using assms(3) active_found[OF assms(1,2)] assms(1,2)
    by (auto simp: verify_token_def Let_def)
qed

end

lemma static_trusted:
  assumes "static.trusted keyID secret legacy k"
  shows "k \<noteq> '''' \<and> (k = secret \<or> k \<in> snd ` set legacy)"
proof -
  let ?p = "NewStaticKeyProvider keyID secret legacy"
  have leg: "v \<in> snd ` set legacy" if "(i, v) \<in> set (legacyKeys ?p)" for i v
    using that put_all_subset[of "filter (\<lambda>(k, v). k \<noteq> '''' \<and> v \<noteq> '''') legacy" "[]"]
    by (force simp: NewStaticKeyProvider_def)
  have get: "v = secret \<or> v \<in> snd ` set legacy" if "GetKey ?p i = Some v" for i v
    using that leg by (auto simp: GetKey_def NewStaticKeyProvider_def split: if_splits option.splits dest!: map_of_SomeD)
  have all: "v = secret \<or> v \<in> snd ` set legacy" if "(i, v) \<in> set (AllKeys ?p)" for i v
    using that leg put_all_subset[of "legacyKeys ?p" "if activeSecret ?p \<noteq> '''' then [(activeKeyID ?p, activeSecret ?p)] else []"]
    by (auto simp: AllKeys_def NewStaticKeyProvider_def split: if_splits)
  have k: "k \<noteq> ''''" "(\<exists>i. GetKey ?p i = Some k) \<or> k = snd (ActiveKey ?p) \<or> k \<in> snd ` set (AllKeys ?p)"
    using assms unfolding static.trusted_def by (simp_all add: static_provider_def)
  from k(2) consider (get) i where "GetKey ?p i = Some k" | (active) "k = snd (ActiveKey ?p)"
    | (all) i where "(i, k) \<in> set (AllKeys ?p)" by auto
  then show ?thesis
  proof cases
    case active
    then show ?thesis using k(1) by (auto simp: ActiveKey_def NewStaticKeyProvider_def split: if_splits)
  qed (use k(1) get all in blast)+
qed

section \<open>Tokens of the service\<close>

text \<open>
  Documented behaviour of the JWT package (golang-jwt v5 with its default options), on headers and claims
  whose keys are valid UTF-8: a token signed with HS256 is printable text; its header and its string claims
  are read back as they were signed; and it is valid under the secret it was signed with while its \<open>exp\<close> is
  in the future, if it has no \<open>nbf\<close> claim. The number in \<open>exp\<close> is read as a float, exact up to \<open>2 ^ 53\<close>.
\<close>

definition jwt_ok :: "jwt_library \<Rightarrow> bool" where
  "jwt_ok J \<longleftrightarrow>
     (\<forall>header claims secret token. jwt_SignedString J header claims secret = Inr token
        \<and> map_of header ''alg'' = Some (JStr ''HS256'')
        \<and> (\<forall>k \<in> fst ` set header \<union> fst ` set claims. valid_utf8 k) \<longrightarrow>
        is_graphic token \<and> token \<noteq> ''''
        \<and> (\<exists>header'. jwt_ParseUnverified J token = Some header'
             \<and> (\<forall>k v. map_of header k = Some (JStr v) \<and> valid_utf8 v \<longrightarrow> map_of header' k = Some (JStr v))
             \<and> (\<forall>k. map_of header k = None \<longrightarrow> map_of header' k = None))
        \<and> (\<forall>now e keyfunc. keyfunc ''HS256'' = Inr secret \<and> map_of claims ''nbf'' = None
             \<and> map_of claims ''exp'' = Some (json_int e) \<and> Unix now < e \<and> \<bar>e\<bar> \<le> 2 ^ 53 \<longrightarrow>
             (\<exists>claims'. jwt_Parse J token now keyfunc = Inr (True, claims')
                \<and> (\<forall>k v. map_of claims k = Some (JStr v) \<and> valid_utf8 v \<longrightarrow> map_of claims' k = Some (JStr v)))))"

lemma token_keys_utf8:
  "\<forall>k \<in> fst ` set (token_header kid) \<union> fst ` set (token_claims P s user now). valid_utf8 k"
proof -
  have "valid_utf8 ''typ''" "valid_utf8 ''alg''" "valid_utf8 ''kid''" "valid_utf8 ''sub''" "valid_utf8 ''username''"
    "valid_utf8 ''role''" "valid_utf8 ''iss''" "valid_utf8 ''aud''" "valid_utf8 ''iat''" "valid_utf8 ''exp''"
    by (rule valid_utf8_ascii; code_simp)+
  then show ?thesis by (auto simp: token_header_def token_claims_def)
qed

lemma bearer_token_of: "is_graphic token \<Longrightarrow> token \<noteq> '''' \<Longrightarrow> bearer_token (''Bearer '' @ token) = Some token"
proof -
  assume g: "is_graphic token" "token \<noteq> ''''"
  have "map lower_byte ''Bearer'' = ''bearer''" by code_simp
  then show ?thesis using g TrimSpace_graphic[OF g(1)] by (simp add: bearer_token_def equal_fold_bearer_def)
qed

text \<open>What the claims of a token say of its user, in texts that survive JSON.\<close>

definition token_user_ok :: "platform \<Rightarrow> auth_service \<Rightarrow> User \<Rightarrow> bool" where
  "token_user_ok P s user \<longleftrightarrow>
     UserRole_IsValid (us_Role user) \<and> TrimSpace (us_Username user) \<noteq> '''' \<and> valid_utf8 (us_Username user)
     \<and> valid_utf8 (uuid_String P (us_ID user)) \<and> valid_utf8 (as_jwtIssuer s) \<and> valid_utf8 (as_jwtAudience s)"

lemma role_utf8: "UserRole_IsValid role \<Longrightarrow> valid_utf8 role"
  by (auto simp: UserRole_IsValid_def RoleOperator_def RoleAdmin_def RoleSuperadmin_def) (rule valid_utf8_ascii; code_simp)+

lemma claimed_identity_of:
  assumes "token_user_ok P s user" "uuid_text_ok P"
    and "\<forall>k v. map_of (token_claims P s user now) k = Some (JStr v) \<and> valid_utf8 v \<longrightarrow> map_of claims k = Some (JStr v)"
    and "iss = '''' \<or> iss = as_jwtIssuer s" "aud = '''' \<or> aud = as_jwtAudience s"
  shows "claimed_identity P iss aud claims = Some \<lparr>id_ID = us_ID user, id_Username = us_Username user, id_Role = us_Role user\<rparr>"
proof -
  have v: "valid_utf8 (us_Username user)" "valid_utf8 (uuid_String P (us_ID user))" "valid_utf8 (us_Role user)"
    "valid_utf8 (as_jwtIssuer s)" "valid_utf8 (as_jwtAudience s)"
    using assms(1) role_utf8 by (auto simp: token_user_ok_def)
  have c: "map_of claims ''sub'' = Some (JStr (uuid_String P (us_ID user)))"
    "map_of claims ''username'' = Some (JStr (us_Username user))" "map_of claims ''role'' = Some (JStr (us_Role user))"
    "map_of claims ''iss'' = Some (JStr (as_jwtIssuer s))" "map_of claims ''aud'' = Some (JStr (as_jwtAudience s))"
    by (rule assms(3)[rule_format], simp add: token_claims_def json_uuid_def json_string_def to_valid_utf8_id v)+
  have p: "uuid_Parse P (uuid_String P (us_ID user)) = Some (us_ID user)" using assms(2) by (simp add: uuid_text_ok_def)
  show ?thesis using assms(1,4,5) c p by (auto simp: claimed_identity_def string_claim_def token_user_ok_def)
qed

context key_provider begin

lemma signed_token_verified:
  assumes J: "jwt_ok J" and kp: "as_keyProvider s = kp" "kp_ActiveKey kp = (kid, secret)" "secret \<noteq> ''''" "valid_utf8 kid"
    and gen: "generateAccessToken P J s user issued = Inr token"
    and now: "Unix (time_Now P (calls (srv_world srv))) < Unix (issued + as_accessTokenTTL s)"
      "\<bar>Unix (issued + as_accessTokenTTL s)\<bar> \<le> 2 ^ 53"
  shows "is_graphic token \<and> token \<noteq> '''' \<and>
    (\<exists>claims s1. verify_token P J order kp token srv = (Some claims, s1)
       \<and> (\<forall>k v. map_of (token_claims P s user issued) k = Some (JStr v) \<and> valid_utf8 v \<longrightarrow> map_of claims k = Some (JStr v)))"
proof -
  let ?h = "token_header kid" and ?c = "token_claims P s user issued"
  have sign: "jwt_SignedString J ?h ?c secret = Inr token" using gen kp by (simp add: generateAccessToken_def)
  have alg: "map_of ?h ''alg'' = Some (JStr ''HS256'')" by (simp add: token_header_def)
  note facts = J[unfolded jwt_ok_def, THEN spec[of _ ?h], THEN spec[of _ ?c], THEN spec[of _ secret], THEN spec[of _ token], THEN mp,
    OF conjI[OF sign conjI[OF alg token_keys_utf8]]]
  obtain h' where h': "jwt_ParseUnverified J token = Some h'"
    "\<forall>k v. map_of ?h k = Some (JStr v) \<and> valid_utf8 v \<longrightarrow> map_of h' k = Some (JStr v)"
    "\<forall>k. map_of ?h k = None \<longrightarrow> map_of h' k = None" using facts by blast
  have kid: "kid_of J token = (if kid = '''' then NoKid else Kid kid)"
  proof (cases "kid = ''''")
    case True
    then have "map_of h' ''kid'' = None" using h'(3) by (simp add: token_header_def)
    then show ?thesis using h'(1) True by (simp add: kid_of_def)
  next
    case False
    then have "map_of ?h ''kid'' = Some (JStr kid)"
      using kp(4) by (simp add: token_header_def json_string_def to_valid_utf8_id)
    then have "map_of h' ''kid'' = Some (JStr kid)" using h'(2) kp(4) by blast
    then show ?thesis using h'(1) False by (simp add: kid_of_def)
  qed
  have "map_of ?c ''nbf'' = None" "map_of ?c ''exp'' = Some (json_int (Unix (issued + as_accessTokenTTL s)))"
    "hs256_key secret ''HS256'' = Inr secret"
    by (simp_all add: token_header_def token_claims_def hs256_key_def)
  then obtain claims where cl: "jwt_Parse J token (time_Now P (calls (srv_world srv))) (hs256_key secret) = Inr (True, claims)"
    "\<forall>k v. map_of ?c k = Some (JStr v) \<and> valid_utf8 v \<longrightarrow> map_of claims k = Some (JStr v)"
    using facts now by blast
  then show ?thesis using facts verify_active[OF kp(2,3) _ cl(1), of order] kid by metis
qed

end


section \<open>Properties\<close>

text \<open>
  C23. Nothing passes the authentication middleware without a verified token: whatever the header and the
  JWT package, the database is untouched and the request is answered 401, or the rest of the chain
  runs with an identity whose bearer token was verified with HS256 under a non-empty configured secret
  (the active one or a legacy one), with the expected issuer and audience and a valid role.
\<close>

theorem authenticate_sound:
  assumes "set (order (kp_AllKeys (static_provider (NewStaticKeyProvider keyID secret legacy))))
    = set (kp_AllKeys (static_provider (NewStaticKeyProvider keyID secret legacy)))"
  shows "\<exists>s1. db s1 = db s \<and>
    (AuthenticateWithKeyProvider P J order (Some (static_provider (NewStaticKeyProvider keyID secret legacy))) iss aud chain c s
       = Returned (WriteError (RequestIDFromContext c) (DomainError Unauthorized) c) s1
     \<or> (\<exists>identity token claims key now.
          bearer_token (gc_GetHeader c ''Authorization'') = Some token
          \<and> key \<noteq> '''' \<and> (key = secret \<or> key \<in> snd ` set legacy)
          \<and> jwt_Parse J token now (hs256_key key) = Inr (True, claims)
          \<and> claimed_identity P iss aud claims = Some identity \<and> UserRole_IsValid (id_Role identity)
          \<and> AuthenticateWithKeyProvider P J order (Some (static_provider (NewStaticKeyProvider keyID secret legacy))) iss aud chain c s
            = chain (c\<lparr>gc_userID := Some (uuid_String P (id_ID identity)), gc_Identity := Some identity\<rparr>) s1))"
  using static.authenticate_cases[where order = order and P = P and J = J and iss = iss and aud = aud and chain = chain and c = c and s = s, OF assms]
proof (elim exE conjE disjE, goal_cases)
  case (1 s1)
  then show ?case by (intro exI[of _ s1] conjI disjI1) (simp_all add: quiet_def)
next
  case (2 s1 identity token claims key now)
  then show ?case using static_trusted[OF 2(3)]
    by - (rule exI[of _ s1], rule conjI, simp add: quiet_def, rule disjI2, rule exI[of _ identity],
        rule exI[of _ token], rule exI[of _ claims], rule exI[of _ key], rule exI[of _ now], simp)
qed

text \<open>
  C24. The access token a login returns authenticates its user: for every password login that succeeds there
  is the user it named, with that password, and if the user's texts survive JSON then a request that
  presents the token before it expires reaches the rest of the chain as exactly that user, under the
  same key provider, with the role of the database. The JWT package is only assumed to accept its own
  unexpired HS256 tokens without \<open>nbf\<close>, which the service never sets.
\<close>

theorem login_token_authenticates:
  assumes J: "jwt_ok J" "uuid_text_ok P" "secret \<noteq> ''''" "valid_utf8 (if keyID = '''' then ''v1'' else keyID)"
    and svc: "NewServiceWithKeyProvider (Some (static_provider (NewStaticKeyProvider keyID secret legacy))) iss aud ttl refreshTTL = Inr svc"
    and login: "Auth_Login P J svc req w = (Inr response, w')"
  shows "\<exists>u. authenticates P req (committed w) u
    \<and> (token_user_ok P svc (scan_user u)
       \<and> gc_GetHeader c ''Authorization'' = ''Bearer '' @ tr_AccessToken response
       \<and> Unix (time_Now P (calls (srv_world s))) < Unix (time_Now P (Suc (calls w)) + ttl)
       \<and> \<bar>Unix (time_Now P (Suc (calls w)) + ttl)\<bar> \<le> 2 ^ 53
       \<longrightarrow> (\<exists>s1. db s1 = db s
             \<and> AuthenticateWithKeyProvider P J order (Some (static_provider (NewStaticKeyProvider keyID secret legacy))) iss aud chain c s
               = chain (c\<lparr>gc_userID := Some (uuid_String P (ur_id u)),
                         gc_Identity := Some \<lparr>id_ID = ur_id u, id_Username = ur_username u, id_Role = ur_role u\<rparr>\<rparr>) s1))"
  using login
proof (cases rule: Login_cases)
  case (opened u token access)
  let ?kp = "static_provider (NewStaticKeyProvider keyID secret legacy)"
  have svc': "as_keyProvider svc = ?kp" "as_accessTokenTTL svc = ttl" "iss = '''' \<or> iss = as_jwtIssuer svc" "aud = '''' \<or> aud = as_jwtAudience svc"
    using svc by (auto simp: NewServiceWithKeyProvider_def split: if_splits)
  have active: "kp_ActiveKey ?kp = (if keyID = '''' then ''v1'' else keyID, secret)"
    using J(3) by (simp add: static_provider_def ActiveKey_def NewStaticKeyProvider_def)
  have resp: "tr_AccessToken response = access" using opened(4) by (auto simp: token_response_def)
  have goal: "\<exists>s1. db s1 = db s \<and> AuthenticateWithKeyProvider P J order (Some ?kp) iss aud chain c s
       = chain (c\<lparr>gc_userID := Some (uuid_String P (ur_id u)),
                 gc_Identity := Some \<lparr>id_ID = ur_id u, id_Username = ur_username u, id_Role = ur_role u\<rparr>\<rparr>) s1"
    if ok: "token_user_ok P svc (scan_user u)" "gc_GetHeader c ''Authorization'' = ''Bearer '' @ tr_AccessToken response"
      "Unix (time_Now P (calls (srv_world s))) < Unix (time_Now P (Suc (calls w)) + ttl)"
      "\<bar>Unix (time_Now P (Suc (calls w)) + ttl)\<bar> \<le> 2 ^ 53"
  proof -
    obtain claims s1 where v: "is_graphic access" "access \<noteq> ''''" "verify_token P J order ?kp access s = (Some claims, s1)"
      "\<forall>k v. map_of (token_claims P svc (scan_user u) (time_Now P (Suc (calls w)))) k = Some (JStr v) \<and> valid_utf8 v \<longrightarrow> map_of claims k = Some (JStr v)"
      using static.signed_token_verified[OF J(1) svc'(1) active J(3,4) opened(3)] ok(3,4) svc'(2) by blast
    have i: "claimed_identity P iss aud claims = Some \<lparr>id_ID = ur_id u, id_Username = ur_username u, id_Role = ur_role u\<rparr>"
      using claimed_identity_of[OF ok(1) J(2) v(4) svc'(3,4)] by (simp add: scan_user_def)
    have b: "bearer_token (''Bearer '' @ access) = Some access" by (rule bearer_token_of[OF v(1,2)])
    then show ?thesis using verify_token_quiet[OF v(3)] ok(2) v(3) i resp
      by (auto simp: AuthenticateWithKeyProvider_def quiet_def)
  qed
  show ?thesis using opened(1) goal by blast
qed simp

section \<open>A concrete token\<close>

instance json :: countable
  by countable_datatype

text \<open>Tokens as unary numerals of the header, the claims and the secret.\<close>

definition demo_decode :: "string \<Rightarrow> (string \<times> json) list \<times> (string \<times> json) list \<times> string" where
  "demo_decode token = from_nat (length token - 1)"

definition demo_jwt :: jwt_library where
  "demo_jwt =
     \<lparr>jwt_SignedString = (\<lambda>h cl s. Inr (replicate (Suc (to_nat (h, cl, s))) (CHR ''x''))),
      jwt_ParseUnverified = (\<lambda>token. Some (fst (demo_decode token))),
      jwt_Parse = (\<lambda>token now keyfunc. case demo_decode token of (h, cl, s) \<Rightarrow>
         if keyfunc ''HS256'' = Inr s \<and> map_of cl ''nbf'' = None then Inr (True, cl) else Inl ErrNoRows)\<rparr>"

lemma demo_jwt_ok: "jwt_ok demo_jwt"
proof -
  have "byte_val (CHR ''x'') = 120" by code_simp
  then show ?thesis by (auto simp: jwt_ok_def demo_jwt_def demo_decode_def is_graphic_def list_all_iff)
qed


definition login_db :: database where
  "login_db = demo_db\<lparr>users := [\<lparr>ur_id = demo_user, ur_username = ''ops'', ur_password_hash = ''pw'', ur_role = ''OPERATOR''\<rparr>]\<rparr>"

definition demo_provider :: KeyProvider where
  "demo_provider = static_provider (NewStaticKeyProvider ''v1'' ''secret'' [])"

definition demo_login :: LoginRequest where
  "demo_login = \<lparr>lr_Username = ''ops'', lr_Password = ''pw''\<rparr>"

definition demo_context :: "string \<Rightarrow> gin_context" where
  "demo_context token =
     \<lparr>gc_Method = ''GET'', gc_Path = ''/disbursements'', gc_FullPath = ''/disbursements'',
      gc_GetHeader = (\<lambda>k. if k = ''Authorization'' then ''Bearer '' @ token else ''''), gc_Param = (\<lambda>_. ''''),
      gc_ClientIP = ''10.0.0.1'', gc_Body = '''', gc_RawQuery = '''', gc_BodyLimit = None, gc_RequestID = None,
      gc_Identity = None, gc_userID = None, gc_ResponseHeader = [], gc_Status = 200, gc_Written = False, gc_Output = []\<rparr>"

lemma demo_login_succeeds:
  "\<exists>response w'. Auth_Login demo_auth demo_jwt demo_auth_service demo_login (in_world login_db) = (Inr response, w')"
proof -
  let ?u = "\<lparr>ur_id = demo_user, ur_username = ''ops'', ur_password_hash = ''pw'', ur_role = ''OPERATOR''\<rparr>"
  let ?w = "(in_world login_db)\<lparr>calls := 1\<rparr>"
  have ops: "pg_text_ok ''ops''" by code_simp
  have f: "UserStore_FindByUsername demo_auth ''ops'' (in_world login_db) = (Inr (scan_user ?u), ?w)"
    using ops by (simp add: UserStore_FindByUsername_def go_unfold pool_exec_faultless find_user_by_username_def with_text_def
        login_db_def first_where_def)
  obtain access where a: "generateAccessToken demo_auth demo_jwt demo_auth_service (scan_user ?u) (demo_time 1) = Inr access"
    by (cases "kp_ActiveKey (as_keyProvider demo_auth_service)") (simp add: generateAccessToken_def demo_jwt_def)
  have now: "pg_now demo_auth = demo_time" by (simp add: demo_auth_def)
  have "\<exists>response w'. open_session demo_auth demo_jwt demo_auth_service (scan_user ?u) ?w = (Inr response, w')"
  proof (rule open_session_succeeds)
    show "generateAccessToken demo_auth demo_jwt demo_auth_service (scan_user ?u) (time_Now demo_auth (calls ?w)) = Inr access"
      using a by simp
    show "fresh_session demo_auth (committed ?w) (uuid_New demo_auth (calls ?w + 2)) (uuid_String demo_auth (uuid_New demo_auth (calls ?w + 1)))"
      by (simp add: fresh_session_def login_db_def)
    show "user_exists (committed ?w) (us_ID (scan_user ?u))"
      by (simp add: login_db_def user_exists_def scan_user_def)
    show "pg_now demo_auth (calls ?w + 3) < pg_timestamptz demo_auth (time_Now demo_auth (calls ?w) + as_refreshTokenTTL demo_auth_service)"
      unfolding now by (simp add: demo_auth_service_def demo_time_def)
  qed simp
  then show ?thesis using f
    by (simp add: Auth_Login_def handle_def demo_login_def scan_user_def) (simp add: demo_auth_def)
qed

theorem authenticate_sound_witness:
  "\<exists>s1. db s1 = demo_db \<and>
     AuthenticateWithKeyProvider demo_auth demo_jwt (\<lambda>m. m) (Some demo_provider) ''issuer'' ''audience'' Panicked
       (demo_context '''') \<lparr>srv_world = in_world demo_db, srv_limiter = demo_limiter\<rparr>
     = Returned (WriteError (RequestIDFromContext (demo_context '''')) (DomainError Unauthorized) (demo_context '''')) s1"
proof -
  have "bearer_token (gc_GetHeader (demo_context '''') ''Authorization'') = None"
    by (simp add: demo_context_def bearer_token_def) (simp add: TrimSpace_def trim_by_def)
  then show ?thesis
    using authenticate_sound[of "\<lambda>m. m" "''v1''" "''secret''" "[]" "\<lparr>srv_world = in_world demo_db, srv_limiter = demo_limiter\<rparr>"
        demo_auth demo_jwt "''issuer''" "''audience''" Panicked "demo_context ''''"]
    by (simp add: demo_provider_def)
qed

theorem login_token_authenticates_witness:
  "\<exists>response w'. Auth_Login demo_auth demo_jwt demo_auth_service demo_login (in_world login_db) = (Inr response, w')
     \<and> (\<exists>s1. AuthenticateWithKeyProvider demo_auth demo_jwt (\<lambda>m. m) (Some demo_provider) ''issuer'' ''audience'' Panicked
          (demo_context (tr_AccessToken response)) \<lparr>srv_world = in_world login_db, srv_limiter = demo_limiter\<rparr>
        = Panicked ((demo_context (tr_AccessToken response))
            \<lparr>gc_userID := Some (demo_String demo_user),
             gc_Identity := Some \<lparr>id_ID = demo_user, id_Username = ''ops'', id_Role = ''OPERATOR''\<rparr>\<rparr>) s1)"
proof -
  obtain response w' where login: "Auth_Login demo_auth demo_jwt demo_auth_service demo_login (in_world login_db) = (Inr response, w')"
    using demo_login_succeeds by blast
  let ?c = "demo_context (tr_AccessToken response)" and ?s = "\<lparr>srv_world = in_world login_db, srv_limiter = demo_limiter\<rparr>"
  have svc: "NewServiceWithKeyProvider (Some (static_provider (NewStaticKeyProvider ''v1'' ''secret'' []))) ''issuer'' ''audience''
      (900 * Second) (3600 * Second) = Inr demo_auth_service"
    by (simp add: NewServiceWithKeyProvider_def demo_auth_service_def static_provider_def ActiveKey_def NewStaticKeyProvider_def)
  have ut: "uuid_text_ok demo_auth" using demo_ok(3) by (simp add: uuid_text_ok_def demo_auth_def)
  have v: "valid_utf8 ''ops''" "valid_utf8 ''issuer''" "valid_utf8 ''audience''" "valid_utf8 ''v1''"
    by (rule valid_utf8_ascii; code_simp)+
  have trim: "TrimSpace ''ops'' = ''ops''" by (rule TrimSpace_graphic; code_simp)
  have "is_ascii (demo_String demo_user)"
    by (auto simp: is_ascii_def demo_String_def list_all_iff byte_val_def)
  then have ok: "token_user_ok demo_auth demo_auth_service (scan_user \<lparr>ur_id = demo_user, ur_username = ''ops'', ur_password_hash = ''pw'', ur_role = ''OPERATOR''\<rparr>)"
    using v trim by (simp add: token_user_ok_def demo_auth_service_def scan_user_def UserRole_IsValid_def RoleOperator_def valid_utf8_ascii)
  have now: "Unix (time_Now demo_auth (calls (srv_world ?s))) < Unix (time_Now demo_auth (Suc (calls (in_world login_db))) + 900 * Second)"
    "\<bar>Unix (time_Now demo_auth (Suc (calls (in_world login_db))) + 900 * Second)\<bar> \<le> 2 ^ 53"
    by (simp_all add: demo_time_def Unix_def)
  have header: "gc_GetHeader ?c ''Authorization'' = ''Bearer '' @ tr_AccessToken response" by (simp add: demo_context_def)
  have secret: "''secret'' \<noteq> ''''" by simp
  have kid: "valid_utf8 (if ''v1'' = '''' then ''v1'' else ''v1'')" using v(4) by simp
  obtain u where u: "authenticates demo_auth demo_login (committed (in_world login_db)) u"
    and imp: "token_user_ok demo_auth demo_auth_service (scan_user u)
       \<and> gc_GetHeader ?c ''Authorization'' = ''Bearer '' @ tr_AccessToken response
       \<and> Unix (time_Now demo_auth (calls (srv_world ?s))) < Unix (time_Now demo_auth (Suc (calls (in_world login_db))) + 900 * Second)
       \<and> \<bar>Unix (time_Now demo_auth (Suc (calls (in_world login_db))) + 900 * Second)\<bar> \<le> 2 ^ 53
       \<longrightarrow> (\<exists>s1. db s1 = db ?s
             \<and> AuthenticateWithKeyProvider demo_auth demo_jwt (\<lambda>m. m) (Some (static_provider (NewStaticKeyProvider ''v1'' ''secret'' [])))
                 ''issuer'' ''audience'' Panicked ?c ?s
               = Panicked (?c\<lparr>gc_userID := Some (uuid_String demo_auth (ur_id u)),
                    gc_Identity := Some \<lparr>id_ID = ur_id u, id_Username = ur_username u, id_Role = ur_role u\<rparr>\<rparr>) s1)"
    using login_token_authenticates[OF demo_jwt_ok ut secret kid svc login, where c = ?c and s = ?s and order = "\<lambda>m. m" and chain = Panicked]
    by (elim exE conjE) (rule that)
  have u': "u = \<lparr>ur_id = demo_user, ur_username = ''ops'', ur_password_hash = ''pw'', ur_role = ''OPERATOR''\<rparr>"
    using u by (simp add: authenticates_def login_db_def)
  have "\<exists>s1. db s1 = db ?s \<and> AuthenticateWithKeyProvider demo_auth demo_jwt (\<lambda>m. m) (Some demo_provider) ''issuer'' ''audience'' Panicked ?c ?s
      = Panicked (?c\<lparr>gc_userID := Some (uuid_String demo_auth (ur_id u)),
          gc_Identity := Some \<lparr>id_ID = ur_id u, id_Username = ur_username u, id_Role = ur_role u\<rparr>\<rparr>) s1"
    unfolding demo_provider_def
    by (rule mp[OF imp], intro conjI) (unfold u', rule ok, rule header, rule now(1), rule now(2))
  then have "\<exists>s1. AuthenticateWithKeyProvider demo_auth demo_jwt (\<lambda>m. m) (Some demo_provider) ''issuer'' ''audience'' Panicked ?c ?s
      = Panicked (?c\<lparr>gc_userID := Some (demo_String demo_user),
          gc_Identity := Some \<lparr>id_ID = demo_user, id_Username = ''ops'', id_Role = ''OPERATOR''\<rparr>\<rparr>) s1"
    by (elim exE conjE) (rule exI, simp add: u' demo_auth_def)
  then show ?thesis using login by blast
qed

end
