(* ===== verification/Http_Evolution.thy ===== *)
theory Http_Evolution
  imports Http_Handlers Authentication
begin

text \<open>
  From services to requests: an evolution of the database that every service operation keeps is kept
  by every request through the whole chain of middleware, and every request is answered (no panic
  reaches the client, the limiter's invariant holds). The locale \<open>api_evolution\<close> is the interface: what the
  handlers need of the services.
\<close>

section \<open>Operations and handlers\<close>

text \<open>An operation outside any transaction moves the database along \<open>R\<close> and leaves no transaction open.\<close>

definition op_evolves :: "(database \<Rightarrow> database \<Rightarrow> bool) \<Rightarrow> 'a go \<Rightarrow> bool" where
  "op_evolves R m \<longleftrightarrow>
     (\<forall>w. working w = None \<longrightarrow> R (committed w) (committed (snd (m w))) \<and> working (snd (m w)) = None)"

lemma evolves_op: "evolves R m \<Longrightarrow> op_evolves R m"
  by (auto simp: op_evolves_def dest: evolvesD(1,2))

definition server_ok :: "server \<Rightarrow> bool" where
  "server_ok s \<longleftrightarrow> working (srv_world s) = None \<and> limiter_ok (srv_limiter s)"

definition handles :: "(database \<Rightarrow> database \<Rightarrow> bool) \<Rightarrow> handler \<Rightarrow> bool" where
  "handles R h \<longleftrightarrow>
     (\<forall>c s. server_ok s \<longrightarrow> (\<exists>c' s'. h c s = Returned c' s' \<and> R (db s) (db s') \<and> server_ok s'))"

lemma handlesI:
  "(\<And>c s. server_ok s \<Longrightarrow> \<exists>c' s'. h c s = Returned c' s' \<and> R (db s) (db s') \<and> server_ok s') \<Longrightarrow> handles R h"
  by (simp add: handles_def)

lemma quiet_ok: "quiet s s' \<Longrightarrow> server_ok s \<Longrightarrow> server_ok s'"
  by (simp add: quiet_def server_ok_def)

text \<open>The map order of the limiter is a rearrangement of its entries.\<close>

definition api_ok :: "api \<Rightarrow> bool" where
  "api_ok A \<longleftrightarrow> (\<forall>n. map_order (api_limiter_order A n))"

context db_evolution begin

lemma handles_quiet: "handles R h \<Longrightarrow> quiet s s1 \<Longrightarrow> server_ok s \<Longrightarrow> \<exists>c' s'. h c s1 = Returned c' s' \<and> R (db s) (db s') \<and> server_ok s'"
  using quiet_ok unfolding handles_def quiet_def by metis

lemma handles_error: "handles R (respond_error err)"
  by (auto simp: handles_def respond_error_def evo_refl)

lemma handles_respond: "handles R (respond status data meta)" "handles R respond_no_content"
  by (auto simp: handles_def respond_def respond_no_content_def evo_refl)

lemma handles_JSON: "handles R (gin_JSON status j)"
  by (auto simp: handles_def gin_JSON_def evo_refl)

lemma handles_body: "(\<And>r. handles R (use r)) \<Longrightarrow> handles R (with_body A bind structure use)"
  unfolding with_body_def Let_def handles_def using handles_error
  by (auto simp: handles_def split: option.splits)

lemma handles_service:
  assumes m: "op_evolves R m" and use: "\<And>x. handles R (use x)"
  shows "handles R (call_service m use)"
proof (rule handlesI)
  fix c s assume s: "server_ok s"
  obtain r s1 where r: "run_go m s = (r, s1)" by force
  have s1: "R (db s) (db s1)" "server_ok s1"
    using m s run_go_simps(1,2)[of m s] unfolding r op_evolves_def server_ok_def by auto
  have "\<exists>c' s'. call_service m use c s = Returned c' s' \<and> R (db s1) (db s') \<and> server_ok s'"
    using use handles_error s1(2) by (cases r) (auto simp: call_service_def r handles_def)
  then show "\<exists>c' s'. call_service m use c s = Returned c' s' \<and> R (db s) (db s') \<and> server_ok s'"
    using evo_trans[OF s1(1)] by blast
qed

lemma handles_request_uuid: "(\<And>q. handles R (use q)) \<Longrightarrow> handles R (with_request_uuid A use)"
proof (rule handlesI)
  fix c s assume use: "\<And>q. handles R (use q)" and s: "server_ok s"
  obtain q s1 where q: "server_uuid (api_P A) s = (q, s1)" by force
  then show "\<exists>c' s'. with_request_uuid A use c s = Returned c' s' \<and> R (db s) (db s') \<and> server_ok s'"
    using use handles_quiet[OF use server_uuid_quiet[OF q] s] s
    by (auto simp: with_request_uuid_def handles_def split: option.splits)
qed

lemma handles_identity: "(\<And>i. handles R (use i)) \<Longrightarrow> handles R (with_identity use)"
  using handles_error by (auto simp: handles_def with_identity_def split: option.splits)

lemma handles_path_id: "(\<And>i. handles R (use i)) \<Longrightarrow> handles R (with_path_id A use)"
  using handles_error by (auto simp: handles_def with_path_id_def split: option.splits)

lemma handles_created: "handles R (respond_created A result)"
  using handles_respond(1) by (auto simp: handles_def respond_created_def split: option.splits)

section \<open>Reading endpoints and probes\<close>

lemma handles_GetByID: "handles R (DisbursementHandler_GetByID A)"
  unfolding DisbursementHandler_GetByID_def
  by (intro handles_path_id handles_service evolves_op[OF evolves_Service_GetByID] handles_respond)

lemma handles_List: "handles R (DisbursementHandler_List A)"
proof -
  have "handles R (call_service (Service_List (api_P A) (api_ilike A) (api_order_by A) filt)
      (\<lambda>(items, pagination). respond 200 (data items) (meta pagination)))" for filt data meta
    by (intro handles_service evolves_op[OF evolves_Service_List]) (auto intro: handles_respond split: prod.splits)
  then show ?thesis using handles_error
    unfolding DisbursementHandler_List_def handles_def Let_def
    by (auto split: option.splits sum.splits)
qed

lemma handles_probes: "handles R Healthz" "handles R (Readyz P configured)"
proof -
  show "handles R Healthz" unfolding Healthz_def by (rule handles_JSON)
  have ping: "run_go (PingContext P) s = (r, s1) \<Longrightarrow> quiet s s1" for r s s1
    by (auto simp: run_go_def PingContext_def pool_exec_def Let_def quiet_def split: option.splits db_fault.splits)
  show "handles R (Readyz P configured)"
  proof (rule handlesI)
    fix c s assume s: "server_ok s"
    obtain r s1 where r: "run_go (PingContext P) s = (r, s1)" by force
    show "\<exists>c' s'. Readyz P configured c s = Returned c' s' \<and> R (db s) (db s') \<and> server_ok s'"
      using handles_quiet[OF handles_JSON ping[OF r] s] handles_JSON s r
      by (cases r) (auto simp: Readyz_def handles_def)
  qed
qed

section \<open>The chain of middleware\<close>

lemma handles_role: "handles R next \<Longrightarrow> handles R (RequireRole roles next)"
  by (auto simp: handles_def RequireRole_def evo_refl split: option.splits)

lemma unauthorized_quiet: "quiet s s1 \<Longrightarrow> server_ok s \<Longrightarrow> \<exists>c' s'. unauthorized c s1 = Returned c' s' \<and> R (db s) (db s') \<and> server_ok s'"
  by (auto simp: unauthorized_def quiet_def server_ok_def evo_refl)

lemma handles_auth_chain:
  assumes "handles R next"
  shows "handles R (auth_chain A next)"
proof (rule handlesI)
  fix c s assume s: "server_ok s"
  let ?P = "api_P A" and ?order = "api_key_order A (calls (srv_world s))" and ?kp = "api_keyProvider A"
  have un: "\<exists>c' s'. unauthorized c s1 = Returned c' s' \<and> R (db s) (db s') \<and> server_ok s'" if "quiet s s1" for s1
    by (rule unauthorized_quiet[OF that s])
  show "\<exists>c' s'. auth_chain A next c s = Returned c' s' \<and> R (db s) (db s') \<and> server_ok s'"
  proof (cases "bearer_token (gc_GetHeader c ''Authorization'')")
    case None
    then show ?thesis using un[OF quiet_refl] by (simp add: auth_chain_def AuthenticateWithKeyProvider_def)
  next
    case (Some token)
    then have ne: "gc_GetHeader c ''Authorization'' \<noteq> ''''" by (auto simp: bearer_token_def)
    obtain r s1 where v: "verify_token ?P (api_J A) ?order ?kp token s = (r, s1)" by force
    have q: "quiet s s1" by (rule verify_token_quiet[OF v])
    show ?thesis
    proof (cases "r = None \<or> claimed_identity ?P (api_issuer A) (api_audience A) (the r) = None")
      case True
      then show ?thesis using un[OF q] Some ne v
        by (auto simp: auth_chain_def AuthenticateWithKeyProvider_def split: option.splits)
    next
      case False
      then obtain claims identity where "r = Some claims" "claimed_identity ?P (api_issuer A) (api_audience A) claims = Some identity"
        by auto
      then show ?thesis using handles_quiet[OF assms q s] Some ne v
        by (simp add: auth_chain_def AuthenticateWithKeyProvider_def)
    qed
  qed
qed

lemma handles_rate_limited:
  assumes A: "api_ok A" and h: "handles R next"
  shows "handles R (rate_limited A next)"
proof (rule handlesI)
  fix c s assume s: "server_ok s"
  obtain now s1 where cl: "server_clock (api_P A) s = (now, s1)" by force
  have q: "quiet s s1" using server_clock_quiet[OF cl] by blast
  have lim: "limiter_ok (srv_limiter s1)" using quiet_ok[OF q s] by (simp add: server_ok_def)
  have order: "map_order (api_limiter_order A (calls (srv_world s)))" using A by (simp add: api_ok_def)
  obtain v l where ad: "admit (api_limiter_order A (calls (srv_world s))) (client_key c) now (srv_limiter s1) = Some (v, l)" "limiter_ok l"
    by (rule admit_spec[OF lim order, where ip = "client_key c" and now = now]) blast
  let ?s2 = "s1\<lparr>srv_limiter := l\<rparr>"
  have s2: "server_ok ?s2" "db ?s2 = db s" using q s ad(2) by (simp_all add: quiet_def server_ok_def)
  show "\<exists>c' s'. rate_limited A next c s = Returned c' s' \<and> R (db s) (db s') \<and> server_ok s'"
  proof (cases v)
    case (Admitted evicted)
    let ?s3 = "if evicted then count_metric RecordRateLimiterEviction ?s2 else ?s2"
    have "rate_limited A next c s = next c ?s3"
      by (simp add: rate_limited_def rateLimitHandler_def cl ad(1) Admitted Let_def)
    moreover have "server_ok ?s3" "db ?s3 = db s" using s2 by (simp_all add: server_ok_def)
    ultimately show ?thesis using h unfolding handles_def by metis
  next
    case Limited
    then show ?thesis using s2
      by (simp add: rate_limited_def rateLimitHandler_def cl ad(1) Let_def server_ok_def evo_refl)
  qed
qed

lemma handles_Recovery: "handles R next \<Longrightarrow> handles R (Recovery next)"
proof (rule handlesI)
  fix c s assume h: "handles R next" and s: "server_ok s"
  obtain c' s' where "next c s = Returned c' s'" "R (db s) (db s')" "server_ok s'"
    using h s unfolding handles_def by blast
  then show "\<exists>c' s'. Recovery next c s = Returned c' s' \<and> R (db s) (db s') \<and> server_ok s'"
    by (simp add: Recovery_def)
qed

lemma handles_BodyLimit: "handles R next \<Longrightarrow> handles R (BodyLimit n next)"
  by (simp add: handles_def BodyLimit_def)

lemma handles_AccessLog:
  assumes "handles R next"
  shows "handles R (AccessLog P next)"
proof (rule handlesI)
  fix c s assume s: "server_ok s"
  obtain t s1 where 1: "server_clock P s = (t, s1)" by force
  have q: "quiet s s1" using server_clock_quiet[OF 1] by blast
  obtain c2 s2 where 2: "next c s1 = Returned c2 s2" "R (db s) (db s2)" "server_ok s2"
    using handles_quiet[OF assms q s] by blast
  obtain t3 s3 where 3: "server_clock P s2 = (t3, s3)" by force
  have q3: "quiet s2 s3" using server_clock_quiet[OF 3] by blast
  show "\<exists>c' s'. AccessLog P next c s = Returned c' s' \<and> R (db s) (db s') \<and> server_ok s'"
    using 2 q3 by (simp add: AccessLog_def 1 3 Let_def quiet_def server_ok_def)
qed

lemma handles_RequestID:
  assumes "handles R next"
  shows "handles R (RequestID P next)"
proof (rule handlesI)
  fix c s assume s: "server_ok s"
  obtain u s1 where u: "server_uuid P s = (u, s1)" by force
  show "\<exists>c' s'. RequestID P next c s = Returned c' s' \<and> R (db s) (db s') \<and> server_ok s'"
    using handles_quiet[OF assms server_uuid_quiet[OF u] s] assms s u
    by (auto simp: RequestID_def Let_def handles_def)
qed

end

section \<open>The writing endpoints\<close>

context session_evolution begin

lemma handles_auth:
  "handles R (AuthHandler_Login A)" "handles R (AuthHandler_Refresh A)" "handles R (AuthHandler_Logout A)"
  unfolding AuthHandler_Login_def AuthHandler_Refresh_def AuthHandler_Logout_def
  by (intro handles_body handles_service evolves_op[OF evolves_Login] evolves_op[OF evolves_Refresh]
        evolves_op[OF evolves_Logout] handles_respond)+

end

text \<open>What the router needs of the services: the session statements and the three writing operations.\<close>

locale api_evolution = session_evolution +
  assumes op_Create: "op_evolves R (Service_Create P co actor request key input)"
    and op_UpdateStatus: "op_evolves R (Service_UpdateStatus P actor request i decision)"
    and op_SoftDelete: "op_evolves R (Service_SoftDelete P actor request i)"
begin

lemma handles_Create: "handles R (DisbursementHandler_Create A)"
proof -
  have "handles R (\<lambda>c s. let idempotencyKey = gc_GetHeader c ''Idempotency-Key''
       in if idempotencyKey = '''' then respond_error (DomainError InvalidIdempotencyKey) c s
          else call_service (Service_Create (api_P A) (api_coordinator A) (id_ID identity) q idempotencyKey (create_input req))
                 (respond_created A) c s)" for identity q req
    using handles_error handles_service[OF op_Create handles_created] unfolding handles_def Let_def by auto
  then show ?thesis unfolding DisbursementHandler_Create_def
    by (intro handles_request_uuid handles_identity handles_body)
qed

lemma handles_others:
  "handles R (DisbursementHandler_UpdateStatus A)" "handles R (DisbursementHandler_Delete A)"
  unfolding DisbursementHandler_UpdateStatus_def DisbursementHandler_Delete_def Let_def
  by (intro handles_request_uuid handles_identity handles_path_id handles_body handles_service
        op_UpdateStatus op_SoftDelete handles_respond)+

lemma handles_routes:
  assumes A: "api_ok A" and r: "(m, pattern, h) \<in> set (routes A (collector (srv_world s) \<noteq> None))" and s: "server_ok s"
  shows "\<exists>c' s'. h c s = Returned c' s' \<and> R (db s) (db s') \<and> server_ok s'"
proof (cases "h = metrics_endpoint A \<and> collector (srv_world s) \<noteq> None")
  case True
  then show ?thesis using handles_JSON s unfolding handles_def
    by (auto simp: metrics_endpoint_def metrics_HTTPHandler_def Let_def)
next
  case False
  have "handles R h"
    using r False handles_probes handles_rate_limited[OF A] handles_auth handles_auth_chain handles_role
      handles_Create handles_List handles_GetByID handles_others
    by (auto simp: routes_def registerAuthRoutes_def registerDisbursementRoutes_def split: if_splits)
  then show ?thesis using s unfolding handles_def by blast
qed

lemma handles_dispatch:
  assumes "api_ok A"
  shows "handles R (dispatch A)"
proof (rule handlesI)
  fix c :: gin_context and s assume s: "server_ok s"
  let ?p = "\<lambda>(m, pattern, h :: handler). m = gc_Method c \<and> pattern = gc_FullPath c"
  let ?rs = "routes A (collector (srv_world s) \<noteq> None)"
  show "\<exists>c' s'. dispatch A c s = Returned c' s' \<and> R (db s) (db s') \<and> server_ok s'"
  proof (cases "find ?p ?rs")
    case None
    then have "dispatch A c s = NoRoute c s" by (simp add: dispatch_def)
    then show ?thesis using handles_error s unfolding NoRoute_def handles_def by metis
  next
    case (Some x)
    obtain m pattern h where x: "x = (m, pattern, h)" by (cases x)
    have "x \<in> set ?rs" using Some unfolding find_Some_iff by (metis nth_mem)
    then have "(m, pattern, h) \<in> set ?rs" unfolding x .
    then show ?thesis using handles_routes[OF assms _ s] Some x by (simp add: dispatch_def)
  qed
qed

lemma handles_router: "api_ok A \<Longrightarrow> handles R (NewRouter A)"
  unfolding NewRouter_def
  by (intro handles_RequestID handles_AccessLog handles_Recovery handles_BodyLimit handles_dispatch)

end

end
