(* ===== verification/Ledger.thy ===== *)
theory Ledger
  imports Finalization Idempotent_Create
begin

text \<open>
  The abstract specification of the disbursement service: a ledger of entries, each awaiting a
  decision, decided or removed, with three transitions. The service's operations refine it: under
  every fault an operation is one transition or none, and without faults each operation returns
  what the specification says on every kind of entry.
\<close>

section \<open>The abstract ledger\<close>

datatype phase = Awaiting | Decided string uuid | Removed

record ledger_entry =
  le_amount :: int
  le_fee :: int
  le_creator :: uuid
  le_phase :: phase

type_synonym ledger = "uuid \<rightharpoonup> ledger_entry"

inductive ledger_step :: "ledger \<Rightarrow> ledger \<Rightarrow> bool" where
  issue: "L i = None \<Longrightarrow> CalculateAdminFee amount = Inr fee \<Longrightarrow>
    ledger_step L (L(i \<mapsto> \<lparr>le_amount = amount, le_fee = fee, le_creator = a, le_phase = Awaiting\<rparr>))"
| decide: "L i = Some e \<Longrightarrow> le_phase e = Awaiting \<Longrightarrow> status \<in> {StatusApproved, StatusRejected} \<Longrightarrow>
    ledger_step L (L(i \<mapsto> e\<lparr>le_phase := Decided status a\<rparr>))"
| remove: "L i = Some e \<Longrightarrow> le_phase e = Awaiting \<Longrightarrow>
    ledger_step L (L(i \<mapsto> e\<lparr>le_phase := Removed\<rparr>))"

inductive_cases ledger_stepE: "ledger_step L L'"

text \<open>What a client sees of a decision and of a delete, as functions of the ledger.\<close>

definition spec_decide :: "uuid \<Rightarrow> string \<Rightarrow> uuid \<Rightarrow> ledger \<Rightarrow> (domain_error + unit) \<times> ledger" where
  "spec_decide i status a L =
     (case L i of
        None \<Rightarrow> (Inl DisbursementNotFound, L)
      | Some e \<Rightarrow>
          (case le_phase e of
             Awaiting \<Rightarrow> (Inr (), L(i \<mapsto> e\<lparr>le_phase := Decided status a\<rparr>))
           | Decided _ _ \<Rightarrow> (Inl DisbursementAlreadyFinalized, L)
           | Removed \<Rightarrow> (Inl DisbursementNotFound, L)))"

definition spec_delete :: "uuid \<Rightarrow> ledger \<Rightarrow> (domain_error + bool) \<times> ledger" where
  "spec_delete i L =
     (case L i of
        None \<Rightarrow> (Inl DisbursementNotFound, L)
      | Some e \<Rightarrow>
          (case le_phase e of
             Awaiting \<Rightarrow> (Inr False, L(i \<mapsto> e\<lparr>le_phase := Removed\<rparr>))
           | Decided _ _ \<Rightarrow> (Inl DisbursementNotDeletable, L)
           | Removed \<Rightarrow> (Inr True, L)))"

section \<open>The abstraction function\<close>

definition phase_of :: "dbDisbursement \<Rightarrow> phase" where
  "phase_of r =
     (if row_DeletedAt r \<noteq> None then Removed
      else if row_Status r = StatusPending then Awaiting
      else Decided (row_Status r) (case row_DecidedBy r of None \<Rightarrow> uuid_Nil | Some u \<Rightarrow> u))"

definition entry_of :: "dbDisbursement \<Rightarrow> ledger_entry" where
  "entry_of r = \<lparr>le_amount = row_Amount r, le_fee = row_AdminFee r, le_creator = row_CreatedBy r, le_phase = phase_of r\<rparr>"

definition ledger :: "database \<Rightarrow> ledger" where
  "ledger d = (\<lambda>i. map_option entry_of (first_where (\<lambda>r. row_ID r = i) (disbursements d)))"

lemma ledger_same: "disbursements d' = disbursements d \<Longrightarrow> ledger d' = ledger d"
  by (simp add: ledger_def)

lemma first_where_append:
  "first_where p (xs @ ys) = (case first_where p xs of None \<Rightarrow> first_where p ys | Some x \<Rightarrow> Some x)"
  by (induction xs) (auto simp: first_where_def)

lemma single_row: "first_where p [x] = (if p x then Some x else None)"
  by (simp add: first_where_def)

lemma ledger_append:
  assumes "disbursements d' = disbursements d @ [row]" "ledger d (row_ID row) = None"
  shows "ledger d' = (ledger d)(row_ID row \<mapsto> entry_of row)"
proof
  fix i
  show "ledger d' i = ((ledger d)(row_ID row \<mapsto> entry_of row)) i"
    using assms by (auto simp: ledger_def first_where_append single_row split: option.splits)
qed

lemma ledger_row:
  assumes "unique_by row_ID (disbursements d)" "r \<in> set (disbursements d)"
  shows "first_where (\<lambda>s. row_ID s = row_ID r) (disbursements d) = Some r"
    and "ledger d (row_ID r) = Some (entry_of r)"
proof -
  show f: "first_where (\<lambda>s. row_ID s = row_ID r) (disbursements d) = Some r"
    by (rule first_where_unique[where key = row_ID, OF assms]) simp_all
  then show "ledger d (row_ID r) = Some (entry_of r)" by (simp add: ledger_def)
qed

lemma ledger_None: "ledger d i = None \<longleftrightarrow> (\<forall>r \<in> set (disbursements d). row_ID r \<noteq> i)"
  by (auto simp: ledger_def first_where_None)

lemma ledger_update:
  assumes "unique_by row_ID (disbursements d)" "r \<in> set (disbursements d)" "open_row i r" "\<And>r. row_ID (f r) = row_ID r"
  shows "ledger (d\<lparr>disbursements := update_where (open_row i) f (disbursements d)\<rparr>) = (ledger d)(i \<mapsto> entry_of (f r))"
proof
  fix j
  let ?d = "d\<lparr>disbursements := update_where (open_row i) f (disbursements d)\<rparr>"
  have i: "row_ID r = i" using assms(3) by (simp add: open_row_def)
  have u: "unique_by row_ID (disbursements ?d)" using assms(1,4) by (simp add: unique_by_update)
  show "ledger ?d j = ((ledger d)(i \<mapsto> entry_of (f r))) j"
  proof (cases "j = i")
    case True
    have "f r \<in> set (disbursements ?d)" using assms(2,3) by (force simp: update_where_def)
    from ledger_row(2)[OF u this] True i assms(4) show ?thesis by simp
  next
    case False
    have "first_where (\<lambda>s. row_ID s = j) (update_where (open_row i) f rows) = first_where (\<lambda>s. row_ID s = j) rows" for rows
      using False assms(4) by (induction rows) (auto simp: first_where_def update_where_def open_row_def)
    then show ?thesis using False by (simp add: ledger_def)
  qed
qed

section \<open>Every operation is a transition or none\<close>

lemma change_ledger:
  assumes "change_recorded a q i action f d d'" "db_ok d" "\<And>r. row_ID (f r) = row_ID r"
  shows "\<exists>r \<in> set (disbursements d). open_row i r \<and> ledger d i = Some (entry_of r)
     \<and> ledger d' = (ledger d)(i \<mapsto> entry_of (f r))"
proof -
  from assms(1) obtain r ob where r: "r \<in> set (disbursements d)" "open_row i r"
    and d': "d' = d\<lparr>disbursements := update_where (open_row i) f (disbursements d), audit_outbox := audit_outbox d @ [ob]\<rparr>"
    by (auto simp: change_recorded_def)
  have "ledger d' = ledger (d\<lparr>disbursements := update_where (open_row i) f (disbursements d)\<rparr>)"
    unfolding d' by (rule ledger_same) simp
  then show ?thesis
    using ledger_update[OF db_okD(1)[OF assms(2)] r assms(3)] ledger_row(2)[OF db_okD(1)[OF assms(2)] r(1)] r
    by (auto simp: open_row_def)
qed

lemma open_entry:
  "open_row i r \<Longrightarrow> le_phase (entry_of r) = Awaiting"
  "open_row i r \<Longrightarrow> entry_of (delete_row t r) = (entry_of r)\<lparr>le_phase := Removed\<rparr>"
  "open_row i r \<Longrightarrow> status \<noteq> StatusPending \<Longrightarrow>
     entry_of (decide_row status a nt t r) = (entry_of r)\<lparr>le_phase := Decided status a\<rparr>"
  by (simp_all add: open_row_def entry_of_def phase_of_def delete_row_def decide_row_def StatusPending_def)

lemma update_ledger:
  assumes "db_ok (committed w)" "Service_UpdateStatus P a q i dec w = (r, w')"
  shows "ledger_step\<^sup>=\<^sup>= (ledger (committed w)) (ledger (committed w'))"
  using Service_UpdateStatus_cases[OF assms(2)]
proof
  assume "\<exists>x nt t rr. change_recorded a q i (decision_action (dec_Status dec)) (decide_row (dec_Status dec) a nt t)
            (committed w) (committed w')
          \<and> Decision_Validate (dec\<lparr>dec_ActorID := a\<rparr>) = None
          \<and> open_row i rr \<and> x = mapDBDisbursementToDomain (decide_row (dec_Status dec) a nt t rr)
          \<and> (r = Inr x \<or> (\<exists>e. r = Inl e))"
  then obtain nt t where ch: "change_recorded a q i (decision_action (dec_Status dec)) (decide_row (dec_Status dec) a nt t)
      (committed w) (committed w')" and st: "dec_Status dec \<in> {StatusApproved, StatusRejected}"
    by (auto simp: Decision_Validate_def split: if_splits)
  from change_ledger[OF ch assms(1)] obtain row where "open_row i row" "ledger (committed w) i = Some (entry_of row)"
    "ledger (committed w') = (ledger (committed w))(i \<mapsto> entry_of (decide_row (dec_Status dec) a nt t row))"
    by (auto simp: decide_row_def)
  then show ?thesis using st by (auto simp: open_entry intro!: ledger_step.decide)
qed simp

lemma delete_ledger:
  assumes "db_ok (committed w)" "Service_SoftDelete P a q i w = (r, w')"
  shows "ledger_step\<^sup>=\<^sup>= (ledger (committed w)) (ledger (committed w'))"
proof -
  from Service_SoftDelete_cases[OF assms(2)] consider "committed w' = committed w"
    | t where "change_recorded a q i ''disbursement.deleted'' (delete_row t) (committed w) (committed w')" by blast
  then show ?thesis
  proof cases
    case 2
    from change_ledger[OF 2 assms(1)] obtain row where "open_row i row" "ledger (committed w) i = Some (entry_of row)"
      "ledger (committed w') = (ledger (committed w))(i \<mapsto> entry_of (delete_row t row))"
      by (auto simp: delete_row_def)
    then show ?thesis by (auto simp: open_entry intro!: ledger_step.remove)
  qed simp
qed

lemma create_ledger:
  assumes "db_ok (committed w)" "Service_Create P co a q key input w = (r, w')"
  shows "ledger_step\<^sup>=\<^sup>= (ledger (committed w)) (ledger (committed w'))"
proof -
  from Service_Create_cases[OF assms(2)] consider "claims_only (committed w) (committed w')"
    | x where "service_creation P co a q key input x (committed w) (committed w')" by blast
  then show ?thesis
  proof cases
    case 1
    then show ?thesis using ledger_same[of "committed w'" "committed w"] by (simp add: claims_onlyD)
  next
    case 2
    from service_creation_recorded[OF 2] obtain row where
      row: "disbursements (committed w') = disbursements (committed w) @ [row]" "row_Amount row = in_Amount input"
        "CalculateAdminFee (in_Amount input) = Inr (row_AdminFee row)" "row_Status row = StatusPending"
        "row_CreatedBy row = a" "row_DeletedAt row = None"
      by (auto simp: creation_recorded_def)
    have "db_ok (committed w')"
      using assms(1) evolvesD(1)[OF schema.evolves_Service_Create, of w P co a q key input] assms(2)
      by (simp add: schema_kept_def)
    from db_okD(1)[OF this] row(1) have new: "ledger (committed w) (row_ID row) = None"
      by (auto simp: ledger_None unique_by_def image_iff)
    have "entry_of row = \<lparr>le_amount = in_Amount input, le_fee = row_AdminFee row, le_creator = a, le_phase = Awaiting\<rparr>"
      using row by (simp add: entry_of_def phase_of_def)
    then show ?thesis
      using ledger_append[OF row(1) new] ledger_step.issue[of "ledger (committed w)" "row_ID row", OF new row(3), of a]
      by simp
  qed
qed


section \<open>Runs without faults\<close>

text \<open>Rows whose snapshot can be written: texts without zero bytes, times in the range of RFC 3339.\<close>

definition printable_time :: "platform \<Rightarrow> time \<Rightarrow> bool" where
  "printable_time P t \<longleftrightarrow> time_MarshalJSON P t \<noteq> None"

definition row_auditable :: "platform \<Rightarrow> dbDisbursement \<Rightarrow> bool" where
  "row_auditable P r \<longleftrightarrow>
     row_ID r \<noteq> uuid_Nil \<and> no_nul_texts (mapDBDisbursementToDomain r)
     \<and> printable_time P (row_CreatedAt r) \<and> printable_time P (row_UpdatedAt r)
     \<and> pred_option (printable_time P) (row_DecidedAt r) \<and> pred_option (printable_time P) (row_DeletedAt r)"

definition finalization_ready :: "platform \<Rightarrow> uuid \<Rightarrow> uuid \<Rightarrow> database \<Rightarrow> bool" where
  "finalization_ready P a q d \<longleftrightarrow>
     faultless P \<and> printable_ok P \<and> (\<forall>n. uuid_New P n \<noteq> uuid_Nil)
     \<and> (\<forall>n. \<forall>r \<in> set (audit_outbox d). ob_id r \<noteq> uuid_New P n)
     \<and> (\<forall>n. pg_timestamptz P (time_Now P n) \<noteq> 0 \<and> printable_time P (pg_timestamptz P (time_Now P n)))
     \<and> a \<noteq> uuid_Nil \<and> q \<noteq> uuid_Nil \<and> user_exists d a \<and> db_ok d \<and> (\<forall>r \<in> set (disbursements d). row_auditable P r)"

lemma auditable_marshal:
  assumes "printable_ok P" "row_auditable P r"
  shows "\<exists>j. marshal_Disbursement P (mapDBDisbursementToDomain r) = Inr j \<and> json_no_nul j"
proof -
  have "\<exists>j. marshal_Disbursement P (mapDBDisbursementToDomain r) = Inr j"
    using assms(2)
    by (auto simp: row_auditable_def marshal_Disbursement_def mapDBDisbursementToDomain_def json_time_ptr_def json_time_def
          printable_time_def pred_option_def split: option.splits)
  then show ?thesis
    using marshal_Disbursement_no_nul[OF assms(1)] assms(2) unfolding row_auditable_def by blast
qed

lemma text_no_nul: "pg_text_ok s \<Longrightarrow> byte_chr 0 \<notin> set (to_valid_utf8 s)"
  by (simp add: pg_text_ok_def to_valid_utf8_id)

lemma auditable_changes:
  assumes "row_auditable P r" "printable_time P t"
  shows "row_auditable P (delete_row t r)"
    and "pg_text_ok status \<Longrightarrow> pred_option pg_text_ok nt \<Longrightarrow> row_auditable P (decide_row status a nt t r)"
proof -
  show "row_auditable P (delete_row t r)" using assms
    by (simp add: row_auditable_def delete_row_def no_nul_texts_def mapDBDisbursementToDomain_def)
  have e: "to_valid_utf8 [] = []" by code_simp
  show "row_auditable P (decide_row status a nt t r)" if "pg_text_ok status" "pred_option pg_text_ok nt"
    using assms that text_no_nul e
    by (cases nt) (simp_all add: row_auditable_def decide_row_def no_nul_texts_def mapDBDisbursementToDomain_def)
qed

lemma emit_event_run:
  assumes "faultless P" "working w = Some d" "marshal_Disbursement P before = Inr jb" "json_no_nul jb"
    and "marshal_Disbursement P x = Inr jx" "json_no_nul jx" "d_ID x \<noteq> uuid_Nil" "a \<noteq> uuid_Nil" "q \<noteq> uuid_Nil"
    and "action \<in> set service_actions" "stamp = Some t" "t \<noteq> 0" "\<forall>n. uuid_New P n \<noteq> uuid_Nil"
    and "\<forall>n. \<forall>r \<in> set (audit_outbox d). ob_id r \<noteq> uuid_New P n" "user_exists d a"
  shows "\<exists>ob. emit_event P a q action stamp before x w =
     (Inr (), w\<lparr>calls := calls w + 3, working := Some (d\<lparr>audit_outbox := audit_outbox d @ [ob]\<rparr>)\<rparr>)"
proof -
  let ?w = "w\<lparr>calls := calls w + 2\<rparr>"
  obtain event ev where e: "NewAuditEvent P (uuid_New P (calls w + 1)) ''disbursement'' (d_ID x) action a q
      (Some (marshal_Disbursement P before)) (Some (marshal_Disbursement P x)) t = Inr event" "convert_event P event = Inr ev"
    using service_event[of "uuid_New P (calls w + 1)" "d_ID x" a q t action "Some (Inr jb)" jb jx P] assms by auto
  have ev: "\<not> incomplete_event event" "ev_EventID ev = uuid_New P (calls w + 1)" "ev_ActorID ev = a"
    using e(1) convert_event_Inr[OF e(2)] assms(10)
    by (auto simp: NewAuditEvent_def incomplete_event_def IsZero_def service_actions_def split: if_splits sum.splits)
  have "AuditOutboxStore_Insert P event ?w = (Inr (), ?w\<lparr>calls := Suc (calls ?w),
      working := Some (d\<lparr>audit_outbox := audit_outbox d @ [new_outbox_row (tx_now ?w) ev]\<rparr>)\<rparr>)"
    by (rule outbox_Insert_run) (use assms e ev in auto)
  then show ?thesis using e(1) assms(11)
    by (simp add: emit_event_def andThen_def handle_def read_clock_def new_uuid_def lift_result_def Let_def numeral_3_eq_3)
       blast
qed

lemma FindByID_run:
  "faultless P \<Longrightarrow> DisbursementStore_FindByID P i w =
     (case first_where (\<lambda>r. row_ID r = i \<and> row_DeletedAt r = None) (disbursements (committed w)) of
        None \<Rightarrow> Inl disbursement_not_found | Some r \<Rightarrow> Inr (mapDBDisbursementToDomain r), w\<lparr>calls := Suc (calls w)\<rparr>)"
  by (auto simp: DisbursementStore_FindByID_def handle_def pool_exec_faultless findDisbursementByIDQuery_def fail_def ok_def
        split: option.splits)

text \<open>A lookup that fixes the identifier sees the row of that identifier and nothing else.\<close>

lemma lookup_row:
  assumes "unique_by row_ID rows" "r \<in> set rows" "\<And>s. p s \<Longrightarrow> row_ID s = row_ID r"
  shows "first_where p rows = (if p r then Some r else None)"
proof (cases "p r")
  case True
  then show ?thesis using first_where_unique[where key = row_ID and p = p, OF assms(1,2) True assms(3)] by simp
next
  case False
  have "\<not> p s" if "s \<in> set rows" for s
    using unique_by_same[OF assms(1) that assms(2)] assms(3) False by blast
  then show ?thesis using False by (simp add: first_where_None)
qed

lemma lookups:
  assumes "unique_by row_ID rows" "r \<in> set rows"
  shows "first_where (\<lambda>s. row_ID s = row_ID r \<and> row_DeletedAt s = None) rows = (if row_DeletedAt r = None then Some r else None)"
    and "first_where (open_row (row_ID r)) rows = (if open_row (row_ID r) r then Some r else None)"
    and "first_where (\<lambda>s. row_ID s = row_ID r) rows = Some r"
  using lookup_row[OF assms, of "\<lambda>s. row_ID s = row_ID r \<and> row_DeletedAt s = None"]
    lookup_row[OF assms, of "open_row (row_ID r)"] lookup_row[OF assms, of "\<lambda>s. row_ID s = row_ID r"]
  by (simp_all add: open_row_def)

lemma no_lookups:
  assumes "\<forall>r \<in> set rows. row_ID r \<noteq> i"
  shows "first_where (\<lambda>s. row_ID s = i \<and> row_DeletedAt s = None) rows = None"
    and "first_where (open_row i) rows = None" and "first_where (\<lambda>s. row_ID s = i) rows = None"
  using assms by (simp_all add: first_where_None open_row_def)


lemma explain_update_run:
  "faultless P \<Longrightarrow> working w = Some d \<Longrightarrow> explain_update P i w =
     (Inl (case first_where (\<lambda>s. row_ID s = i) (disbursements d) of
        None \<Rightarrow> disbursement_not_found
      | Some r \<Rightarrow>
          if row_DeletedAt r \<noteq> None then RepositoryError ErrorNotFound (PlainError ''disbursement deleted'')
          else if row_Status r \<noteq> StatusPending
          then RepositoryError ErrorConflict (PlainError ''disbursement already finalized'')
          else RepositoryError ErrorConflict (PlainError ''concurrent status update conflict'')), w\<lparr>calls := Suc (calls w)\<rparr>)"
  by (auto simp: explain_update_def handle_def tx_exec_faultless findDisbursementRawByIDQuery_def fail_def
        split: option.splits)

lemma explain_delete_run:
  "faultless P \<Longrightarrow> working w = Some d \<Longrightarrow> explain_delete P i w =
     (case first_where (\<lambda>s. row_ID s = i) (disbursements d) of
        None \<Rightarrow> Inl disbursement_not_found
      | Some r \<Rightarrow>
          if row_DeletedAt r \<noteq> None then Inr (mapDBDisbursementToDomain r, True)
          else if row_Status r \<noteq> StatusPending
          then Inl (RepositoryError ErrorConstraint (PlainError ''cannot delete finalized disbursement''))
          else Inl (RepositoryError ErrorConflict (PlainError ''concurrent delete conflict'')), w\<lparr>calls := Suc (calls w)\<rparr>)"
  by (auto simp: explain_delete_def handle_def tx_exec_faultless findDisbursementRawByIDQuery_def fail_def ok_def
        split: option.splits)

definition note_of :: "Decision \<Rightarrow> string option" where
  "note_of dec = (if dec_Note dec \<noteq> '''' then Some (dec_Note dec) else None)"

text \<open>A decision that passes validation fits the columns.\<close>

lemma decision_columns:
  assumes "Decision_Validate dec = None" "pg_text_ok (dec_Note dec)"
  shows "dec_Status dec \<in> {StatusApproved, StatusRejected}" "status_enum (dec_Status dec) = Inr (dec_Status dec)"
    "varchar_option 500 (note_of dec) = Inr (note_of dec)" "pred_option pg_text_ok (note_of dec)" "pg_text_ok (dec_Status dec)"
proof -
  show st: "dec_Status dec \<in> {StatusApproved, StatusRejected}" and "status_enum (dec_Status dec) = Inr (dec_Status dec)"
    using assms(1) by (auto simp: Decision_Validate_def status_enum_def split: if_splits)
  have "pg_text_ok StatusApproved" "pg_text_ok StatusRejected" by code_simp+
  then show "pg_text_ok (dec_Status dec)" using st by auto
  show "varchar_option 500 (note_of dec) = Inr (note_of dec)" "pred_option pg_text_ok (note_of dec)"
    using assms by (auto simp: Decision_Validate_def varchar_option_def note_of_def varchar_short MaximumNoteRunes_def split: if_splits)
qed

lemma decided_check:
  assumes "disbursement_check r" "open_row i r" "status \<in> {StatusApproved, StatusRejected}"
  shows "disbursement_check (decide_row status a nt t r)" "disbursement_check (delete_row t r)"
  using assms by (auto simp: disbursement_check_def decide_row_def delete_row_def open_row_def status_defs)

lemma same_working: "working w = Some d \<Longrightarrow> w\<lparr>calls := n, working := Some d\<rparr> = w\<lparr>calls := n\<rparr>"
  by (cases w) simp

lemma UpdateStatus_run:
  assumes "faultless P" "working w = Some d" "Decision_Validate dec = None" "pg_text_ok (dec_Note dec)" "db_ok d"
    and "user_exists d (dec_ActorID dec)"
  shows "DisbursementStore_UpdateStatus P i dec w =
     (case first_where (open_row i) (disbursements d) of
        None \<Rightarrow> explain_update P i (w\<lparr>calls := calls w + 2\<rparr>)
      | Some r \<Rightarrow>
          (let f = decide_row (dec_Status dec) (dec_ActorID dec) (note_of dec) (pg_timestamptz P (time_Now P (calls w)))
           in (Inr (mapDBDisbursementToDomain (f r)), w\<lparr>calls := calls w + 2,
                working := Some (d\<lparr>disbursements := update_where (open_row i) f (disbursements d)\<rparr>)\<rparr>)))"
proof -
  let ?f = "decide_row (dec_Status dec) (dec_ActorID dec) (note_of dec) (pg_timestamptz P (time_Now P (calls w)))"
  note col = decision_columns[OF assms(3,4)]
  have chk: "disbursement_check (?f r)" if "first_where (open_row i) (disbursements d) = Some r" for r
    using decided_check(1)[OF _ _ col(1)] open_row_found[OF that] db_okD(9)[OF assms(5)]
    by (auto simp: disbursement_row_ok_def)
  show ?thesis
    using assms(1,2,6) col chk
    by (auto simp: DisbursementStore_UpdateStatus_def andThen_def handle_def unwrapTransaction_def read_clock_def
          tx_exec_faultless updateDisbursementStatusQuery_def note_of_def[symmetric] Let_def ok_def numeral_2_eq_2 same_working
          split: option.splits)
qed

lemma SoftDelete_run:
  assumes "faultless P" "working w = Some d" "db_ok d"
  shows "DisbursementStore_SoftDelete P i w =
     (case first_where (open_row i) (disbursements d) of
        None \<Rightarrow> explain_delete P i (w\<lparr>calls := calls w + 2\<rparr>)
      | Some r \<Rightarrow>
          (let f = delete_row (pg_timestamptz P (time_Now P (calls w)))
           in (Inr (mapDBDisbursementToDomain (f r), False), w\<lparr>calls := calls w + 2,
                working := Some (d\<lparr>disbursements := update_where (open_row i) f (disbursements d)\<rparr>)\<rparr>)))"
proof -
  have chk: "disbursement_check (delete_row t r)" if "first_where (open_row i) (disbursements d) = Some r" for r t
    using decided_check(2)[of r i StatusApproved t] open_row_found[OF that] db_okD(9)[OF assms(3)]
    by (auto simp: disbursement_row_ok_def)
  show ?thesis
    using assms(1,2) chk
    by (auto simp: DisbursementStore_SoftDelete_def andThen_def handle_def unwrapTransaction_def read_clock_def
          tx_exec_faultless softDeleteDisbursementQuery_def Let_def ok_def numeral_2_eq_2 same_working split: option.splits)
qed


section \<open>The operations against the specification\<close>

definition observe :: "('a \<Rightarrow> 'b) \<Rightarrow> go_error + 'a \<Rightarrow> domain_error + 'b" where
  "observe f r = map_sum AsError f r"

lemma update_body_fails:
  assumes ready: "finalization_ready P a q (committed w)" and dec: "Decision_Validate dec = None" "pg_text_ok (dec_Note dec)"
    and act: "dec_ActorID dec = a" and none: "first_where (open_row i) (disbursements (committed w)) = None"
  shows "\<exists>e w1. update_body P a q i dec (started P w) = (Inl e, w1)
     \<and> mapRepositoryError e = DomainError (case first_where (\<lambda>s. row_ID s = i \<and> row_DeletedAt s = None) (disbursements (committed w)) of
          None \<Rightarrow> DisbursementNotFound | Some r \<Rightarrow> DisbursementAlreadyFinalized)"
proof (cases "first_where (\<lambda>s. row_ID s = i \<and> row_DeletedAt s = None) (disbursements (committed w))")
  case None
  then show ?thesis using ready
    by (simp add: update_body_def andThen_def handle_def FindByID_run finalization_ready_def fail_def
          disbursement_not_found_def mapRepositoryError_def)
next
  case (Some r)
  from ready have f: "faultless P" and ok: "db_ok (committed w)" and u: "user_exists (committed w) a"
    by (simp_all add: finalization_ready_def)
  have r: "r \<in> set (disbursements (committed w))" "row_ID r = i" "row_DeletedAt r = None"
    using Some by (auto dest: first_where_Some)
  have "first_where (\<lambda>s. row_ID s = i) (disbursements (committed w)) = Some r"
    using lookups(3)[OF db_okD(1)[OF ok] r(1)] r(2) by simp
  moreover have "row_Status r \<noteq> StatusPending"
    using none r by (auto simp: first_where_None open_row_def StatusPending_def)
  ultimately show ?thesis using Some none r dec act f u ok
    by (simp add: update_body_def andThen_def handle_def FindByID_run UpdateStatus_run explain_update_run fail_def
          mapRepositoryError_def)
qed

lemma update_body_decides:
  assumes ready: "finalization_ready P a q (committed w)" and dec: "Decision_Validate dec = None" "pg_text_ok (dec_Note dec)"
    and act: "dec_ActorID dec = a" and r: "first_where (open_row i) (disbursements (committed w)) = Some r"
  shows "\<exists>x w1 nt t ob. update_body P a q i dec (started P w) = (Inr x, w1)
     \<and> working w1 = Some ((committed w)\<lparr>disbursements := update_where (open_row i) (decide_row (dec_Status dec) a nt t)
          (disbursements (committed w)), audit_outbox := audit_outbox (committed w) @ [ob]\<rparr>)"
proof -
  from ready have f: "faultless P" and ok: "db_ok (committed w)" and u: "user_exists (committed w) a" and pr: "printable_ok P"
    by (simp_all add: finalization_ready_def)
  note row = open_row_found[OF r]
  define t where "t = pg_timestamptz P (time_Now P (Suc (Suc (calls w))))"
  define g where "g = decide_row (dec_Status dec) a (note_of dec) t"
  let ?d = "(committed w)\<lparr>disbursements := update_where (open_row i) g (disbursements (committed w))\<rparr>"
  let ?w = "(started P w)\<lparr>calls := Suc (Suc (Suc (Suc (calls w)))), working := Some ?d\<rparr>"
  have t: "t \<noteq> 0" "printable_time P t" using ready by (simp_all add: finalization_ready_def t_def)
  have aud: "row_auditable P r" "row_auditable P (g r)"
    using ready row auditable_changes(2)[OF _ t(2)] decision_columns[OF dec] unfolding finalization_ready_def g_def by blast+
  obtain jb jx where "marshal_Disbursement P (mapDBDisbursementToDomain r) = Inr jb" "json_no_nul jb"
    "marshal_Disbursement P (mapDBDisbursementToDomain (g r)) = Inr jx" "json_no_nul jx"
    using auditable_marshal[OF pr aud(1)] auditable_marshal[OF pr aud(2)] by blast
  moreover have "d_ID (mapDBDisbursementToDomain (g r)) \<noteq> uuid_Nil" using aud(2)
    by (simp add: row_auditable_def mapDBDisbursementToDomain_def)
  moreover have st: "d_DecidedAt (mapDBDisbursementToDomain (g r)) = Some t"
    by (simp add: g_def decide_row_def mapDBDisbursementToDomain_def)
  ultimately obtain ob where e: "emit_event P a q (decision_action (dec_Status dec)) (d_DecidedAt (mapDBDisbursementToDomain (g r)))
      (mapDBDisbursementToDomain r) (mapDBDisbursementToDomain (g r)) ?w =
      (Inr (), ?w\<lparr>calls := calls ?w + 3, working := Some (?d\<lparr>audit_outbox := audit_outbox ?d @ [ob]\<rparr>)\<rparr>)"
    using emit_event_run[OF f, of ?w ?d "mapDBDisbursementToDomain r" jb "mapDBDisbursementToDomain (g r)" jx a q
        "decision_action (dec_Status dec)" "Some t" t] ready t decision_action_known
    by (auto simp: finalization_ready_def)
  have find: "first_where (\<lambda>s. row_ID s = i \<and> row_DeletedAt s = None) (disbursements (committed w)) = Some r"
    using lookups(1)[OF db_okD(1)[OF ok], of r] row by (auto simp: open_row_def)
  have "update_body P a q i dec (started P w) = (Inr (mapDBDisbursementToDomain (g r)), ?w\<lparr>calls := calls ?w + 3,
      working := Some (?d\<lparr>audit_outbox := audit_outbox ?d @ [ob]\<rparr>)\<rparr>)"
    using find r act dec f u ok e
    by (simp add: update_body_def andThen_def handle_def FindByID_run UpdateStatus_run Let_def g_def[symmetric] t_def[symmetric]
          ok_def)
  then show ?thesis unfolding g_def by fastforce
qed


lemma delete_logged_fails:
  assumes "faultless P" "working w = Some d" "db_ok d" "first_where (open_row i) (disbursements d) = None"
  shows "delete_logged P a q i before w =
     (case first_where (\<lambda>s. row_ID s = i) (disbursements d) of
        None \<Rightarrow> Inl disbursement_not_found
      | Some r \<Rightarrow>
          if row_DeletedAt r \<noteq> None then Inr (mapDBDisbursementToDomain r, True)
          else Inl (RepositoryError (if row_Status r \<noteq> StatusPending then ErrorConstraint else ErrorConflict)
                 (PlainError (if row_Status r \<noteq> StatusPending then ''cannot delete finalized disbursement''
                    else ''concurrent delete conflict''))), w\<lparr>calls := calls w + 3\<rparr>)"
  using assms
  by (auto simp: delete_logged_def andThen_def handle_def SoftDelete_run explain_delete_run fail_def ok_def numeral_3_eq_3
        split: option.splits)

lemma delete_logged_deletes:
  assumes ready: "finalization_ready P a q d" and w: "working w = Some d"
    and r: "first_where (open_row i) (disbursements d) = Some r"
  shows "\<exists>x w1 t ob. delete_logged P a q i (mapDBDisbursementToDomain r) w = (Inr (x, False), w1)
     \<and> working w1 = Some (d\<lparr>disbursements := update_where (open_row i) (delete_row t) (disbursements d),
          audit_outbox := audit_outbox d @ [ob]\<rparr>)"
proof -
  from ready have f: "faultless P" and ok: "db_ok d" and u: "user_exists d a" and pr: "printable_ok P"
    by (simp_all add: finalization_ready_def)
  define t where "t = pg_timestamptz P (time_Now P (calls w))"
  let ?d = "d\<lparr>disbursements := update_where (open_row i) (delete_row t) (disbursements d)\<rparr>"
  let ?w = "w\<lparr>calls := calls w + 2, working := Some ?d\<rparr>"
  have t: "t \<noteq> 0" "printable_time P t" using ready by (simp_all add: finalization_ready_def t_def)
  have aud: "row_auditable P r" "row_auditable P (delete_row t r)"
    using ready open_row_found[OF r] auditable_changes(1)[OF _ t(2)] unfolding finalization_ready_def by blast+
  obtain jb jx where "marshal_Disbursement P (mapDBDisbursementToDomain r) = Inr jb" "json_no_nul jb"
    "marshal_Disbursement P (mapDBDisbursementToDomain (delete_row t r)) = Inr jx" "json_no_nul jx"
    using auditable_marshal[OF pr aud(1)] auditable_marshal[OF pr aud(2)] by blast
  moreover have "d_ID (mapDBDisbursementToDomain (delete_row t r)) \<noteq> uuid_Nil" using aud(2)
    by (simp add: row_auditable_def mapDBDisbursementToDomain_def)
  moreover have "d_DeletedAt (mapDBDisbursementToDomain (delete_row t r)) = Some t"
    by (simp add: delete_row_def mapDBDisbursementToDomain_def)
  ultimately obtain ob where e: "emit_event P a q ''disbursement.deleted'' (d_DeletedAt (mapDBDisbursementToDomain (delete_row t r)))
      (mapDBDisbursementToDomain r) (mapDBDisbursementToDomain (delete_row t r)) ?w =
      (Inr (), ?w\<lparr>calls := calls ?w + 3, working := Some (?d\<lparr>audit_outbox := audit_outbox ?d @ [ob]\<rparr>)\<rparr>)"
    using emit_event_run[OF f, of ?w ?d "mapDBDisbursementToDomain r" jb "mapDBDisbursementToDomain (delete_row t r)" jx a q
        "''disbursement.deleted''" "Some t" t] ready t
    by (auto simp: finalization_ready_def service_actions_def)
  then show ?thesis using f w ok r
    by (auto simp: delete_logged_def andThen_def handle_def SoftDelete_run Let_def t_def[symmetric] ok_def)
qed


lemma ledger_cases:
  assumes "db_ok d"
  obtains (absent) "ledger d i = None" "first_where (open_row i) (disbursements d) = None"
      "first_where (\<lambda>s. row_ID s = i \<and> row_DeletedAt s = None) (disbursements d) = None"
      "first_where (\<lambda>s. row_ID s = i) (disbursements d) = None"
  | (stored) r where "r \<in> set (disbursements d)" "row_ID r = i" "ledger d i = Some (entry_of r)"
      "first_where (open_row i) (disbursements d) = (if open_row i r then Some r else None)"
      "first_where (\<lambda>s. row_ID s = i \<and> row_DeletedAt s = None) (disbursements d) = (if row_DeletedAt r = None then Some r else None)"
      "first_where (\<lambda>s. row_ID s = i) (disbursements d) = Some r"
proof (cases "\<exists>r \<in> set (disbursements d). row_ID r = i")
  case True
  then obtain r where r: "r \<in> set (disbursements d)" "row_ID r = i" by blast
  show ?thesis
    by (rule stored[OF r]) (use lookups[OF db_okD(1)[OF assms] r(1)] ledger_row(2)[OF db_okD(1)[OF assms] r(1)] r(2) in auto)
next
  case False
  then have no: "\<forall>r \<in> set (disbursements d). row_ID r \<noteq> i" by blast
  show ?thesis by (rule absent) (use no_lookups[OF no] ledger_None[of d i] no in simp_all)
qed

lemma UpdateStatus_fails:
  assumes "WithinTransaction P (update_body P a q i (dec\<lparr>dec_ActorID := a\<rparr>)) w = (Inl e, w')"
    and "Decision_Validate (dec\<lparr>dec_ActorID := a\<rparr>) = None" "mapRepositoryError e = DomainError x"
    and "x = DisbursementNotFound \<or> x = DisbursementAlreadyFinalized"
  shows "Service_UpdateStatus P a q i dec w = (Inl (DomainError x), w')"
  using assms
  by (auto simp: Service_UpdateStatus_def handle_def andThen_def ok_def fail_def Let_def domain_error_defs code_defs)

lemma UpdateStatus_decides:
  assumes "WithinTransaction P (update_body P a q i (dec\<lparr>dec_ActorID := a\<rparr>)) w = (Inr x, w1)"
    and "Decision_Validate (dec\<lparr>dec_ActorID := a\<rparr>) = None"
  shows "\<exists>w'. Service_UpdateStatus P a q i dec w = (Inr x, w') \<and> committed w' = committed w1"
  using assms by (simp add: Service_UpdateStatus_def handle_def andThen_def ok_def record_metric_def Let_def)

text \<open>
  C15. Functional correctness of \<open>UpdateStatus\<close>: without faults, a valid decision does to the
  tables and reports exactly what the ledger specification says. An entry awaiting a decision is
  decided; a decided one is refused with \<open>DISBURSEMENT_ALREADY_FINALIZED\<close>; an unknown or removed
  one with \<open>DISBURSEMENT_NOT_FOUND\<close>; a refusal changes nothing.
\<close>

theorem update_refines_spec:
  assumes ready: "finalization_ready P a q (committed w)"
    and dec: "Decision_Validate (dec\<lparr>dec_ActorID := a\<rparr>) = None" "pg_text_ok (dec_Note dec)"
  shows "case Service_UpdateStatus P a q i dec w of (r, w') \<Rightarrow>
     (observe (\<lambda>_. ()) r, ledger (committed w')) = spec_decide i (dec_Status dec) a (ledger (committed w))"
proof -
  let ?dec = "dec\<lparr>dec_ActorID := a\<rparr>"
  from ready have f: "faultless P" and ok: "db_ok (committed w)" by (simp_all add: finalization_ready_def)
  have note_ok: "pg_text_ok (dec_Note ?dec)" and act: "dec_ActorID ?dec = a" using dec(2) by simp_all
  show ?thesis
  proof (cases "first_where (open_row i) (disbursements (committed w))")
    case None
    obtain e w1 where "update_body P a q i ?dec (started P w) = (Inl e, w1)"
      and e: "mapRepositoryError e = DomainError (case first_where (\<lambda>s. row_ID s = i \<and> row_DeletedAt s = None) (disbursements (committed w)) of
          None \<Rightarrow> DisbursementNotFound | Some r \<Rightarrow> DisbursementAlreadyFinalized)"
      using update_body_fails[OF ready dec(1) note_ok act None] by blast
    from transaction_fails[OF f tx_only_update_body this(1)] obtain w' where
      w': "WithinTransaction P (update_body P a q i ?dec) w = (Inl e, w')" "committed w' = committed w" by blast
    from UpdateStatus_fails[OF w'(1) dec(1) e] have run: "Service_UpdateStatus P a q i dec w = (Inl (mapRepositoryError e), w')"
      using e by (auto split: option.splits)
    from ok show ?thesis
      by (cases rule: ledger_cases[where i = i])
         (use None run e w'(2) in \<open>auto simp: observe_def spec_decide_def AsError_def entry_of_def phase_of_def open_row_def
            StatusPending_def split: option.splits if_splits\<close>)
  next
    case (Some r)
    obtain x w1 nt t ob where "update_body P a q i ?dec (started P w) = (Inr x, w1)"
      and w1: "working w1 = Some ((committed w)\<lparr>disbursements := update_where (open_row i) (decide_row (dec_Status dec) a nt t)
          (disbursements (committed w)), audit_outbox := audit_outbox (committed w) @ [ob]\<rparr>)"
      using update_body_decides[OF ready dec(1) note_ok act Some] by auto
    from transaction_commits[of P "update_body P a q i ?dec", OF f this] obtain w2 where
      "WithinTransaction P (update_body P a q i ?dec) w = (Inr x, w2)"
      "disbursements (committed w2) = update_where (open_row i) (decide_row (dec_Status dec) a nt t) (disbursements (committed w))"
      by auto
    from UpdateStatus_decides[OF this(1) dec(1)] this(2) obtain w' where
      run: "Service_UpdateStatus P a q i dec w = (Inr x, w')" and
      d: "disbursements (committed w') = disbursements ((committed w)\<lparr>disbursements :=
            update_where (open_row i) (decide_row (dec_Status dec) a nt t) (disbursements (committed w))\<rparr>)" by auto
    note row = open_row_found[OF Some]
    have "ledger (committed w) i = Some (entry_of r)" using ledger_row(2)[OF db_okD(1)[OF ok], of r] row by simp
    moreover have "ledger (committed w') = (ledger (committed w))(i \<mapsto> entry_of (decide_row (dec_Status dec) a nt t r))"
      using ledger_update[OF db_okD(1)[OF ok]] row by (subst ledger_same[OF d]) (auto simp: decide_row_def)
    moreover have "dec_Status dec \<noteq> StatusPending" using decision_columns(1)[OF dec(1) note_ok] by auto
    ultimately show ?thesis using run row open_entry(1)[of i r] open_entry(3)[of i r]
      by (simp add: observe_def spec_decide_def)
  qed
qed


lemma delete_body_run:
  assumes ready: "finalization_ready P a q (committed w)"
  shows "\<exists>before. delete_body P a q i (started P w)
       = delete_logged P a q i before ((started P w)\<lparr>calls := calls w + 2\<rparr>)
     \<and> (\<forall>r. first_where (open_row i) (disbursements (committed w)) = Some r \<longrightarrow> before = mapDBDisbursementToDomain r)"
proof (cases "first_where (\<lambda>s. row_ID s = i \<and> row_DeletedAt s = None) (disbursements (committed w))")
  case None
  then have "first_where (open_row i) (disbursements (committed w)) = None"
    by (auto simp: first_where_None open_row_def)
  then show ?thesis using ready None
    by (simp add: delete_body_def handle_def FindByID_run finalization_ready_def disbursement_not_found_def numeral_2_eq_2)
       blast
next
  case (Some r)
  have "r = r'" if "first_where (open_row i) (disbursements (committed w)) = Some r'" for r'
    using Some lookups(1)[OF db_okD(1), of "committed w" r'] open_row_found[OF that] ready
    by (auto simp: finalization_ready_def open_row_def)
  then show ?thesis using ready Some
    by (simp add: delete_body_def handle_def FindByID_run finalization_ready_def numeral_2_eq_2) blast
qed

lemma SoftDelete_deletes:
  assumes ready: "finalization_ready P a q (committed w)"
    and r: "first_where (open_row i) (disbursements (committed w)) = Some r"
  shows "\<exists>x w' t. Service_SoftDelete P a q i w = (Inr (x, False), w')
    \<and> disbursements (committed w') = update_where (open_row i) (delete_row t) (disbursements (committed w))"
proof -
  from ready have f: "faultless P" by (simp add: finalization_ready_def)
  let ?w = "(started P w)\<lparr>calls := calls w + 2\<rparr>"
  have w: "working ?w = Some (committed w)" by simp
  obtain x w1 t ob where "delete_body P a q i (started P w) = (Inr (x, False), w1)"
    and w1: "working w1 = Some ((committed w)\<lparr>disbursements := update_where (open_row i) (delete_row t) (disbursements (committed w)),
        audit_outbox := audit_outbox (committed w) @ [ob]\<rparr>)"
    using delete_logged_deletes[OF ready w r] delete_body_run[OF ready] r by metis
  from transaction_commits[of P "delete_body P a q i" w, OF f this] show ?thesis
    by (auto simp: Service_SoftDelete_def handle_def ok_def)
qed

text \<open>
  C16. Functional correctness of \<open>SoftDelete\<close>: without faults it does to the tables and reports
  exactly what the ledger specification says. An entry awaiting a decision is removed; a removed
  one is reported as already deleted, so a repeated delete succeeds and changes nothing; a decided
  one is refused with \<open>DISBURSEMENT_NOT_DELETABLE\<close>, an unknown one with \<open>DISBURSEMENT_NOT_FOUND\<close>.
  The refusal carries status 400, as the code has it; the error table of \<open>README.md\<close> says 409.
\<close>

theorem delete_refines_spec:
  assumes ready: "finalization_ready P a q (committed w)"
  shows "case Service_SoftDelete P a q i w of (r, w') \<Rightarrow>
     (observe snd r, ledger (committed w')) = spec_delete i (ledger (committed w))"
proof -
  from ready have f: "faultless P" and ok: "db_ok (committed w)" by (simp_all add: finalization_ready_def)
  let ?w = "(started P w)\<lparr>calls := calls w + 2\<rparr>"
  have w: "working ?w = Some (committed w)" by simp
  obtain before where body: "delete_body P a q i (started P w) = delete_logged P a q i before ?w"
    and before: "\<And>r. first_where (open_row i) (disbursements (committed w)) = Some r \<Longrightarrow> before = mapDBDisbursementToDomain r"
    using delete_body_run[OF ready] by blast
  show ?thesis
  proof (cases "first_where (open_row i) (disbursements (committed w))")
    case None
    note log = delete_logged_fails[OF f w ok None, of a q before]
    show ?thesis
    proof (cases "fst (delete_logged P a q i before ?w)")
      case (Inl e)
      then obtain w1 where "delete_body P a q i (started P w) = (Inl e, w1)" using body by (metis prod.collapse)
      from transaction_fails[OF f tx_only_delete_body this] obtain w' where
        "Service_SoftDelete P a q i w = (Inl (mapRepositoryError e), w')" "committed w' = committed w"
        by (auto simp: Service_SoftDelete_def handle_def fail_def)
      with ok Inl log None show ?thesis
        by (cases rule: ledger_cases[where i = i])
           (auto simp: observe_def spec_delete_def AsError_def entry_of_def phase_of_def open_row_def StatusPending_def
             mapRepositoryError_def disbursement_not_found_def split: if_splits)
    next
      case (Inr x)
      have "delete_body P a q i (started P w) = (Inr x, ?w\<lparr>calls := calls ?w + 3\<rparr>)" using body log Inr by (simp add: prod_eq_iff)
      from transaction_commits[of P "delete_body P a q i" w, OF f this, of "committed w"] obtain w' where
        "Service_SoftDelete P a q i w = (Inr x, w')" "committed w' = committed w"
        by (auto simp: Service_SoftDelete_def handle_def ok_def)
      with ok Inr log show ?thesis
        by (cases rule: ledger_cases[where i = i])
           (auto simp: observe_def spec_delete_def entry_of_def phase_of_def split: if_splits)
    qed
  next
    case (Some r)
    from SoftDelete_deletes[OF ready Some] obtain x w' t where
      run: "Service_SoftDelete P a q i w = (Inr (x, False), w')" and
      d: "disbursements (committed w') = disbursements ((committed w)\<lparr>disbursements :=
            update_where (open_row i) (delete_row t) (disbursements (committed w))\<rparr>)" by auto
    note row = open_row_found[OF Some]
    have "ledger (committed w) i = Some (entry_of r)" using ledger_row(2)[OF db_okD(1)[OF ok], of r] row by simp
    moreover have "ledger (committed w') = (ledger (committed w))(i \<mapsto> entry_of (delete_row t r))"
      using ledger_update[OF db_okD(1)[OF ok]] row by (subst ledger_same[OF d]) (auto simp: delete_row_def)
    ultimately show ?thesis using run row open_entry(1,2)[of i r] by (simp add: observe_def spec_delete_def)
  qed
qed


section \<open>A concrete run\<close>

definition demo_row :: dbDisbursement where
  "demo_row =
     \<lparr>row_ID = 5, row_RecipientName = ''Budi'', row_AccountNumber = ''1234567890'', row_BankCode = ''BCA'',
      row_Amount = 150000, row_AdminFee = 2500, row_Status = ''PENDING'', row_Note = None, row_CreatedBy = demo_user,
      row_DecidedBy = None, row_DecisionNote = None, row_DecidedAt = None, row_DeletedAt = None,
      row_CreatedAt = Second, row_UpdatedAt = Second\<rparr>"

definition stored_db :: database where
  "stored_db = demo_db\<lparr>disbursements := [demo_row]\<rparr>"

definition demo_decision :: Decision where
  "demo_decision = \<lparr>dec_Status = StatusApproved, dec_ActorID = uuid_Nil, dec_Note = ''''\<rparr>"

lemma stored_ready: "finalization_ready demo demo_user demo_request stored_db"
proof -
  have t: "demo_time n div 1000 * 1000 \<noteq> 0" for n by (simp add: demo_time_def)
  have "disbursement_check demo_row" "no_nul_texts (mapDBDisbursementToDomain demo_row)" unfolding demo_row_def by code_simp+
  then have "db_ok stored_db" "row_auditable demo demo_row"
    by (simp_all add: db_ok_def stored_db_def demo_db_def unique_by_def user_exists_def row_auditable_def printable_time_def)
       (simp_all add: demo_row_def)
  moreover have "user_exists stored_db demo_user" by (simp add: stored_db_def)
  ultimately show ?thesis using t
    by (simp only: finalization_ready_def demo_ok demo_ids) (simp add: stored_db_def printable_time_def)
qed

lemma stored_entry: "ledger stored_db 5 = Some \<lparr>le_amount = 150000, le_fee = 2500, le_creator = demo_user, le_phase = Awaiting\<rparr>"
  by (simp add: ledger_def stored_db_def single_row entry_of_def phase_of_def demo_row_def StatusPending_def)

theorem update_refines_spec_witness:
  "case Service_UpdateStatus demo demo_user demo_request 5 demo_decision (in_world stored_db) of (r, w') \<Rightarrow>
     observe (\<lambda>_. ()) r = Inr () \<and> ledger (committed w') 5 = Some \<lparr>le_amount = 150000, le_fee = 2500,
       le_creator = demo_user, le_phase = Decided StatusApproved demo_user\<rparr>"
proof -
  have "RuneCountInString '''' = 0" "pg_text_ok ''''" by code_simp+
  then have "Decision_Validate (demo_decision\<lparr>dec_ActorID := demo_user\<rparr>) = None" "pg_text_ok (dec_Note demo_decision)"
    by (simp_all add: Decision_Validate_def demo_decision_def)
  then show ?thesis
    using update_refines_spec[of demo demo_user demo_request "in_world stored_db" demo_decision 5] stored_ready stored_entry
    by (simp add: spec_decide_def demo_decision_def split: prod.splits)
qed

theorem delete_refines_spec_witness:
  "case Service_SoftDelete demo demo_user demo_request 5 (in_world stored_db) of (r, w') \<Rightarrow>
     observe snd r = Inr False \<and> map_option le_phase (ledger (committed w') 5) = Some Removed"
  using delete_refines_spec[of demo demo_user demo_request "in_world stored_db" 5] stored_ready stored_entry
  by (simp add: spec_delete_def split: prod.splits)

end
