(* ===== verification/Audit_Relay.thy ===== *)
theory Audit_Relay
  imports Outbox_Store
begin

text \<open>
  \<open>internal/service/audit/relay.go\<close>: the relay that moves audit events from the outbox to the audit
  log, reconciles and cleans the outbox. Log lines have no effect on the state and are left out;
  the metrics reporter is the collector of the world.
\<close>

section \<open>Batches\<close>

record RelayConfig =
  rc_WarningAge :: duration
  rc_ReconciliationInterval :: duration
  rc_OutboxRetention :: duration
  rc_CriticalAge :: duration

record ReconciliationReport =
  rr_WarningCount :: int
  rr_CriticalCount :: int

text \<open>\<open>ctx.Err()\<close>\<close>

definition check_context :: "platform \<Rightarrow> unit go" where
  "check_context P = (\<lambda>w.
     (case ctx_Err P (calls w) of None \<Rightarrow> Inr () | Some e \<Rightarrow> Inl (DriverError e),
      w\<lparr>calls := Suc (calls w)\<rparr>))"

text \<open>One turn of the loop, for one event; the result is whether the event counts as processed.\<close>

definition process_event :: "platform \<Rightarrow> AuditEvent \<Rightarrow> bool go" where
  "process_event P event =
     handle (AuditProjectionStore_InsertProjection P False event) (\<lambda>r. case r of
       Inl err \<Rightarrow>
         andThen (record_metric RecordDeliveryFailure) (\<lambda>_.
         andThen (read_clock P) (\<lambda>now.
         handle (AuditOutboxStore_RecordFailure P (ev_EventID event) (error_text P err) (now + 5 * Second)) (\<lambda>_.
         ok False)))
     | Inr _ \<Rightarrow>
         andThen (read_clock P) (\<lambda>now.
         handle (AuditOutboxStore_MarkDelivered P (ev_EventID event) now) (\<lambda>r'. case r' of
           Inl _ \<Rightarrow> andThen (record_metric RecordDeliveryFailure) (\<lambda>_. ok False)
         | Inr _ \<Rightarrow> andThen (record_metric RecordDeliverySuccess) (\<lambda>_. ok True))))"

text \<open>The loop; it returns the count together with the error that ended it, if any.\<close>

fun process_events :: "platform \<Rightarrow> AuditEvent list \<Rightarrow> int \<Rightarrow> (int \<times> go_error option) go" where
  "process_events P [] processedCount = ok (processedCount, None)"
| "process_events P (event # rest) processedCount =
     handle (check_context P) (\<lambda>r. case r of
       Inl err \<Rightarrow> ok (processedCount, Some err)
     | Inr _ \<Rightarrow>
         andThen (process_event P event) (\<lambda>done.
         process_events P rest (if done then processedCount + 1 else processedCount)))"

definition ProcessBatch :: "platform \<Rightarrow> duration \<Rightarrow> int \<Rightarrow> (int \<times> go_error option) go" where
  "ProcessBatch P leaseDuration batchSize0 =
     (let batchSize = (if batchSize0 \<le> 0 then 50 else batchSize0)
      in handle (AuditOutboxStore_FetchPending P leaseDuration batchSize) (\<lambda>r. case r of
           Inl err \<Rightarrow> ok (0, Some (WrapError ''fetch pending outbox events'' err))
         | Inr events \<Rightarrow>
             andThen (record_metric (SetBacklogDepth (int (length events)))) (\<lambda>_.
             if events = [] then ok (0, None) else process_events P events 0)))"

section \<open>Reconciliation and cleanup\<close>

definition Reconcile :: "platform \<Rightarrow> RelayConfig \<Rightarrow> ReconciliationReport go" where
  "Reconcile P cfg =
     handle (AuditOutboxStore_ReconcilePending P (rc_WarningAge cfg) (rc_CriticalAge cfg)) (\<lambda>r. case r of
       Inl err \<Rightarrow> fail (WrapError ''outbox reconciliation failed'' err)
     | Inr (warningCount, criticalCount) \<Rightarrow>
         andThen (record_metric (SetReconciliationCounts warningCount criticalCount)) (\<lambda>_.
         ok \<lparr>rr_WarningCount = warningCount, rr_CriticalCount = criticalCount\<rparr>))"

definition Cleanup :: "platform \<Rightarrow> RelayConfig \<Rightarrow> int go" where
  "Cleanup P cfg =
     handle (AuditOutboxStore_CleanupDelivered P (rc_OutboxRetention cfg)) (\<lambda>r. case r of
       Inl err \<Rightarrow> fail (WrapError ''outbox cleanup failed'' err)
     | Inr cleaned \<Rightarrow> ok cleaned)"

section \<open>What the relay keeps\<close>

text \<open>
  What the relay's operations keep, given that one turn of its loop keeps it; a relation that all
  statements keep is one such.
\<close>

locale relay_evolution = outbox_relay +
  assumes evolves_process_event: "evolves R (process_event P event)"
begin

lemma evolves_check_context: "evolves R (check_context P)"
  by (rule evolvesI) (auto simp: check_context_def evo_refl)

lemma evolves_process_events: "evolves R (process_events P events n)"
  by (induction events arbitrary: n)
     (auto split: sum.splits intro!: evo_intros evolves_check_context evolves_process_event)

lemma evolves_ProcessBatch: "evolves R (ProcessBatch P leaseDuration n)"
  unfolding ProcessBatch_def Let_def
  by (auto split: sum.splits intro!: evo_intros evolves_FetchPending evolves_process_events)

lemma evolves_Reconcile: "evolves R (Reconcile P cfg)"
  unfolding Reconcile_def
  by (auto split: sum.splits prod.splits intro!: evo_intros evolves_ReconcilePending)

lemma evolves_Cleanup: "evolves R (Cleanup P cfg)"
  unfolding Cleanup_def
  by (auto split: sum.splits intro!: evo_intros evolves_CleanupDelivered)

end

sublocale outbox_evolution \<subseteq> relay_evolution
proof unfold_locales
  fix P event
  show "evolves R (process_event P event)"
    unfolding process_event_def
    by (auto split: sum.splits
          intro!: evo_intros evolves_InsertProjection evolves_RecordFailure evolves_MarkDelivered)
qed

section \<open>No event is lost\<close>

text \<open>
  An event that is marked delivered is in the audit log; the identifiers of the recorded events
  are those of the outbox and of the log.
\<close>

definition projected :: "database \<Rightarrow> bool" where
  "projected d \<longleftrightarrow>
     (\<forall>r \<in> set (audit_outbox d). ob_delivery_state r = DeliveryDelivered \<longrightarrow> ob_id r \<in> ev_EventID ` set (audit_logs d))"

definition recorded_events :: "database \<Rightarrow> uuid set" where
  "recorded_events d = ob_id ` set (audit_outbox d) \<union> ev_EventID ` set (audit_logs d)"

definition events_kept :: "database \<Rightarrow> database \<Rightarrow> bool" where
  "events_kept d d' \<longleftrightarrow> (projected d \<longrightarrow> projected d' \<and> recorded_events d \<subseteq> recorded_events d')"

lemma events_kept_refl: "events_kept d d"
  by (simp add: events_kept_def)

lemma events_kept_trans: "events_kept a b \<Longrightarrow> events_kept b c \<Longrightarrow> events_kept a c"
  by (auto simp: events_kept_def)

lemma events_kept_same:
  "audit_outbox d' = audit_outbox d \<Longrightarrow> audit_logs d' = audit_logs d \<Longrightarrow> events_kept d d'"
  by (simp add: events_kept_def projected_def recorded_events_def)

text \<open>Rewriting outbox rows keeps the events, when it delivers only projected ones.\<close>

lemma events_kept_update:
  assumes "\<And>r. ob_id (f r) = ob_id r"
    and "\<And>r. r \<in> set (audit_outbox d) \<Longrightarrow> p r \<Longrightarrow> ob_delivery_state (f r) = DeliveryDelivered \<Longrightarrow>
           ob_delivery_state r = DeliveryDelivered \<or> ob_id r \<in> ev_EventID ` set (audit_logs d)"
  shows "events_kept d (d\<lparr>audit_outbox := update_where p f (audit_outbox d)\<rparr>)"
proof -
  have "ob_id ` set (update_where p f (audit_outbox d)) = ob_id ` set (audit_outbox d)"
    using map_update_where_key[of p ob_id f "audit_outbox d"] assms(1) by (metis image_set)
  moreover have "ob_id x \<in> ev_EventID ` set (audit_logs d)"
    if pr: "projected d" and x: "x \<in> set (update_where p f (audit_outbox d))" "ob_delivery_state x = DeliveryDelivered" for x
  proof -
    obtain r where r: "r \<in> set (audit_outbox d)" "p r \<and> x = f r \<or> \<not> p r \<and> x = r" using in_update_where[OF x(1)] by blast
    then have "ob_delivery_state r = DeliveryDelivered \<or> ob_id r \<in> ev_EventID ` set (audit_logs d)"
      using assms(2) x(2) by blast
    then show ?thesis using pr r assms(1) unfolding projected_def by metis
  qed
  ultimately show ?thesis by (simp add: events_kept_def recorded_events_def) (simp add: projected_def)
qed

lemma mark_projected:
  assumes "i \<in> ev_EventID ` set (audit_logs d)"
  shows "events_kept d (snd (markOutboxDelivered P i at t d))"
  using assms unfolding markOutboxDelivered_def
  by (auto simp: events_kept_refl pending_event_def deliver_row_def ob_id_def intro!: events_kept_update)


interpretation events: outbox_relay events_kept
proof (unfold_locales, goal_cases)
  case (1 d)
  show ?case by (rule events_kept_refl)
next
  case (2 a b c)
  then show ?case by (rule events_kept_trans)
next
  case (3 d P event t)
  show ?case unfolding insertAuditOutboxEvent_def
    by (auto simp: events_kept_def projected_def recorded_events_def new_outbox_row_def split: sum.splits)
next
  case (4 d P rank locked leaseUntil now limit t)
  show ?case unfolding fetchPendingOutboxEvents_def
    by (auto simp: events_kept_refl Let_def ob_id_def intro!: events_kept_update)
next
  case (5 d P i message at t)
  show ?case unfolding recordOutboxFailure_def
    by (auto simp: events_kept_refl ob_id_def fail_row_def split: sum.splits intro!: events_kept_update)
next
  case (6 d P cutoff t)
  show ?case unfolding cleanupDeliveredOutbox_def
    by (auto simp: events_kept_def projected_def recorded_events_def delivered_before_def)
next
  case (7 d P event t)
  show ?case unfolding insertAuditProjectionLog_def
    by (auto simp: events_kept_def projected_def recorded_events_def split: sum.splits)
qed

text \<open>A projection that succeeded left a log entry of the event, and so one turn of the loop keeps the events.\<close>

lemma InsertProjection_logged:
  assumes "AuditProjectionStore_InsertProjection P False event w = (Inr u, w')"
  shows "ev_EventID event \<in> ev_EventID ` set (audit_logs (committed w'))"
  using assms
  by (auto simp: AuditProjectionStore_InsertProjection_def classified_Inr pool_exec_Inr insertAuditProjectionLog_def
        dest: convert_event_Inr(1) split: sum.splits if_splits) (metis convert_event_Inr(1) image_eqI)

text \<open>What the rest of the turn keeps once event \<open>i\<close> is in the log.\<close>

definition kept_after :: "uuid \<Rightarrow> database \<Rightarrow> database \<Rightarrow> bool" where
  "kept_after i d d' \<longleftrightarrow>
     (i \<in> ev_EventID ` set (audit_logs d) \<longrightarrow> events_kept d d' \<and> i \<in> ev_EventID ` set (audit_logs d'))"

interpretation after: db_evolution "kept_after i" for i
  by unfold_locales (auto simp: kept_after_def intro: events_kept_refl events_kept_trans)

lemma evolves_marked: "evolves (kept_after i) (AuditOutboxStore_MarkDelivered P i at)"
proof -
  have "kept_after i d (snd (markOutboxDelivered P i at' t d))" for d at' t
    using mark_projected[of i d P at' t] by (auto simp: kept_after_def markOutboxDelivered_def)
  then show ?thesis unfolding AuditOutboxStore_MarkDelivered_def
    by (auto split: sum.splits intro!: after.evo_intros)
qed

text \<open>Computations through the pool leave an open transaction alone.\<close>

definition pool_only :: "'a go \<Rightarrow> bool" where
  "pool_only m \<longleftrightarrow> (\<forall>w. working (snd (m w)) = working w)"

lemma pool_only_intros:
  "pool_only (ok x)" "pool_only (fail e)" "pool_only (read_clock P)" "pool_only (record_metric f)" "pool_only (pool_exec P st)"
  "pool_only m \<Longrightarrow> (\<And>r. pool_only (k r)) \<Longrightarrow> pool_only (handle m k)"
  "pool_only n \<Longrightarrow> (\<And>x. pool_only (l x)) \<Longrightarrow> pool_only (andThen n l)"
  by (auto simp: pool_only_def go_unfold pool_exec_def Let_def split: prod.split sum.split option.splits db_fault.splits)
     (metis prod.sel(2))+

lemma pool_only_process_event: "pool_only (process_event P event)"
  unfolding process_event_def AuditProjectionStore_InsertProjection_def AuditOutboxStore_RecordFailure_def
    AuditOutboxStore_MarkDelivered_def
  by (auto split: sum.splits intro!: pool_only_intros)

interpretation events: relay_evolution events_kept
proof (unfold_locales, rule evolvesI)
  fix P w and event :: AuditEvent
  let ?after = "\<lambda>r. case r of
       Inl err \<Rightarrow>
         andThen (record_metric RecordDeliveryFailure) (\<lambda>_.
         andThen (read_clock P) (\<lambda>now.
         handle (AuditOutboxStore_RecordFailure P (ev_EventID event) (error_text P err) (now + 5 * Second)) (\<lambda>_. ok False)))
     | Inr _ \<Rightarrow>
         andThen (read_clock P) (\<lambda>now.
         handle (AuditOutboxStore_MarkDelivered P (ev_EventID event) now) (\<lambda>r'. case r' of
           Inl _ \<Rightarrow> andThen (record_metric RecordDeliveryFailure) (\<lambda>_. ok False)
         | Inr _ \<Rightarrow> andThen (record_metric RecordDeliverySuccess) (\<lambda>_. ok True)))"
  obtain r w1 where p: "AuditProjectionStore_InsertProjection P False event w = (r, w1)" by force
  have 1: "events_kept (committed w) (committed w1)"
    using evolvesD(1)[OF events.evolves_InsertProjection, of w P False event] p by simp
  have 2: "events_kept (committed w1) (committed (snd (?after r w1)))"
  proof (cases r)
    case (Inl e)
    have "evolves events_kept (?after (Inl e))"
      by (auto intro!: events.evo_intros events.evolves_RecordFailure)
    from evolvesD(1)[OF this, of w1] Inl show ?thesis by simp
  next
    case (Inr u)
    have "evolves (kept_after (ev_EventID event)) (?after (Inr u))"
      by (auto split: sum.splits intro!: after.evo_intros evolves_marked)
    from evolvesD(1)[OF this, of w1] Inr InsertProjection_logged[OF p[unfolded Inr]] show ?thesis
      by (simp add: kept_after_def)
  qed
  have run: "process_event P event w = ?after r w1" by (simp add: process_event_def handle_eq p)
  from events_kept_trans[OF 1 2] show "events_kept (committed w) (committed (snd (process_event P event w)))"
    unfolding run .
qed (use pool_only_process_event in \<open>simp_all add: pool_only_def events_kept_refl\<close>)

end
