(* ===== verification/Relay_Delivery.thy ===== *)
theory Relay_Delivery
  imports Audit_Relay Scenario
begin

text \<open>
  Progress of the audit relay: without faults a batch delivers the events it fetched, so that as
  many events as fit the batch leave the backlog, each with its entry in the audit log; the
  bounds of the reconciliation report.
\<close>

section \<open>Fetching\<close>

lemma insert_ordered_set [simp]: "set (insert_ordered le x ys) = insert x (set ys)"
  by (induction ys) auto

lemma insert_ordered_length [simp]: "length (insert_ordered le x ys) = Suc (length ys)"
  by (induction ys) auto

lemma insert_ordered_distinct: "distinct (map f (insert_ordered le x ys)) \<longleftrightarrow> distinct (map f (x # ys))"
  by (induction ys) auto

lemma order_rows_facts:
  "set (order_rows le xs) = set xs" "length (order_rows le xs) = length xs"
  "distinct (map f (order_rows le xs)) = distinct (map f xs)"
proof -
  show s: "set (order_rows le xs) = set xs" for xs by (induction xs) (auto simp: order_rows_def)
  show "length (order_rows le xs) = length xs" by (induction xs) (auto simp: order_rows_def)
  show "distinct (map f (order_rows le xs)) = distinct (map f xs)"
  proof (induction xs)
    case (Cons x xs)
    have "order_rows le (x # xs) = insert_ordered le x (order_rows le xs)" by (simp add: order_rows_def)
    then show ?case using Cons s[of xs] by (simp add: insert_ordered_distinct)
  qed (simp add: order_rows_def)
qed

lemma pick_due_facts:
  assumes "unique_by ob_id rows"
  shows "set (pick_due rank locked now n rows) \<subseteq> {r \<in> set rows. outbox_due now r}"
    and "distinct (map ob_id (pick_due rank locked now n rows))"
    and "(\<forall>i. \<not> locked i) \<Longrightarrow> length (pick_due rank locked now n rows) = min n (affected (outbox_due now) rows)"
proof -
  let ?sel = "select_where (\<lambda>r. outbox_due now r \<and> \<not> locked (ob_id r)) rows"
  show "set (pick_due rank locked now n rows) \<subseteq> {r \<in> set rows. outbox_due now r}"
    using set_take_subset[of n "order_rows (outbox_before rank) ?sel"]
    by (auto simp: pick_due_def order_rows_facts(1))
  have "distinct (map ob_id (order_rows (outbox_before rank) ?sel))"
    using assms by (simp add: order_rows_facts(3) select_where_def unique_by_def distinct_map_filter)
  then show "distinct (map ob_id (pick_due rank locked now n rows))"
    by (simp add: pick_due_def take_map[symmetric])
  show "length (pick_due rank locked now n rows) = min n (affected (outbox_due now) rows)" if "\<forall>i. \<not> locked i"
    using that by (simp add: pick_due_def order_rows_facts(2) select_where_def affected_def)
qed

section \<open>One event\<close>

text \<open>The events that wait in the outbox.\<close>

definition backlog :: "database \<Rightarrow> uuid set" where
  "backlog d = ob_id ` {r \<in> set (audit_outbox d). ob_delivery_state r = DeliveryPending}"

definition logged :: "database \<Rightarrow> uuid set" where
  "logged d = ev_EventID ` set (audit_logs d)"

text \<open>An event that the columns of the log accept and whose row can count one more attempt.\<close>

definition deliverable :: "platform \<Rightarrow> database \<Rightarrow> AuditEvent \<Rightarrow> bool" where
  "deliverable P d e \<longleftrightarrow>
     \<not> incomplete_event e \<and> (\<exists>ev. convert_event P e = Inr ev) \<and> user_exists d (ev_ActorID e)
     \<and> (\<forall>r \<in> set (audit_outbox d). pending_event (ev_EventID e) r \<longrightarrow> \<not> attempts_full r)"

lemma backlog_mark:
  assumes "d' = d\<lparr>audit_outbox := update_where (pending_event i) (deliver_row t) (audit_outbox d)\<rparr>"
  shows "backlog d' = backlog d - {i}"
proof -
  have "r' \<in> set (audit_outbox d')
      \<and> ob_delivery_state r' = DeliveryPending \<longleftrightarrow> r' \<in> set (audit_outbox d) \<and> ob_delivery_state r' = DeliveryPending \<and> ob_id r' \<noteq> i" for r'
    by (force simp: assms update_where_def pending_event_def deliver_row_def image_iff)
  then show ?thesis by (auto simp: backlog_def)
qed

lemma process_event_run:
  assumes f: "faultless P" and e: "deliverable P (committed w) e"
  shows "\<exists>w'. process_event P e w = (Inr True, w') \<and> backlog (committed w') = backlog (committed w) - {ev_EventID e}
     \<and> logged (committed w') = insert (ev_EventID e) (logged (committed w))
     \<and> (\<forall>x. deliverable P (committed w) x \<longrightarrow> ev_EventID x \<noteq> ev_EventID e \<longrightarrow> deliverable P (committed w') x)"
proof -
  let ?i = "ev_EventID e" and ?d = "committed w"
  from e obtain ev where ev: "convert_event P e = Inr ev" "\<not> incomplete_event e" "user_exists ?d (ev_ActorID e)"
    and full: "\<not> (\<exists>r \<in> set (audit_outbox ?d). pending_event ?i r \<and> attempts_full r)" by (auto simp: deliverable_def)
  define d1 where "d1 = (if \<exists>l \<in> set (audit_logs ?d). ev_EventID l = ?i then ?d else ?d\<lparr>audit_logs := audit_logs ?d @ [ev]\<rparr>)"
  have d1: "audit_outbox d1 = audit_outbox ?d" "users d1 = users ?d" "logged d1 = insert ?i (logged ?d)"
    using convert_event_Inr(1)[OF ev(1)] by (auto simp: d1_def logged_def) (metis rev_image_eqI)
  let ?w1 = "w\<lparr>calls := Suc (calls w), committed := d1\<rparr>"
  have 1: "AuditProjectionStore_InsertProjection P False e w = (Inr (), ?w1)"
    using ev convert_event_Inr(1,3)[OF ev(1)]
    by (auto simp: AuditProjectionStore_InsertProjection_def handle_def pool_exec_faultless[OF f] insertAuditProjectionLog_def
          ok_def fail_def d1_def)
  have "\<exists>at n. AuditOutboxStore_MarkDelivered P ?i now v = (Inr (), v\<lparr>calls := n, committed :=
      (committed v)\<lparr>audit_outbox := update_where (pending_event ?i) (deliver_row at) (audit_outbox (committed v))\<rparr>\<rparr>)"
    if "audit_outbox (committed v) = audit_outbox ?d" for v now
    using that full ev(2)
    by (cases "IsZero now")
       (auto simp: AuditOutboxStore_MarkDelivered_def andThen_def handle_def read_clock_def ok_def fail_def
          pool_exec_faultless[OF f] markOutboxDelivered_def incomplete_event_def)
  from this[of "?w1\<lparr>calls := Suc (Suc (calls w))\<rparr>" "time_Now P (Suc (calls w))"] d1(1) obtain at n where
    2: "AuditOutboxStore_MarkDelivered P ?i (time_Now P (Suc (calls w))) (?w1\<lparr>calls := Suc (Suc (calls w))\<rparr>)
      = (Inr (), ?w1\<lparr>calls := n, committed := d1\<lparr>audit_outbox :=
           update_where (pending_event ?i) (deliver_row at) (audit_outbox d1)\<rparr>\<rparr>)" by auto
  define d2 where "d2 = d1\<lparr>audit_outbox := update_where (pending_event ?i) (deliver_row at) (audit_outbox d1)\<rparr>"
  have "process_event P e w = (Inr True, ?w1\<lparr>calls := n, committed := d2, collector := map_option RecordDeliverySuccess (collector w)\<rparr>)"
    using 1 2 by (simp add: process_event_def andThen_def handle_def read_clock_def record_metric_def ok_def d2_def)
  moreover have "backlog d2 = backlog ?d - {?i}" "logged d2 = insert ?i (logged ?d)"
    using backlog_mark[OF d2_def] d1 by (auto simp: backlog_def d2_def logged_def)
  moreover have "deliverable P d2 x" if "deliverable P ?d x" "ev_EventID x \<noteq> ?i" for x
    using that d1(1,2) by (auto simp: deliverable_def d2_def user_exists_def pending_event_def deliver_row_def ob_id_def
        dest!: in_update_where)
  ultimately show ?thesis by auto
qed

section \<open>A batch\<close>

lemma process_events_run:
  assumes "faultless P" "\<forall>n. ctx_Err P n = None" "distinct (map ev_EventID es)" "\<forall>e \<in> set es. deliverable P (committed w) e"
  shows "\<exists>w'. process_events P es n w = (Inr (n + int (length es), None), w')
     \<and> backlog (committed w') = backlog (committed w) - ev_EventID ` set es
     \<and> logged (committed w') = ev_EventID ` set es \<union> logged (committed w)"
  using assms(3,4)
proof (induction es arbitrary: n w)
  case Nil
  then show ?case by (simp add: ok_def)
next
  case (Cons e es)
  let ?w = "w\<lparr>calls := Suc (calls w)\<rparr>"
  have "deliverable P (committed ?w) e" using Cons.prems(2) by simp
  from process_event_run[OF assms(1) this] obtain w1 where
    1: "process_event P e ?w = (Inr True, w1)" "backlog (committed w1) = backlog (committed w) - {ev_EventID e}"
      "logged (committed w1) = insert (ev_EventID e) (logged (committed w))"
      "\<forall>x. deliverable P (committed w) x \<longrightarrow> ev_EventID x \<noteq> ev_EventID e \<longrightarrow> deliverable P (committed w1) x" by auto
  have "\<forall>x \<in> set es. deliverable P (committed w1) x"
    using 1(4) Cons.prems by (auto simp: image_iff)
  from Cons.IH[OF _ this, of "n + 1"] Cons.prems(1) obtain w' where
    "process_events P es (n + 1) w1 = (Inr (n + 1 + int (length es), None), w')"
    "backlog (committed w') = backlog (committed w1) - ev_EventID ` set es"
    "logged (committed w') = ev_EventID ` set es \<union> logged (committed w1)" by auto
  then show ?case using 1 assms(2)
    by (auto simp: check_context_def andThen_def handle_def)
qed


lemma lease_keeps:
  assumes "d' = d\<lparr>audit_outbox := update_where p (\<lambda>r. r\<lparr>ob_available_at := t\<rparr>) (audit_outbox d)\<rparr>"
  shows "backlog d' = backlog d" "logged d' = logged d" "deliverable P d e \<Longrightarrow> deliverable P d' e"
proof -
  let ?key = "\<lambda>r. (ob_id r, ob_delivery_state r)"
  have "backlog x = {i. (i, DeliveryPending) \<in> set (map ?key (audit_outbox x))}" for x
    by (force simp: backlog_def)
  moreover have "map ?key (audit_outbox d') = map ?key (audit_outbox d)"
    using map_update_where_key[of p ?key "\<lambda>r. r\<lparr>ob_available_at := t\<rparr>" "audit_outbox d"]
    by (simp add: assms ob_id_def)
  ultimately show "backlog d' = backlog d" by (simp only:)
  show "logged d' = logged d" by (simp add: assms logged_def)
  show "deliverable P d e \<Longrightarrow> deliverable P d' e"
    by (auto simp: assms deliverable_def user_exists_def pending_event_def attempts_full_def ob_id_def dest!: in_update_where)
qed

lemma FetchPending_run:
  assumes "faultless P" "0 < b"
  shows "\<exists>picked w'. AuditOutboxStore_FetchPending P lease b w = (Inr (map ob_event picked), w')
     \<and> (\<exists>p t. committed w' = (committed w)\<lparr>audit_outbox :=
           update_where p (\<lambda>r. r\<lparr>ob_available_at := t\<rparr>) (audit_outbox (committed w))\<rparr>)
     \<and> (\<exists>le. picked = order_rows le (pick_due (row_rank P (Suc (calls w))) (row_locked P (Suc (calls w)))
           (pg_timestamptz P (time_Now P (calls w))) (nat b) (audit_outbox (committed w))))"
  using assms
  by (auto simp: AuditOutboxStore_FetchPending_def andThen_def handle_def read_clock_def ok_def pool_exec_faultless
        fetchPendingOutboxEvents_def Let_def)

text \<open>
  C18. Progress of the relay: without faults, a batch of size \<open>b\<close> processes \<open>min b k\<close> of the \<open>k\<close>
  events that are due, reports that number, and exactly these events leave the backlog, each with
  an entry in the audit log. In particular a batch that is large enough drains the backlog.
\<close>

theorem relay_delivers_batch:
  assumes f: "faultless P" and ctx: "\<forall>n. ctx_Err P n = None" and free: "\<forall>n i. \<not> row_locked P n i"
    and ok: "db_ok (committed w)" and b: "0 < b"
    and del: "\<forall>r \<in> set (audit_outbox (committed w)). outbox_due (pg_timestamptz P (time_Now P (calls w))) r
                \<longrightarrow> deliverable P (committed w) (ob_event r)"
  shows "\<exists>w' ids. ProcessBatch P lease b w = (Inr (int (card ids), None), w')
     \<and> card ids = min (nat b) (affected (outbox_due (pg_timestamptz P (time_Now P (calls w)))) (audit_outbox (committed w)))
     \<and> ids \<subseteq> backlog (committed w) \<and> backlog (committed w') = backlog (committed w) - ids
     \<and> logged (committed w') = ids \<union> logged (committed w)"
proof -
  let ?now = "pg_timestamptz P (time_Now P (calls w))" and ?rows = "audit_outbox (committed w)"
  obtain picked w1 p t le where fetch: "AuditOutboxStore_FetchPending P lease b w = (Inr (map ob_event picked), w1)"
    and w1: "committed w1 = (committed w)\<lparr>audit_outbox := update_where p (\<lambda>r. r\<lparr>ob_available_at := t\<rparr>) ?rows\<rparr>"
    and picked: "picked = order_rows le (pick_due (row_rank P (Suc (calls w))) (row_locked P (Suc (calls w))) ?now (nat b) ?rows)"
    using FetchPending_run[OF f b, of lease w] by blast
  note pick = pick_due_facts[OF db_okD(3)[OF ok], where rank = "row_rank P (Suc (calls w))"
      and locked = "row_locked P (Suc (calls w))" and now = ?now and n = "nat b"]
  have sub: "set picked \<subseteq> {r \<in> set ?rows. outbox_due ?now r}" using pick(1) by (simp add: picked order_rows_facts(1))
  have ids: "map ev_EventID (map ob_event picked) = map ob_id picked" by (simp add: ob_id_def)
  have dist: "distinct (map ob_id picked)" using pick(2) by (simp add: picked order_rows_facts(3))
  have len: "length picked = min (nat b) (affected (outbox_due ?now) ?rows)"
    using pick(3) free by (simp add: picked order_rows_facts(2))
  let ?w1 = "w1\<lparr>collector := map_option (SetBacklogDepth (int (length picked))) (collector w1)\<rparr>"
  have "\<forall>e \<in> set (map ob_event picked). deliverable P (committed ?w1) e"
    using sub del lease_keeps(3)[OF w1] by auto
  from process_events_run[OF f ctx _ this, of 0, unfolded ids, OF dist] obtain w' where
    run: "process_events P (map ob_event picked) 0 ?w1 = (Inr (int (length picked), None), w')"
    and w': "backlog (committed w') = backlog (committed w) - ob_id ` set picked"
      "logged (committed w') = ob_id ` set picked \<union> logged (committed w)"
    using lease_keeps(1,2)[OF w1] by (auto simp: image_image ob_id_def)
  have "ProcessBatch P lease b w = (Inr (int (length picked), None), w')"
    using fetch run b by (auto simp: ProcessBatch_def handle_def andThen_def record_metric_def Let_def ok_def)
  moreover have "card (ob_id ` set picked) = length picked"
    using dist by (metis distinct_card length_map set_map)
  moreover have "ob_id ` set picked \<subseteq> backlog (committed w)"
    using sub by (auto simp: backlog_def outbox_due_def)
  ultimately show ?thesis using w' len by metis
qed


section \<open>Reconciliation\<close>

lemma affected_mono: "(\<And>r. p r \<Longrightarrow> q r) \<Longrightarrow> affected p rows \<le> affected q rows"
  by (induction rows) (auto simp: affected_def)

lemma reconcile_ages_order:
  assumes "reconcile_ages a c = (minAge, criticalAge)" "3 * a < 2 ^ 63"
  shows "0 < minAge \<and> minAge < criticalAge"
proof -
  have "wrap64 (3 * m) = 3 * m" if "0 < m" "3 * m < 2 ^ 63" for m :: int
    using that by (intro wrap64_id) (simp add: int64_range_def)
  then show ?thesis using assms
    by (auto simp: reconcile_ages_def Let_def fallbackReconcileWarningAge_def fallbackReconcileCriticalMultiplier_def wrap64_def
          split: if_splits)
qed

lemma Reconcile_run:
  assumes "reconcile_ages (rc_WarningAge cfg) (rc_CriticalAge cfg) = (minAge, criticalAge)"
    and "warn = int (affected (pending_since (pg_timestamptz P (time_Now P (calls w) - minAge))) (audit_outbox (committed w)))"
    and "crit = int (affected (pending_since (pg_timestamptz P (time_Now P (calls w) - criticalAge))) (audit_outbox (committed w)))"
  shows "Reconcile P cfg w =
     (case db_fault_at P (Suc (calls w)) of
        None \<Rightarrow> (Inr \<lparr>rr_WarningCount = warn, rr_CriticalCount = crit\<rparr>,
                  w\<lparr>calls := Suc (Suc (calls w)), collector := map_option (SetReconciliationCounts warn crit) (collector w)\<rparr>)
      | Some x \<Rightarrow> (Inl (WrapError ''outbox reconciliation failed''
                  (Classify (DriverError (case x of Refused e \<Rightarrow> e | ReplyLost e \<Rightarrow> e)))), w\<lparr>calls := Suc (Suc (calls w))\<rparr>))"
  using assms
  by (simp add: Reconcile_def AuditOutboxStore_ReconcilePending_def handle_def andThen_def read_clock_def
        pool_exec_def Let_def reconcileOutboxPending_def record_metric_def ok_def fail_def
        split: option.split db_fault.split)

text \<open>
  C22. The reconciliation report is consistent: for a configured warning age below a third of the
  range of \<open>time.Duration\<close>, whatever the other arguments, every critical event is also counted as a
  warning, and both counts are at most the number of pending events. The gauges of the collector
  show the reported numbers.
\<close>

theorem reconcile_bounds:
  assumes "timestamptz_ok P" "3 * rc_WarningAge cfg < 2 ^ 63" "Reconcile P cfg w = (Inr report, w')"
  shows "0 \<le> rr_CriticalCount report \<and> rr_CriticalCount report \<le> rr_WarningCount report
     \<and> rr_WarningCount report \<le> int (affected (\<lambda>r. ob_delivery_state r = DeliveryPending) (audit_outbox (committed w)))
     \<and> pred_option (\<lambda>c. outboxReconcileWarning c = rr_WarningCount report
          \<and> outboxReconcileCritical c = rr_CriticalCount report) (collector w')
     \<and> committed w' = committed w"
proof -
  obtain minAge criticalAge where ages: "reconcile_ages (rc_WarningAge cfg) (rc_CriticalAge cfg) = (minAge, criticalAge)" by force
  let ?now = "time_Now P (calls w)" and ?rows = "audit_outbox (committed w)"
  let ?warn = "affected (pending_since (pg_timestamptz P (?now - minAge))) ?rows"
  let ?crit = "affected (pending_since (pg_timestamptz P (?now - criticalAge))) ?rows"
  from assms(3) have run: "report = \<lparr>rr_WarningCount = int ?warn, rr_CriticalCount = int ?crit\<rparr>"
    "committed w' = committed w" "collector w' = map_option (SetReconciliationCounts (int ?warn) (int ?crit)) (collector w)"
    by (auto simp: Reconcile_run[OF ages refl refl] split: option.splits)
  have "pg_timestamptz P (?now - criticalAge) \<le> pg_timestamptz P (?now - minAge)"
    using assms(1) reconcile_ages_order[OF ages assms(2)] by (simp add: timestamptz_ok_def)
  then have "?crit \<le> ?warn" by (intro affected_mono) (auto simp: pending_since_def)
  moreover have "?warn \<le> affected (\<lambda>r. ob_delivery_state r = DeliveryPending) ?rows"
    by (intro affected_mono) (simp add: pending_since_def)
  ultimately show ?thesis using run by (cases "collector w") (simp_all add: SetReconciliationCounts_def)
qed

section \<open>A concrete run\<close>

definition demo_event :: AuditEvent where
  "demo_event =
     \<lparr>ev_EventID = 11, ev_EntityType = ''disbursement'', ev_EntityID = 5, ev_Action = ''disbursement.created'',
      ev_ActorID = demo_user, ev_RequestID = demo_request, ev_BeforeData = None, ev_AfterData = None, ev_OccurredAt = 1\<rparr>"

definition pending_db :: database where
  "pending_db = demo_db\<lparr>audit_outbox := [new_outbox_row 0 demo_event]\<rparr>"

lemma pending_db_ok: "db_ok pending_db"
  by (simp add: pending_db_def db_ok_def demo_db_def unique_by_def user_exists_def outbox_check_def new_outbox_row_def demo_event_def)

theorem relay_delivers_batch_witness:
  "\<exists>w'. ProcessBatch demo Minute 10 (in_world pending_db) = (Inr (1, None), w')
     \<and> backlog (committed w') = {} \<and> logged (committed w') = {11}"
proof -
  let ?w = "in_world pending_db" and ?now = "pg_timestamptz demo (time_Now demo (calls (in_world pending_db)))"
  have "varchar 64 ''disbursement'' = Inr ''disbursement''" "varchar 64 ''disbursement.created'' = Inr ''disbursement.created''"
    by code_simp+
  then have ev: "convert_event demo demo_event = Inr (demo_event\<lparr>ev_OccurredAt := 0\<rparr>)"
    by (simp add: convert_event_def jsonb_def demo_event_def)
  have rows: "audit_outbox pending_db = [new_outbox_row 0 demo_event]" by (simp add: pending_db_def)
  have "user_exists pending_db demo_user" by (simp add: pending_db_def)
  then have "deliverable demo pending_db demo_event"
    using ev by (simp add: deliverable_def rows) (simp add: incomplete_event_def IsZero_def demo_event_def attempts_full_def new_outbox_row_def)
  then have del: "\<forall>r \<in> set (audit_outbox (committed ?w)). outbox_due ?now r \<longrightarrow> deliverable demo (committed ?w) (ob_event r)"
    by (simp add: rows) (simp add: new_outbox_row_def)
  have one: "affected (outbox_due ?now) (audit_outbox (committed ?w)) = 1"
    by (simp add: affected_def rows new_outbox_row_def outbox_due_def demo_time_def)
  have new: "ob_delivery_state (new_outbox_row 0 demo_event) = DeliveryPending" "ob_id (new_outbox_row 0 demo_event) = 11"
    by (simp_all add: new_outbox_row_def ob_id_def demo_event_def)
  then have "{r \<in> set (audit_outbox pending_db). ob_delivery_state r = DeliveryPending} = {new_outbox_row 0 demo_event}"
    by (auto simp: rows)
  then have before: "backlog pending_db = {11}" "logged pending_db = {}"
    by (simp_all add: backlog_def new logged_def) (simp add: pending_db_def)
  have env: "faultless demo" "\<forall>n. ctx_Err demo n = None" "\<forall>n i. \<not> row_locked demo n i" "db_ok (committed ?w)" "(0::int) < 10"
    using pending_db_ok by simp_all
  from relay_delivers_batch[OF env del, of Minute] obtain w' ids where
    run: "ProcessBatch demo Minute 10 ?w = (Inr (int (card ids), None), w')"
    and ids: "card ids = min (nat 10) (affected (outbox_due ?now) (audit_outbox (committed ?w)))" "ids \<subseteq> backlog (committed ?w)"
    and w': "backlog (committed w') = backlog (committed ?w) - ids" "logged (committed w') = ids \<union> logged (committed ?w)" by blast
  from ids have "card ids = 1" "ids \<subseteq> {11}" unfolding one by (simp_all add: before)
  then have "ids = {11}" by (auto simp: card_1_singleton_iff)
  then show ?thesis using run w' before by auto
qed

definition demo_relay :: RelayConfig where
  "demo_relay = \<lparr>rc_WarningAge = 5 * Minute, rc_ReconciliationInterval = 15 * Minute, rc_OutboxRetention = 24 * Hour,
     rc_CriticalAge = 15 * Minute\<rparr>"

theorem reconcile_bounds_witness:
  "case Reconcile demo demo_relay (in_world pending_db) of (r, w') \<Rightarrow>
     (\<exists>report. r = Inr report \<and> rr_CriticalCount report \<le> rr_WarningCount report \<and> rr_WarningCount report \<le> 1)"
proof -
  obtain report w' where run: "Reconcile demo demo_relay (in_world pending_db) = (Inr report, w')"
    by (cases "reconcile_ages (rc_WarningAge demo_relay) (rc_CriticalAge demo_relay)")
       (auto simp: Reconcile_run[OF _ refl refl])
  have "affected (\<lambda>r. ob_delivery_state r = DeliveryPending) (audit_outbox pending_db) = 1"
    by (simp add: affected_def pending_db_def new_outbox_row_def)
  moreover have "3 * rc_WarningAge demo_relay < 2 ^ 63" by (simp add: demo_relay_def)
  ultimately show ?thesis using reconcile_bounds[OF _ _ run] by (simp add: run)
qed

end
