(* ===== verification/Concurrent_Create.thy ===== *)
theory Concurrent_Create
  imports Idempotent_Create
begin

text \<open>
  Creation by concurrent requests. The requests of any number of clients interleave between their
  database interactions: the insertion of a claim, the transaction that inspects or takes over an
  existing claim, the creating transaction and the release. Each of these is one step here (the
  row lock of \<open>FOR UPDATE\<close> serialises transactions on one key). The step relation does not track
  which client takes a step and lets every step happen at any time with any claim identifier,
  payload and clock reading, with any fault, so it covers every schedule, crashed clients and
  clients that resume after their claim was taken over. The second component records the scope
  and identifier of every disbursement a creating transaction committed.
\<close>

type_synonym create_log = "(IdempotencyScope \<times> uuid) list"

text \<open>\<open>until\<close> bounds the run: requests are made before it, and keys are kept until it.\<close>

definition timely :: "platform \<Rightarrow> time \<Rightarrow> IdempotencyClaimRequest \<Rightarrow> bool" where
  "timely P until request \<longleftrightarrow>
     cr_Now request < until \<and> pg_timestamptz P (cr_Now request) < until
     \<and> until \<le> pg_timestamptz P (cr_ExpiresAt request)
     \<and> varchar 128 (sc_Endpoint (cr_Scope request)) = Inr (sc_Endpoint (cr_Scope request))"

definition log_creation :: "IdempotencyScope \<Rightarrow> Disbursement \<Rightarrow> database \<Rightarrow> database \<Rightarrow> create_log \<Rightarrow> create_log" where
  "log_creation scope x d d' h =
     (if disbursements d' = disbursements d then h else h @ [(scope, d_ID x)])"

inductive create_step :: "platform \<Rightarrow> time \<Rightarrow> world \<times> create_log \<Rightarrow> world \<times> create_log \<Rightarrow> bool"
  for P :: platform and until :: time where
  insert_claim:
    "timely P until request \<Longrightarrow> w' = snd (pool_exec P (insertIdempotencyClaim P request) w) \<Longrightarrow>
     create_step P until (w, h) (w', h)"
| inspect_claim:
    "timely P until request \<Longrightarrow> w' = snd (acquireExisting P request w) \<Longrightarrow>
     create_step P until (w, h) (w', h)"
| transact:
    "w' = snd (WithinTransaction P (create_body P a q scope c x now) w) \<Longrightarrow>
     create_step P until (w, h) (w', log_creation scope x (committed w) (committed w') h)"
| release:
    "w' = snd (Coordinator_Release P scope c w) \<Longrightarrow>
     create_step P until (w, h) (w', h)"

inductive_cases create_stepE: "create_step P until s s'"

abbreviation create_steps :: "platform \<Rightarrow> time \<Rightarrow> world \<times> create_log \<Rightarrow> world \<times> create_log \<Rightarrow> bool" where
  "create_steps P until \<equiv> (create_step P until)\<^sup>*\<^sup>*"

definition created_under :: "IdempotencyScope \<Rightarrow> create_log \<Rightarrow> uuid list" where
  "created_under scope h = map snd (filter (\<lambda>e. fst e = scope) h)"

section \<open>The invariant\<close>

text \<open>A completed key that outlives the run stays as it is.\<close>

definition settled :: "time \<Rightarrow> IdempotencyScope \<Rightarrow> uuid \<Rightarrow> database \<Rightarrow> bool" where
  "settled until scope i d \<longleftrightarrow>
     (\<exists>y \<in> set (idempotency_keys d). in_scope scope y \<and> ik_state y = IdempotencyCompleted
        \<and> ik_disbursement_id y = Some i \<and> until \<le> ik_expires_at y)"

definition long_lived :: "time \<Rightarrow> database \<Rightarrow> bool" where
  "long_lived until d \<longleftrightarrow> list_all (\<lambda>y. until \<le> ik_expires_at y) (idempotency_keys d)"

definition create_inv :: "time \<Rightarrow> world \<times> create_log \<Rightarrow> bool" where
  "create_inv until s \<longleftrightarrow>
     db_ok (committed (fst s)) \<and> long_lived until (committed (fst s))
     \<and> (\<forall>scope. length (created_under scope (snd s)) \<le> 1
          \<and> (\<forall>i \<in> set (created_under scope (snd s)). settled until scope i (committed (fst s))))"

text \<open>What the claim steps keep, as one relation on databases.\<close>

definition keeps_settled :: "time \<Rightarrow> database \<Rightarrow> database \<Rightarrow> bool" where
  "keeps_settled until d d' \<longleftrightarrow>
     (long_lived until d \<longrightarrow>
        long_lived until d' \<and> (\<forall>scope i. settled until scope i d \<longrightarrow> settled until scope i d'))"

interpretation settled: db_evolution "keeps_settled until" for until
  by unfold_locales (auto simp: keeps_settled_def)

lemma reclaim_spares_completed:
  assumes "timely P until request" "until \<le> ik_expires_at y" "ik_state y = IdempotencyCompleted"
  shows "\<not> reclaimable P request y"
  using assms by (auto simp: timely_def reclaimable_def)

lemma settled_insert:
  assumes "timely P until request"
  shows "keeps_settled until d (snd (insertIdempotencyClaim P request t d))"
  using assms
  by (auto simp: keeps_settled_def insertIdempotencyClaim_def Let_def timely_def long_lived_def settled_def
        list_all_iff)

lemma settled_reclaim:
  assumes "timely P until request"
  shows "keeps_settled until d (snd (reclaimIdempotencyClaim P request t d))"
proof -
  let ?ks = "update_where (reclaimable P request) (reclaim_row P request) (idempotency_keys d)"
  let ?d = "d\<lparr>idempotency_keys := ?ks\<rparr>"
  have keep: "y \<in> set ?ks" if "y \<in> set (idempotency_keys d)" "until \<le> ik_expires_at y" "ik_state y = IdempotencyCompleted" for y
    using that(1) reclaim_spares_completed[OF assms that(2,3)] unfolding update_where_def by (force simp: image_iff)
  have "settled until s i d \<Longrightarrow> settled until s i ?d" for s i
    using keep unfolding settled_def by auto
  moreover have "long_lived until ?d" if "long_lived until d"
    using that assms by (auto simp: long_lived_def list_all_iff timely_def reclaim_row_def dest!: in_update_where)
  ultimately have "keeps_settled until d ?d" unfolding keeps_settled_def by blast
  then show ?thesis
    by (auto simp: reclaimIdempotencyClaim_def with_text_def settled.evo_refl)
qed

lemma settled_release: "keeps_settled until d (snd (releaseIdempotencyClaim scope c t d))"
  by (auto simp: keeps_settled_def releaseIdempotencyClaim_def with_text_def long_lived_def settled_def
        list_all_iff owned_def)

lemma settled_inspect:
  assumes "timely P until request"
  shows "evolves (keeps_settled until) (acquireExisting P request)"
  unfolding acquireExisting_def acquire_existing_body_def loadIdempotencyClaim_def
  by (auto split: sum.splits prod.splits bool.splits
        intro!: settled.evo_intros settled_reclaim[OF assms]
        simp: selectIdempotencyClaimForUpdate_def with_text_def settled.evo_refl)

lemma settled_Release: "evolves (keeps_settled until) (Coordinator_Release P scope c)"
  unfolding Coordinator_Release_def IdempotencyStore_Release_def
  by (auto split: sum.splits intro!: settled.evo_intros settled_release)

text \<open>No claim step creates a disbursement.\<close>

lemma create_inv_keeps:
  assumes "create_inv until (w, h)" "keeps_settled until (committed w) (committed w')"
    and "schema_kept (committed w) (committed w')"
  shows "create_inv until (w', h)"
  using assms unfolding create_inv_def keeps_settled_def schema_kept_def by auto

section \<open>The creating transaction\<close>

lemma transact_cases:
  assumes "w' = snd (WithinTransaction P (create_body P a q scope c x now) w)"
  shows "committed w' = committed w \<or> creation P a q scope c x (committed w) (committed w')"
proof -
  obtain r where t: "WithinTransaction P (create_body P a q scope c x now) w = (r, w')"
    using assms by (metis prod.collapse)
  from t tx_only_create_body show ?thesis
  proof (cases rule: WithinTransaction_cases)
    case (committed u v1 v2)
    then show ?thesis using create_body_Inr[OF committed(5,1)] by auto
  qed simp
qed

lemma creation_keys:
  assumes "creation P a q scope c x d d'" "db_ok d" "long_lived until d"
  shows "settled until scope (d_ID x) d'" "long_lived until d'"
    and "settled until s i d \<Longrightarrow> s \<noteq> scope \<and> settled until s i d'"
proof -
  from assms(1) obtain body y where
    ks: "idempotency_keys d' = update_where (owned scope c) (complete_row (created_response x body)) (idempotency_keys d)"
    and y: "first_where (in_scope scope) (idempotency_keys d) = Some y" "owned scope c y"
    by (auto simp: creation_def create_effect_def)
  let ?f = "complete_row (created_response x body)"
  from y have ym: "y \<in> set (idempotency_keys d)" "in_scope scope y" by (auto dest: first_where_Some)
  have "?f y \<in> set (idempotency_keys d')" unfolding ks using ym y(2) by (force simp: update_where_def)
  moreover have "until \<le> ik_expires_at y" using assms(3) ym(1) by (auto simp: long_lived_def list_all_iff)
  ultimately show "settled until scope (d_ID x) d'"
    using ym(2) unfolding settled_def
    by (intro bexI[of _ "?f y"]) (auto simp: complete_row_def created_response_def in_scope_def ik_pk_def)
  show "long_lived until d'" using assms(3) unfolding long_lived_def ks
    by (auto simp: list_all_iff complete_row_def dest!: in_update_where)
  show "s \<noteq> scope \<and> settled until s i d'" if st: "settled until s i d"
  proof -
    from st obtain z where z: "z \<in> set (idempotency_keys d)" "in_scope s z" "ik_state z = IdempotencyCompleted"
      "ik_disbursement_id z = Some i" "until \<le> ik_expires_at z" by (auto simp: settled_def)
    have "z \<noteq> y" using z(3) y(2) by (auto simp: owned_def)
    then have "s \<noteq> scope"
      using unique_by_same[OF db_okD(2)[OF assms(2)] z(1) ym(1)] z(2) ym(2) by (auto simp: in_scope_def)
    moreover have "z \<in> set (idempotency_keys d')"
      unfolding ks using z(1,3) by (force simp: update_where_def owned_def)
    ultimately show ?thesis using z by (auto simp: settled_def)
  qed
qed

lemma created_under_snoc:
  "created_under s (h @ [(scope, i)]) = created_under s h @ (if s = scope then [i] else [])"
  by (simp add: created_under_def)

lemma create_inv_creation:
  assumes "create_inv until (w, h)" "creation P a q scope c x (committed w) (committed w')"
    and "db_ok (committed w')"
  shows "create_inv until (w', h @ [(scope, d_ID x)])"
proof -
  from assms(1) have ok: "db_ok (committed w)" "long_lived until (committed w)" by (auto simp: create_inv_def)
  note new = creation_keys[OF assms(2) ok]
  have one: "length (created_under s h) \<le> 1" "\<forall>i \<in> set (created_under s h). settled until s i (committed w)" for s
    using assms(1) by (auto simp: create_inv_def)
  have "created_under scope h = []"
    using one(2)[of scope] new(3) by (cases "created_under scope h") auto
  then have "length (created_under s (h @ [(scope, d_ID x)])) \<le> 1
      \<and> (\<forall>i \<in> set (created_under s (h @ [(scope, d_ID x)])). settled until s i (committed w'))" for s
    using one[of s] new(1) new(3)[of s] by (auto simp: created_under_snoc)
  then show ?thesis using assms(3) new(2) by (simp add: create_inv_def)
qed

lemma create_inv_step:
  assumes "create_step P until s s'" "create_inv until s"
  shows "create_inv until s'"
  using assms
proof (cases rule: create_step.cases)
  case (insert_claim request w' w h)
  have "evolves (keeps_settled until) (pool_exec P (insertIdempotencyClaim P request))"
    "evolves schema_kept (pool_exec P (insertIdempotencyClaim P request))"
    by (rule settled.evo_pool, rule settled_insert[OF insert_claim(3)]) (rule schema.evo_pool, rule schema.R_claim)
  then show ?thesis using insert_claim assms(2) by (auto intro: create_inv_keeps dest: evolvesD(1))
next
  case (inspect_claim request w' w h)
  have "evolves schema_kept (acquireExisting P request)"
    unfolding acquireExisting_def by (intro schema.evo_intros schema.evolves_existing_body)
  moreover note settled_inspect[OF inspect_claim(3)]
  ultimately show ?thesis using inspect_claim assms(2) by (auto intro: create_inv_keeps dest: evolvesD(1))
next
  case (transact w' a q scope c x now w h)
  have ev: "evolves schema_kept (WithinTransaction P (create_body P a q scope c x now))"
    by (intro schema.evo_transaction schema.evolves_create_body)
  have ok: "db_ok (committed w')"
    using evolvesD(1)[OF ev, of w] assms(2) transact by (simp add: schema_kept_def create_inv_def)
  from transact_cases[OF transact(3)] show ?thesis
  proof
    assume "committed w' = committed w"
    then show ?thesis using transact assms(2) by (simp add: log_creation_def create_inv_def)
  next
    assume cr: "creation P a q scope c x (committed w) (committed w')"
    then have "disbursements (committed w') \<noteq> disbursements (committed w)"
      by (auto simp: creation_def create_effect_def)
    then show ?thesis using create_inv_creation[OF _ cr ok] transact assms(2) by (simp add: log_creation_def)
  qed
next
  case (release w' scope c w h)
  have "evolves schema_kept (Coordinator_Release P scope c)"
    unfolding Coordinator_Release_def by (rule schema.evolves_Release)
  moreover note settled_Release[of until P scope c]
  ultimately show ?thesis using release assms(2) by (auto intro: create_inv_keeps dest: evolvesD(1))
qed

text \<open>
  C3. At most once under concurrency: starting from a consistent database whose keys outlive the
  run, however the steps of concurrent creations interleave and whatever faults occur, the
  creating transactions that commit under one idempotency scope number at most one; if there was
  one, its key is completed with the identifier of its disbursement and stays so.
\<close>

theorem concurrent_create_once:
  assumes "create_steps P until (w, []) (w', h)"
    and "db_ok (committed w)" "long_lived until (committed w)"
  shows "length (created_under scope h) \<le> 1
     \<and> (\<forall>i \<in> set (created_under scope h). settled until scope i (committed w'))"
proof -
  have "create_inv until (w, [])" using assms(2,3) by (simp add: create_inv_def created_under_def)
  with assms(1) have "create_inv until (w', h)"
    by (induction rule: rtranclp_induct) (auto intro: create_inv_step)
  then show ?thesis by (simp add: create_inv_def)
qed

section \<open>A concrete run\<close>

lemma finish_create_transaction:
  assumes "finish_create P scope c x body w = (Inr res, w')"
  shows "w' = snd (WithinTransaction P body w)"
  using assms by (cases "WithinTransaction P body w") (auto simp: finish_create_def handle_def fail_def split: sum.splits prod.splits)

theorem concurrent_create_once_witness:
  "\<exists>w' i. create_steps demo Hour (in_world demo_db, []) (w', [(create_scope demo_user 3, i)])
     \<and> length (created_under (create_scope demo_user 3) [(create_scope demo_user 3, i)]) \<le> 1
     \<and> settled Hour (create_scope demo_user 3) i (committed w')"
proof -
  let ?s = "create_scope demo_user 3"
  define rq where "rq = create_request demo demo_co demo_user 3 demo_input 0"
  have st: "storable demo rq" unfolding rq_def by (rule create_ready_storable[OF demo_ready])
  have rq: "cr_Scope rq = ?s" "cr_ClaimID rq = 2"
    by (simp_all add: rq_def) (simp add: create_request_def claim_request_def)
  have timely: "timely demo Hour rq"
    using endpoint_facts(1)
    by (simp add: timely_def rq_def) (simp add: create_request_def claim_request_def create_scope_def demo_time_def demo_co_def)
  define w1 where "w1 = snd (pool_exec demo (insertIdempotencyClaim demo rq) (in_world demo_db))"
  have w1: "committed w1 = with_claim demo rq demo_db"
    using insert_claim_eq[OF st, of _ demo_db] rq(1)
    by (simp add: w1_def pool_exec_faultless with_claim_def create_scope_def)
  let ?x = "new_disbursement (uuid_New demo 1) demo_input ''BCA'' 2500 demo_user Second"
  have bank: "CanonicalBankCode demo (in_BankCode demo_input) = Inr ''BCA''"
    unfolding demo_input_def by simp (rule CanonicalBankCode_fixed, code_simp+)
  have fee: "CalculateAdminFee (in_Amount demo_input) = Inr 2500"
    by (simp add: CalculateAdminFee_Inr limit_defs demo_input_def)
  obtain w' where fin: "finish_create demo ?s (cr_ClaimID rq) ?x
       (create_body demo demo_user demo_request ?s (cr_ClaimID rq) ?x Second) w1 = (Inr (fresh_result ?x), w')"
    and cr: "creation demo demo_user demo_request ?s (cr_ClaimID rq) ?x (with_claim demo rq demo_db) (committed w')"
    using finish_claimed[OF demo_ok(1,4) demo_facts(1) _ _ demo_ids _ demo_db_ok(2) demo_input_valid bank fee st rq(1)
        _ demo_db_ok(1) demo_facts(3-5) w1 refl, of Second "''2026-01-01T00:00:00Z''" 1] rq(2)
    by auto
  have "create_step demo Hour (in_world demo_db, []) (w1, [])"
    unfolding w1_def by (rule create_step.insert_claim[OF timely refl])
  moreover have "create_step demo Hour (w1, []) (w', log_creation ?s ?x (committed w1) (committed w') [])"
    by (rule create_step.transact[OF finish_create_transaction[OF fin]])
  moreover have "disbursements (committed w') \<noteq> disbursements (committed w1)"
    using cr by (auto simp: creation_def create_effect_def w1)
  ultimately have steps: "create_steps demo Hour (in_world demo_db, []) (w', [(?s, d_ID ?x)])"
    by (auto simp: log_creation_def)
  from concurrent_create_once[OF this, of ?s] steps show ?thesis
    by (auto simp: long_lived_def created_under_def)
qed

end
