(* ===== verification/System.thy ===== *)
theory System
  imports Http_Evolution Ledger Relay_Delivery Concurrent_Create
begin

text \<open>
  The running program: requests through the router, turns of the audit relay and of the goroutine that
  copies the connection pool's statistics to the collector, in any order, on one
  server. \<open>system_evolution\<close> is what one such step needs of the operations; the evolutions of the
  components are its instances.
\<close>

section \<open>Steps\<close>

text \<open>What the relay's worker is configured with.\<close>

record relay_settings =
  rl_config :: RelayConfig
  rl_lease :: duration
  rl_batch :: int

inductive system_step :: "api \<Rightarrow> relay_settings \<Rightarrow> server \<Rightarrow> server \<Rightarrow> bool" for A :: api and S :: relay_settings where
  request: "NewRouter A c s = Returned c' s' \<Longrightarrow> system_step A S s s'"
| process_batch: "run_go (ProcessBatch (api_P A) (rl_lease S) (rl_batch S)) s = (r, s') \<Longrightarrow> system_step A S s s'"
| reconcile: "run_go (Reconcile (api_P A) (rl_config S)) s = (report, s') \<Longrightarrow> system_step A S s s'"
| cleanup: "run_go (Cleanup (api_P A) (rl_config S)) s = (cleaned, s') \<Longrightarrow> system_step A S s s'"
| pool_stats: "system_step A S s (count_metric (UpdateDBStats opened inUse idle) s)"

inductive_cases system_stepE: "system_step A S s s'"

lemma run_op: "op_evolves R m \<Longrightarrow> run_go m s = (r, s') \<Longrightarrow> server_ok s \<Longrightarrow> R (db s) (db s') \<and> server_ok s'"
  using run_go_simps(1,2)[of m s] unfolding op_evolves_def server_ok_def by auto

locale system_evolution = api_evolution + relay_evolution
begin

lemma step_evolves:
  assumes "system_step A S s s'" "api_ok A" "server_ok s"
  shows "R (db s) (db s') \<and> server_ok s'"
  using assms(1)
proof cases
  case (request c c')
  then show ?thesis using handles_router[OF assms(2)] assms(3) unfolding handles_def by (metis outcome.inject(1))
next
  case (pool_stats opened inUse idle)
  then show ?thesis using assms(3) evo_refl by (simp add: server_ok_def count_metric_def run_go_def record_metric_def)
qed (use assms(3) run_op evolves_op evolves_ProcessBatch evolves_Reconcile evolves_Cleanup in blast)+

lemma run_evolves:
  assumes "(system_step A S)\<^sup>*\<^sup>* s s'" "api_ok A" "server_ok s"
  shows "R (db s) (db s') \<and> server_ok s'"
  using assms(1,3)
proof (induction rule: rtranclp_induct)
  case base
  then show ?case using evo_refl by simp
next
  case (step y z)
  then show ?case using step_evolves[OF step(2) assms(2)] evo_trans by blast
qed

end

section \<open>Evolutions of every component\<close>

locale component_evolution =
  service_evolution R + session_evolution R + relay_evolution R
  for R :: "database \<Rightarrow> database \<Rightarrow> bool"

sublocale component_evolution \<subseteq> system_evolution
  by unfold_locales
     (rule evolves_op, rule evolves_Service_Create evolves_Service_UpdateStatus evolves_Service_SoftDelete)+

interpretation schema: component_evolution schema_kept ..
interpretation history: component_evolution history_kept ..
interpretation logs: component_evolution logs_kept ..

text \<open>Sessions: only the session statements touch the table.\<close>

interpretation sessions: disbursement_evolution sessions_kept
  by unfold_locales (rule sessions_same, simp add: stmt_defs Let_def split: sum.splits option.splits prod.splits)+

interpretation sessions: idempotency_evolution sessions_kept
  by unfold_locales (rule sessions_same, simp add: stmt_defs Let_def split: sum.splits)+

interpretation sessions: outbox_evolution sessions_kept
  by unfold_locales (rule sessions_same, simp add: stmt_defs Let_def split: sum.splits)+

interpretation sessions: component_evolution sessions_kept ..

text \<open>Events: only the outbox's statements touch the two tables.\<close>

interpretation events: disbursement_evolution events_kept
  by unfold_locales (rule events_kept_same; simp add: stmt_defs Let_def split: sum.splits option.splits prod.splits)+

interpretation events: idempotency_evolution events_kept
  by unfold_locales (rule events_kept_same; simp add: stmt_defs Let_def split: sum.splits)+

interpretation events: session_evolution events_kept
  by unfold_locales (rule events_kept_same; simp add: stmt_defs Let_def split: sum.splits)+

interpretation events: component_evolution events_kept ..

end
