(* ===== verification/Relay_Worker.thy ===== *)
theory Relay_Worker
  imports System "HOL-Library.Multiset"
begin

text \<open>
  The background worker of \<open>internal/service/audit/relay.go\<close> (\<open>StartWorker\<close>, \<open>StopWorker\<close>, \<open>stopWorker\<close>) as a
  state machine. Each start makes a new pair of channels and a goroutine; the pairs are numbered, and
  the current pair is \<open>rw_gen\<close> (both channels are nil at 0). A mutex makes the critical sections of the
  three methods single steps; the goroutines, the callers that wait in \<open>StopWorker\<close> and the cancellation
  of the context interleave freely. Closing a closed or nil channel panics.
\<close>

section \<open>States\<close>

datatype worker_phase = Initial | Looping | Returning

record relay_worker =
  rw_running :: bool
  rw_gen :: nat
  rw_stopChans :: "nat set"
  rw_workerDone :: "nat set"
  rw_phase :: "nat \<rightharpoonup> worker_phase"
  rw_waiting :: "nat multiset"
  rw_cancelled :: bool
  rw_panicked :: bool
  rw_world :: world

text \<open>The closed channels of either kind are the sets \<open>rw_stopChans\<close> and \<open>rw_workerDone\<close>.\<close>

definition close_stopChan :: "nat \<Rightarrow> relay_worker \<Rightarrow> relay_worker" where
  "close_stopChan g s =
     (if g = 0 \<or> g \<in> rw_stopChans s then s\<lparr>rw_panicked := True\<rparr> else s\<lparr>rw_stopChans := insert g (rw_stopChans s)\<rparr>)"

definition close_workerDone :: "nat \<Rightarrow> relay_worker \<Rightarrow> relay_worker" where
  "close_workerDone g s =
     (if g = 0 \<or> g \<in> rw_workerDone s then s\<lparr>rw_panicked := True\<rparr> else s\<lparr>rw_workerDone := insert g (rw_workerDone s)\<rparr>)"

section \<open>The methods\<close>

definition StartWorker :: "relay_worker \<Rightarrow> (go_error + unit) \<times> relay_worker" where
  "StartWorker s =
     (if rw_running s then (Inl (PlainError ''relay worker already running''), s)
      else (Inr (), s\<lparr>rw_running := True, rw_gen := Suc (rw_gen s), rw_phase := (rw_phase s)(Suc (rw_gen s) \<mapsto> Initial)\<rparr>))"

text \<open>\<open>StopWorker\<close> up to the point where it waits for \<open>workerDone\<close>; with nil channels there is no wait.\<close>

definition StopWorker :: "relay_worker \<Rightarrow> relay_worker" where
  "StopWorker s =
     (if \<not> rw_running s
      then (if rw_gen s = 0 then s else s\<lparr>rw_waiting := add_mset (rw_gen s) (rw_waiting s)\<rparr>)
      else let s1 = close_stopChan (rw_gen s) (s\<lparr>rw_running := False\<rparr>)
           in s1\<lparr>rw_waiting := add_mset (rw_gen s) (rw_waiting s1)\<rparr>)"

definition stopWorker :: "relay_worker \<Rightarrow> relay_worker" where
  "stopWorker s = (if \<not> rw_running s then s else close_stopChan (rw_gen s) (s\<lparr>rw_running := False\<rparr>))"

text \<open>The intervals of the three tickers.\<close>

definition ticker_intervals :: "RelayConfig \<Rightarrow> duration \<Rightarrow> duration \<times> duration \<times> duration" where
  "ticker_intervals cfg interval0 =
     (let interval = (if interval0 \<le> 0 then 5 * Second else interval0);
          recon = (if rc_ReconciliationInterval cfg \<le> 0 then 15 * Minute else rc_ReconciliationInterval cfg);
          reconcileInterval = (if interval < Second then 50000000 else recon);
          cleanupInterval = (if interval < Second then 100000000 else 24 * Hour)
      in (interval, reconcileInterval, cleanupInterval))"

definition run_world :: "'a go \<Rightarrow> relay_worker \<Rightarrow> relay_worker" where
  "run_world m s = s\<lparr>rw_world := snd (m (rw_world s))\<rparr>"

definition set_phase :: "nat \<Rightarrow> worker_phase \<Rightarrow> relay_worker \<Rightarrow> relay_worker" where
  "set_phase g p s = s\<lparr>rw_phase := (rw_phase s)(g \<mapsto> p)\<rparr>"

text \<open>What a goroutine does on its own: the first turns, the loop over the tickers and its two ways out.\<close>

inductive goroutine_step :: "platform \<Rightarrow> relay_settings \<Rightarrow> relay_worker \<Rightarrow> relay_worker \<Rightarrow> bool" for P S where
  initial: "rw_phase s g = Some Initial \<Longrightarrow>
    goroutine_step P S s (set_phase g Looping
      (run_world (Cleanup P (rl_config S)) (run_world (Reconcile P (rl_config S)) (run_world (ProcessBatch P (rl_lease S) (rl_batch S)) s))))"
| process_tick: "rw_phase s g = Some Looping \<Longrightarrow> goroutine_step P S s (run_world (ProcessBatch P (rl_lease S) (rl_batch S)) s)"
| reconcile_tick: "rw_phase s g = Some Looping \<Longrightarrow> goroutine_step P S s (run_world (Reconcile P (rl_config S)) s)"
| cleanup_tick: "rw_phase s g = Some Looping \<Longrightarrow> goroutine_step P S s (run_world (Cleanup P (rl_config S)) s)"
| context_done: "rw_phase s g = Some Looping \<Longrightarrow> rw_cancelled s \<Longrightarrow> goroutine_step P S s (set_phase g Returning (stopWorker s))"
| stop_seen: "rw_phase s g = Some Looping \<Longrightarrow> g \<in> rw_stopChans s \<Longrightarrow> goroutine_step P S s (set_phase g Returning s)"
| returns: "rw_phase s g = Some Returning \<Longrightarrow> goroutine_step P S s ((close_workerDone g s)\<lparr>rw_phase := (rw_phase s)(g := None)\<rparr>)"

text \<open>The callers start and stop the worker, wait for its end and cancel the context.\<close>

inductive worker_step :: "platform \<Rightarrow> relay_settings \<Rightarrow> relay_worker \<Rightarrow> relay_worker \<Rightarrow> bool" for P S where
  start: "StartWorker s = (r, s') \<Longrightarrow> worker_step P S s s'"
| stop: "worker_step P S s (StopWorker s)"
| stop_returns: "g \<in># rw_waiting s \<Longrightarrow> g \<in> rw_workerDone s \<Longrightarrow> worker_step P S s (s\<lparr>rw_waiting := rw_waiting s - {#g#}\<rparr>)"
| cancel: "worker_step P S s (s\<lparr>rw_cancelled := True\<rparr>)"
| goroutine: "goroutine_step P S s s' \<Longrightarrow> worker_step P S s s'"

definition new_worker :: "world \<Rightarrow> relay_worker" where
  "new_worker w =
     \<lparr>rw_running = False, rw_gen = 0, rw_stopChans = {}, rw_workerDone = {}, rw_phase = Map.empty, rw_waiting = {#},
      rw_cancelled = False, rw_panicked = False, rw_world = w\<rparr>"

section \<open>The invariant\<close>

text \<open>
  Every pair of channels but the current one has been told to stop, the current one unless the worker
  runs; a goroutine lives until it closed its \<open>workerDone\<close>; callers wait only for stopped workers.
\<close>

definition worker_inv :: "relay_worker \<Rightarrow> bool" where
  "worker_inv s \<longleftrightarrow>
     \<not> rw_panicked s \<and> (rw_running s \<longrightarrow> 0 < rw_gen s)
     \<and> (\<forall>g. g \<in> rw_stopChans s \<longleftrightarrow> 0 < g \<and> g \<le> rw_gen s \<and> \<not> (rw_running s \<and> g = rw_gen s))
     \<and> (\<forall>g. rw_phase s g \<noteq> None \<longleftrightarrow> 0 < g \<and> g \<le> rw_gen s \<and> g \<notin> rw_workerDone s)
     \<and> (rw_running s \<longrightarrow> rw_phase s (rw_gen s) \<in> {Some Initial, Some Looping})
     \<and> (\<forall>g \<in> rw_workerDone s. 0 < g \<and> g \<le> rw_gen s) \<and> set_mset (rw_waiting s) \<subseteq> rw_stopChans s"

lemma worker_inv_new: "worker_inv (new_worker w)"
  by (auto simp: worker_inv_def new_worker_def)

lemma worker_inv_world: "worker_inv (run_world m s) = worker_inv s" "rw_phase (run_world m s) = rw_phase s"
  by (simp_all add: worker_inv_def run_world_def)

lemma worker_inv_phase:
  "worker_inv s \<Longrightarrow> rw_phase s g \<noteq> None \<Longrightarrow> p \<noteq> Returning \<or> \<not> rw_running s \<or> g \<in> rw_stopChans s \<Longrightarrow> worker_inv (set_phase g p s)"
  by (cases p) (auto simp: worker_inv_def set_phase_def)

lemma worker_inv_start: "worker_inv s \<Longrightarrow> StartWorker s = (r, s') \<Longrightarrow> worker_inv s'"
proof -
  assume inv: "worker_inv s" and run: "StartWorker s = (r, s')"
  show "worker_inv s'"
  proof (cases "rw_running s")
    case True
    then show ?thesis using inv run by (simp add: StartWorker_def)
  next
    case False
    then have s': "s' = s\<lparr>rw_running := True, rw_gen := Suc (rw_gen s), rw_phase := (rw_phase s)(Suc (rw_gen s) \<mapsto> Initial)\<rparr>"
      using run by (simp add: StartWorker_def)
    from inv False have stop: "\<And>g. g \<in> rw_stopChans s \<longleftrightarrow> 0 < g \<and> g \<le> rw_gen s"
      and phase: "\<And>g. rw_phase s g \<noteq> None \<longleftrightarrow> 0 < g \<and> g \<le> rw_gen s \<and> g \<notin> rw_workerDone s"
      and fin: "\<And>g. g \<in> rw_workerDone s \<Longrightarrow> 0 < g \<and> g \<le> rw_gen s"
      and rest: "\<not> rw_panicked s" "set_mset (rw_waiting s) \<subseteq> rw_stopChans s"
      unfolding worker_inv_def by simp_all
    have "rw_phase s' g \<noteq> None \<longleftrightarrow> 0 < g \<and> g \<le> Suc (rw_gen s) \<and> g \<notin> rw_workerDone s" for g
      using phase[of g] fin[of g] unfolding s' by (cases "g = Suc (rw_gen s)") auto
    moreover have "g \<in> rw_stopChans s \<longleftrightarrow> 0 < g \<and> g \<le> Suc (rw_gen s) \<and> g \<noteq> Suc (rw_gen s)" for g
      using stop[of g] by auto
    moreover have "0 < g \<and> g \<le> Suc (rw_gen s)" if "g \<in> rw_workerDone s" for g using fin[OF that] by simp
    ultimately show ?thesis using rest unfolding worker_inv_def s' by simp
  qed
qed

lemma worker_inv_stop: "worker_inv s \<Longrightarrow> worker_inv (stopWorker s)" "worker_inv s \<Longrightarrow> worker_inv (StopWorker s)"
  by (auto simp: worker_inv_def stopWorker_def StopWorker_def close_stopChan_def Let_def)

lemma worker_inv_return:
  "worker_inv s \<Longrightarrow> rw_phase s g = Some Returning \<Longrightarrow> worker_inv ((close_workerDone g s)\<lparr>rw_phase := (rw_phase s)(g := None)\<rparr>)"
  unfolding worker_inv_def close_workerDone_def by (auto split: if_splits; metis option.distinct(1))

lemma worker_inv_goroutine: "goroutine_step P S s s' \<Longrightarrow> worker_inv s \<Longrightarrow> worker_inv s'"
proof (induction rule: goroutine_step.induct)
  case (context_done s g)
  have "rw_phase (stopWorker s) = rw_phase s" "\<not> rw_running (stopWorker s)" by (simp_all add: stopWorker_def close_stopChan_def)
  then show ?case using context_done worker_inv_stop(1) by (auto intro: worker_inv_phase)
qed (auto intro: worker_inv_phase worker_inv_return simp: worker_inv_world)

lemma worker_inv_step: "worker_step P S s s' \<Longrightarrow> worker_inv s \<Longrightarrow> worker_inv s'"
proof (induction rule: worker_step.induct)
  case (stop_returns g s)
  then show ?case by (auto simp: worker_inv_def dest: in_diffD)
next
  case (cancel s)
  then show ?case by (simp add: worker_inv_def)
qed (auto intro: worker_inv_start worker_inv_stop worker_inv_goroutine)

lemma worker_inv_run: "(worker_step P S)\<^sup>*\<^sup>* s s' \<Longrightarrow> worker_inv s \<Longrightarrow> worker_inv s'"
  by (induction rule: rtranclp_induct) (auto intro: worker_inv_step)

section \<open>Stopping\<close>

text \<open>A goroutine that was told to stop can always get to its end, whatever else is going on.\<close>

lemma stopped_ends:
  assumes "worker_inv s" "g \<in> rw_stopChans s"
  shows "\<exists>s'. (goroutine_step P S)\<^sup>*\<^sup>* s s' \<and> g \<in> rw_workerDone s' \<and> rw_waiting s' = rw_waiting s"
proof -
  have ret: "\<exists>s'. goroutine_step P S u s' \<and> g \<in> rw_workerDone s' \<and> rw_waiting s' = rw_waiting u"
    if u: "worker_inv u" "rw_phase u g = Some Returning" for u
  proof -
    let ?v = "(close_workerDone g u)\<lparr>rw_phase := (rw_phase u)(g := None)\<rparr>"
    have "rw_phase u g \<noteq> None" using u(2) by simp
    then have "0 < g" "g \<notin> rw_workerDone u" using u(1) unfolding worker_inv_def by blast+
    then have "g \<in> rw_workerDone ?v" "rw_waiting ?v = rw_waiting u" by (simp_all add: close_workerDone_def)
    then show ?thesis using goroutine_step.returns[OF u(2)] by blast
  qed
  have loop: "\<exists>s'. (goroutine_step P S)\<^sup>*\<^sup>* u s' \<and> g \<in> rw_workerDone s' \<and> rw_waiting s' = rw_waiting u"
    if u: "worker_inv u" "rw_phase u g = Some Looping" "g \<in> rw_stopChans u" for u
  proof -
    let ?v = "set_phase g Returning u"
    have step: "goroutine_step P S u ?v" using u(2,3) by (rule goroutine_step.stop_seen)
    have v: "rw_phase ?v g = Some Returning" "rw_waiting ?v = rw_waiting u" by (simp_all add: set_phase_def)
    from ret[OF worker_inv_goroutine[OF step u(1)] v(1)] obtain s' where
      "goroutine_step P S ?v s'" "g \<in> rw_workerDone s'" "rw_waiting s' = rw_waiting u" using v(2) by auto
    then show ?thesis using converse_rtranclp_into_rtranclp[of "goroutine_step P S", OF step r_into_rtranclp] by blast
  qed
  consider "g \<in> rw_workerDone s" | "rw_phase s g = Some Returning" | "rw_phase s g = Some Looping" | "rw_phase s g = Some Initial"
  proof (cases "rw_phase s g")
    case None
    have "0 < g \<and> g \<le> rw_gen s" using assms unfolding worker_inv_def by blast
    then have "g \<in> rw_workerDone s" using assms(1) None unfolding worker_inv_def by blast
    then show ?thesis using that by blast
  next
    case (Some p)
    then show ?thesis using that by (cases p) auto
  qed
  then show ?thesis
  proof cases
    case 2
    then show ?thesis using ret[OF assms(1)] by blast
  next
    case 3
    then show ?thesis using loop[OF assms(1) _ assms(2)] by blast
  next
    case 4
    let ?v = "set_phase g Looping (run_world (Cleanup P (rl_config S)) (run_world (Reconcile P (rl_config S)) (run_world (ProcessBatch P (rl_lease S) (rl_batch S)) s)))"
    have step: "goroutine_step P S s ?v" using 4 by (rule goroutine_step.initial)
    have v: "rw_phase ?v g = Some Looping" "g \<in> rw_stopChans ?v" "rw_waiting ?v = rw_waiting s"
      using assms(2) by (simp_all add: set_phase_def run_world_def)
    from loop[OF worker_inv_goroutine[OF step assms(1)] v(1,2)] obtain s' where
      "(goroutine_step P S)\<^sup>*\<^sup>* ?v s'" "g \<in> rw_workerDone s'" "rw_waiting s' = rw_waiting s" using v(3) by auto
    then show ?thesis using converse_rtranclp_into_rtranclp[of "goroutine_step P S", OF step] by blast
  qed blast
qed

lemma goroutine_run: "(goroutine_step P S)\<^sup>*\<^sup>* s s' \<Longrightarrow> (worker_step P S)\<^sup>*\<^sup>* s s'"
  by (erule rtranclp_mono[THEN predicate2D, rotated]) (blast intro: worker_step.goroutine)

section \<open>Properties\<close>

text \<open>
  C38. The relay's worker never closes a channel twice, in whatever order \<open>StartWorker\<close>, \<open>StopWorker\<close>, the
  cancellation of the context and the goroutines take their steps, so it never panics; and while it is
  marked as running its loop is alive and has not been told to stop.
\<close>

theorem worker_never_panics:
  assumes "(worker_step P S)\<^sup>*\<^sup>* (new_worker w) s"
  shows "\<not> rw_panicked s
    \<and> (rw_running s \<longrightarrow> rw_phase s (rw_gen s) \<in> {Some Initial, Some Looping} \<and> rw_gen s \<notin> rw_stopChans s)"
  using worker_inv_run[OF assms worker_inv_new] by (simp add: worker_inv_def)

text \<open>
  C39. \<open>StopWorker\<close> does not hang: in every reachable state in which a caller waits, the worker it waits for
  has been told to stop and the caller can return, after that worker has closed its \<open>workerDone\<close>.
\<close>

theorem stop_worker_returns:
  assumes "(worker_step P S)\<^sup>*\<^sup>* (new_worker w) s" "g \<in># rw_waiting s"
  shows "\<exists>s'. (worker_step P S)\<^sup>*\<^sup>* s s' \<and> g \<in> rw_workerDone s' \<and> rw_waiting s' = rw_waiting s - {#g#}"
proof -
  have inv: "worker_inv s" by (rule worker_inv_run[OF assms(1) worker_inv_new])
  then have "g \<in> rw_stopChans s" using assms(2) by (auto simp: worker_inv_def)
  from stopped_ends[OF inv this] obtain s1 where
    s1: "(goroutine_step P S)\<^sup>*\<^sup>* s s1" "g \<in> rw_workerDone s1" "rw_waiting s1 = rw_waiting s" by blast
  have "worker_step P S s1 (s1\<lparr>rw_waiting := rw_waiting s1 - {#g#}\<rparr>)"
    using worker_step.stop_returns[of g s1 P S] s1(2,3) assms(2) by simp
  then show ?thesis using s1 goroutine_run[OF s1(1)] by (intro exI[of _ "s1\<lparr>rw_waiting := rw_waiting s1 - {#g#}\<rparr>"]) auto
qed

section \<open>The worker's turns are steps of the system\<close>

abbreviation serving :: "ipRateLimiter \<Rightarrow> world \<Rightarrow> server" where
  "serving l w \<equiv> \<lparr>srv_world = w, srv_limiter = l\<rparr>"

lemma run_go_serving: "run_go m (serving l w) = (fst (m w), serving l (snd (m w)))"
  by (simp add: run_go_def split: prod.splits)

lemma relay_turns:
  "system_step A S (serving l w) (serving l (snd (ProcessBatch (api_P A) (rl_lease S) (rl_batch S) w)))"
  "system_step A S (serving l w) (serving l (snd (Reconcile (api_P A) (rl_config S) w)))"
  "system_step A S (serving l w) (serving l (snd (Cleanup (api_P A) (rl_config S) w)))"
  by (rule system_step.process_batch[OF run_go_serving] system_step.reconcile[OF run_go_serving] system_step.cleanup[OF run_go_serving])+

lemma goroutine_system:
  assumes "goroutine_step (api_P A) S s s'"
  shows "(system_step A S)\<^sup>*\<^sup>* (serving l (rw_world s)) (serving l (rw_world s'))"
  using assms
proof (induction rule: goroutine_step.induct)
  case (initial s g)
  let ?w1 = "snd (ProcessBatch (api_P A) (rl_lease S) (rl_batch S) (rw_world s))"
  let ?w2 = "snd (Reconcile (api_P A) (rl_config S) ?w1)"
  have "(system_step A S)\<^sup>*\<^sup>* (serving l (rw_world s)) (serving l (snd (Cleanup (api_P A) (rl_config S) ?w2)))"
    by (rule converse_rtranclp_into_rtranclp, rule relay_turns(1), rule converse_rtranclp_into_rtranclp, rule relay_turns(2),
        rule r_into_rtranclp, rule relay_turns(3))
  then show ?case by (simp add: set_phase_def run_world_def)
qed (auto simp: stopWorker_def close_stopChan_def close_workerDone_def set_phase_def run_world_def intro!: r_into_rtranclp relay_turns)

text \<open>What the relay's statements keep, a goroutine keeps.\<close>

context relay_evolution begin

lemma run_world_evolves:
  "evolves R m \<Longrightarrow> working (rw_world s) = None \<Longrightarrow>
     R (committed (rw_world s)) (committed (rw_world (run_world m s))) \<and> working (rw_world (run_world m s)) = None"
  by (simp add: run_world_def evolvesD)

lemma goroutine_evolves:
  assumes "goroutine_step P S s s'" "working (rw_world s) = None"
  shows "R (committed (rw_world s)) (committed (rw_world s'))"
  using assms
proof (induction rule: goroutine_step.induct)
  case (initial s g)
  let ?s1 = "run_world (ProcessBatch P (rl_lease S) (rl_batch S)) s"
  let ?s2 = "run_world (Reconcile P (rl_config S)) ?s1"
  have 1: "R (committed (rw_world s)) (committed (rw_world ?s1))" "working (rw_world ?s1) = None"
    using run_world_evolves[OF evolves_ProcessBatch initial(2)] by blast+
  have 2: "R (committed (rw_world ?s1)) (committed (rw_world ?s2))" "working (rw_world ?s2) = None"
    using run_world_evolves[OF evolves_Reconcile 1(2)] by blast+
  have "R (committed (rw_world ?s2)) (committed (rw_world (run_world (Cleanup P (rl_config S)) ?s2)))"
    using run_world_evolves[OF evolves_Cleanup 2(2)] by blast
  then show ?case using evo_trans[OF evo_trans[OF 1(1) 2(1)]] by (simp add: set_phase_def)
qed (auto simp: set_phase_def stopWorker_def close_stopChan_def close_workerDone_def evo_refl
       dest: run_world_evolves[OF evolves_ProcessBatch] run_world_evolves[OF evolves_Reconcile] run_world_evolves[OF evolves_Cleanup])

end

section \<open>A concrete run\<close>

definition demo_relay_settings :: relay_settings where
  "demo_relay_settings = \<lparr>rl_config = demo_relay, rl_lease = 30 * Second, rl_batch = 10\<rparr>"

text \<open>Started and asked to stop before its first turn.\<close>

definition stopping_worker :: relay_worker where
  "stopping_worker = StopWorker (snd (StartWorker (new_worker (in_world demo_db))))"

lemma stopping_reached: "(worker_step P S)\<^sup>*\<^sup>* (new_worker (in_world demo_db)) stopping_worker"
  unfolding stopping_worker_def
  by (rule converse_rtranclp_into_rtranclp, rule worker_step.start, rule prod.collapse[symmetric],
      rule r_into_rtranclp, rule worker_step.stop)

lemma stopping_waits: "1 \<in># rw_waiting stopping_worker"
  by (simp add: stopping_worker_def StartWorker_def StopWorker_def new_worker_def close_stopChan_def)

theorem worker_never_panics_witness: "\<not> rw_panicked stopping_worker"
  using worker_never_panics[OF stopping_reached] by blast

theorem stop_worker_returns_witness:
  "\<exists>s'. (worker_step demo demo_relay_settings)\<^sup>*\<^sup>* stopping_worker s' \<and> 1 \<in> rw_workerDone s'
     \<and> rw_waiting s' = rw_waiting stopping_worker - {#1#}"
  by (rule stop_worker_returns[OF stopping_reached stopping_waits])

end
