(* ===== verification/Audited_Changes.thy ===== *)
theory Audited_Changes
  imports Ledger Http_Evolution
begin

text \<open>
  Every change of a disbursement, from the request that makes it to the audit event that is committed
  with it: one transition of the abstract ledger, one pending event of the same entity, the action of
  the new phase, in the name of the identity that the request's token proved.
\<close>

section \<open>Audited changes\<close>

fun phase_action :: "phase \<Rightarrow> string" where
  "phase_action Awaiting = ''disbursement.created''"
| "phase_action (Decided status a) = decision_action status"
| "phase_action Removed = ''disbursement.deleted''"

definition audited_change :: "uuid \<Rightarrow> string \<Rightarrow> uuid \<Rightarrow> database \<Rightarrow> database \<Rightarrow> bool" where
  "audited_change a action i d d' \<longleftrightarrow>
     ledger_step (ledger d) (ledger d') \<and> (\<forall>j. j \<noteq> i \<longrightarrow> ledger d' j = ledger d j)
     \<and> (\<exists>e. ledger d' i = Some e \<and> phase_action (le_phase e) = action)
     \<and> (\<exists>ob. audit_outbox d' = audit_outbox d @ [ob] \<and> ob_delivery_state ob = DeliveryPending
          \<and> ev_EntityID (ob_event ob) = i \<and> ev_Action (ob_event ob) = action \<and> ev_ActorID (ob_event ob) = a)"

text \<open>No disbursement changes, or one does, audited, with one of the actions.\<close>

definition audited_as :: "uuid \<Rightarrow> string set \<Rightarrow> database \<Rightarrow> database \<Rightarrow> bool" where
  "audited_as a actions d d' \<longleftrightarrow>
     disbursements d' = disbursements d \<or> (\<exists>action \<in> actions. \<exists>i. audited_change a action i d d')"

lemma audited_same: "disbursements d' = disbursements d \<Longrightarrow> audited_as a actions d d'"
  by (simp add: audited_as_def)

lemma change_audited:
  assumes ch: "change_recorded a q i action f d d'" and d: "db_ok d" and f: "\<And>r. row_ID (f r) = row_ID r"
    and step: "\<And>r. open_row i r \<Longrightarrow> ledger_step ((ledger d)(i \<mapsto> entry_of r)) ((ledger d)(i \<mapsto> entry_of (f r)))"
    and phase: "\<And>r. open_row i r \<Longrightarrow> phase_action (le_phase (entry_of (f r))) = action"
  shows "audited_change a action i d d'"
proof -
  obtain r where r: "open_row i r" "ledger d i = Some (entry_of r)" "ledger d' = (ledger d)(i \<mapsto> entry_of (f r))"
    using change_ledger[OF ch d f] by blast
  have "(ledger d)(i \<mapsto> entry_of r) = ledger d" using r(2) by (simp add: fun_upd_idem)
  then have "ledger_step (ledger d) (ledger d')" using step[OF r(1)] r(3) by simp
  then show ?thesis using ch r phase by (auto simp: audited_change_def change_recorded_def)
qed

lemma update_audited:
  assumes "db_ok (committed w)" "Service_UpdateStatus P a q i dec w = (r, w')"
  shows "audited_as a {''disbursement.approved'', ''disbursement.rejected''} (committed w) (committed w')"
proof -
  from Service_UpdateStatus_cases[OF assms(2)] consider "committed w' = committed w"
    | nt t where "change_recorded a q i (decision_action (dec_Status dec)) (decide_row (dec_Status dec) a nt t) (committed w) (committed w')"
        "Decision_Validate (dec\<lparr>dec_ActorID := a\<rparr>) = None" by blast
  then show ?thesis
  proof cases
    case 2
    have st: "dec_Status dec \<in> {StatusApproved, StatusRejected}"
      using 2(2) by (auto simp: Decision_Validate_def split: if_splits)
    have "audited_change a (decision_action (dec_Status dec)) i (committed w) (committed w')"
    proof (rule change_audited[OF 2(1) assms(1)])
      fix r assume r: "open_row i r"
      have e: "entry_of (decide_row (dec_Status dec) a nt t r) = (entry_of r)\<lparr>le_phase := Decided (dec_Status dec) a\<rparr>"
        using open_entry(3)[OF r] st by auto
      then show "phase_action (le_phase (entry_of (decide_row (dec_Status dec) a nt t r))) = decision_action (dec_Status dec)" by simp
      show "ledger_step ((ledger (committed w))(i \<mapsto> entry_of r)) ((ledger (committed w))(i \<mapsto> entry_of (decide_row (dec_Status dec) a nt t r)))"
        using ledger_step.decide[of "(ledger (committed w))(i \<mapsto> entry_of r)" i "entry_of r" "dec_Status dec" a] open_entry(1)[OF r] st e by simp
    qed (simp add: decide_row_def)
    then show ?thesis using st by (auto simp: audited_as_def decision_action_def)
  qed (simp add: audited_same)
qed

lemma delete_audited:
  assumes "db_ok (committed w)" "Service_SoftDelete P a q i w = (r, w')"
  shows "audited_as a {''disbursement.deleted''} (committed w) (committed w')"
proof -
  from Service_SoftDelete_cases[OF assms(2)] consider "committed w' = committed w"
    | t where "change_recorded a q i ''disbursement.deleted'' (delete_row t) (committed w) (committed w')" by blast
  then show ?thesis
  proof cases
    case 2
    have "audited_change a ''disbursement.deleted'' i (committed w) (committed w')"
    proof (rule change_audited[OF 2 assms(1)])
      fix r assume r: "open_row i r"
      show "phase_action (le_phase (entry_of (delete_row t r))) = ''disbursement.deleted''" using open_entry(2)[OF r] by simp
      show "ledger_step ((ledger (committed w))(i \<mapsto> entry_of r)) ((ledger (committed w))(i \<mapsto> entry_of (delete_row t r)))"
        using ledger_step.remove[of "(ledger (committed w))(i \<mapsto> entry_of r)" i "entry_of r"] open_entry(1,2)[OF r] by simp
    qed (simp add: delete_row_def)
    then show ?thesis by (auto simp: audited_as_def)
  qed (simp add: audited_same)
qed

lemma create_audited:
  assumes "db_ok (committed w)" "Service_Create P co a q key input w = (r, w')"
  shows "audited_as a {''disbursement.created''} (committed w) (committed w')"
proof -
  from Service_Create_cases[OF assms(2)] consider "claims_only (committed w) (committed w')"
    | x where "service_creation P co a q key input x (committed w) (committed w')" by blast
  then show ?thesis
  proof cases
    case 1
    then show ?thesis by (simp add: audited_same claims_onlyD)
  next
    case 2
    from service_creation_recorded[OF 2] obtain k where
      "creation_recorded P a q k input (d_ID x) (committed w) (committed w')" by blast
    then obtain row ob where
      row: "disbursements (committed w') = disbursements (committed w) @ [row]" "row_ID row = d_ID x" "row_Amount row = in_Amount input"
        "CalculateAdminFee (in_Amount input) = Inr (row_AdminFee row)" "row_Status row = StatusPending"
        "row_CreatedBy row = a" "row_DeletedAt row = None"
      and ob: "audit_outbox (committed w') = audit_outbox (committed w) @ [ob]" "ob_delivery_state ob = DeliveryPending"
        "ev_EntityID (ob_event ob) = d_ID x" "ev_Action (ob_event ob) = ''disbursement.created''" "ev_ActorID (ob_event ob) = a"
      by (auto simp: creation_recorded_def)
    have "db_ok (committed w')"
      using assms(1) evolvesD(1)[OF schema.evolves_Service_Create, of w P co a q key input] assms(2)
      by (simp add: schema_kept_def)
    from db_okD(1)[OF this] row(1) have new: "ledger (committed w) (row_ID row) = None"
      by (auto simp: ledger_None unique_by_def image_iff)
    have e: "entry_of row = \<lparr>le_amount = in_Amount input, le_fee = row_AdminFee row, le_creator = a, le_phase = Awaiting\<rparr>"
      using row by (simp add: entry_of_def phase_of_def)
    have "ledger_step (ledger (committed w)) ((ledger (committed w))(row_ID row \<mapsto> entry_of row))"
      unfolding e using ledger_step.issue[of "ledger (committed w)" "row_ID row" "in_Amount input" "row_AdminFee row" a] new row(4)
      by blast
    then have "audited_change a ''disbursement.created'' (d_ID x) (committed w) (committed w')"
      unfolding audited_change_def ledger_append[OF row(1) new] using row(2) ob e by auto
    then show ?thesis by (auto simp: audited_as_def)
  qed
qed

end
