(* ===== verification/Route_Access.thy ===== *)
theory Route_Access
  imports Audited_Changes System
begin

text \<open>
  Access control from end to end: through the whole router only a request whose bearer token was
  verified, and whose role the route requires, changes a disbursement, and the change is audited in the
  name of the identity the token proved. The endpoints that change none are shown so as instances of
  the evolution locales.
\<close>

section \<open>Endpoints that change no disbursement\<close>

definition same_disbursements :: "database \<Rightarrow> database \<Rightarrow> bool" where
  "same_disbursements d d' \<longleftrightarrow> disbursements d' = disbursements d"

interpretation reads: session_evolution same_disbursements
  by unfold_locales
     (simp_all add: same_disbursements_def stmt_defs Let_def split: sum.splits option.splits prod.splits)

lemma handles_run: "handles R h \<Longrightarrow> server_ok s \<Longrightarrow> h c s = Returned c' s' \<Longrightarrow> R (db s) (db s') \<and> server_ok s'"
  unfolding handles_def by (drule spec[of _ c], drule spec[of _ s]) auto

lemma handles_same:
  "handles same_disbursements h \<Longrightarrow> server_ok s \<Longrightarrow> h c s = Returned c' s' \<Longrightarrow> disbursements (db s') = disbursements (db s)"
  using handles_run[of same_disbursements h s c c' s'] by (simp add: same_disbursements_def)

text \<open>Answering does not touch the database at all.\<close>

definition same_database :: "database \<Rightarrow> database \<Rightarrow> bool" where
  "same_database d d' \<longleftrightarrow> d' = d"

interpretation answers: db_evolution same_database
  by unfold_locales (simp_all add: same_database_def)

section \<open>Which handler makes which change\<close>

text \<open>The handler \<open>h\<close>, run for \<open>identity\<close>, makes only audited changes of the given actions in its name.\<close>

definition acts :: "UserIdentity \<Rightarrow> string set \<Rightarrow> handler \<Rightarrow> bool" where
  "acts identity actions h \<longleftrightarrow>
     (\<forall>c s c' s'. server_ok s \<longrightarrow> db_ok (db s) \<longrightarrow> gc_Identity c = Some identity \<longrightarrow> h c s = Returned c' s' \<longrightarrow>
        audited_as (id_ID identity) actions (db s) (db s'))"

lemma actsI:
  "(\<And>c s c' s'. server_ok s \<Longrightarrow> db_ok (db s) \<Longrightarrow> gc_Identity c = Some identity \<Longrightarrow> h c s = Returned c' s' \<Longrightarrow>
      audited_as (id_ID identity) actions (db s) (db s')) \<Longrightarrow> acts identity actions h"
  by (simp add: acts_def)

lemma actsD:
  "acts identity actions h \<Longrightarrow> server_ok s \<Longrightarrow> db_ok (db s) \<Longrightarrow> gc_Identity c = Some identity \<Longrightarrow> h c s = Returned c' s' \<Longrightarrow>
     audited_as (id_ID identity) actions (db s) (db s')"
  by (simp add: acts_def)

lemma acts_same: "handles same_disbursements h \<Longrightarrow> acts identity actions h"
  by (rule actsI) (auto dest: handles_same intro: audited_same)

lemma acts_service:
  assumes use: "\<And>x. handles same_database (use x)"
    and keeps: "op_evolves schema_kept m"
    and m: "\<And>w r w'. db_ok (committed w) \<Longrightarrow> m w = (r, w') \<Longrightarrow> audited_as (id_ID identity) actions (committed w) (committed w')"
  shows "acts identity actions (call_service m use)"
proof (rule actsI)
  fix c s c' s'
  assume s: "server_ok s" "db_ok (db s)" and run: "call_service m use c s = Returned c' s'"
  obtain r w' where mw: "m (srv_world s) = (r, w')" by force
  let ?s1 = "s\<lparr>srv_world := w'\<rparr>"
  have r: "run_go m s = (r, ?s1)" by (simp add: run_go_def mw)
  have ok: "server_ok ?s1" using s(1) mw keeps[unfolded op_evolves_def, rule_format, of "srv_world s"] by (simp add: server_ok_def)
  have "db s' = db ?s1"
  proof (cases r)
    case (Inl err)
    then show ?thesis using run r by (simp add: call_service_def respond_error_def)
  next
    case (Inr x)
    then have "use x c ?s1 = Returned c' s'" using run r by (simp add: call_service_def)
    then show ?thesis using handles_run[OF use ok] by (simp add: same_database_def)
  qed
  then show "audited_as (id_ID identity) actions (db s) (db s')" using m[OF s(2) mw] by simp
qed

lemma acts_request_uuid: "(\<And>q. acts identity actions (use q)) \<Longrightarrow> acts identity actions (with_request_uuid A use)"
proof (rule actsI)
  fix c s c' s'
  assume use: "\<And>q. acts identity actions (use q)" and s: "server_ok s" "db_ok (db s)"
    and i: "gc_Identity c = Some identity" and run: "with_request_uuid A use c s = Returned c' s'"
  obtain q s1 where q: "server_uuid (api_P A) s = (q, s1)" by force
  have s1: "server_ok s1" "db s1 = db s" using server_uuid_quiet[OF q] quiet_ok s(1) by (auto simp: quiet_def)
  show "audited_as (id_ID identity) actions (db s) (db s')"
  proof (cases "uuid_Parse (api_P A) (RequestIDFromContext c)")
    case None
    then have "use q c s1 = Returned c' s'" using run q by (simp add: with_request_uuid_def)
    from actsD[OF use s1(1) _ i this] show ?thesis using s(2) s1(2) by simp
  next
    case (Some requestID)
    then have "use requestID c s = Returned c' s'" using run by (simp add: with_request_uuid_def)
    from actsD[OF use s i this] show ?thesis .
  qed
qed

lemma acts_error: "acts identity actions (respond_error err)"
  by (auto simp: acts_def respond_error_def audited_same)

lemma acts_identity: "acts identity actions (use identity) \<Longrightarrow> acts identity actions (with_identity use)"
  by (auto simp: acts_def with_identity_def)

lemma acts_path_id: "(\<And>i. acts identity actions (use i)) \<Longrightarrow> acts identity actions (with_path_id A use)"
  using acts_error by (auto simp: acts_def with_path_id_def split: option.splits)

lemma acts_body: "(\<And>r. acts identity actions (use r)) \<Longrightarrow> acts identity actions (with_body A bind structure use)"
  using acts_error by (auto simp: acts_def with_body_def Let_def split: option.splits if_splits)

lemma acts_Create: "acts identity {''disbursement.created''} (DisbursementHandler_Create A)"
proof -
  let ?do = "\<lambda>q key input. call_service (Service_Create (api_P A) (api_coordinator A) (id_ID identity) q key input) (respond_created A)"
  have do: "acts identity {''disbursement.created''} (?do q key input)" for q key input
    by (rule acts_service[OF answers.handles_created evolves_op[OF schema.evolves_Service_Create]]) (rule create_audited)
  have "acts identity {''disbursement.created''} (\<lambda>c s. let idempotencyKey = gc_GetHeader c ''Idempotency-Key''
       in if idempotencyKey = '''' then respond_error (DomainError InvalidIdempotencyKey) c s
          else ?do q idempotencyKey (create_input req) c s)" for q req
    using do acts_error unfolding acts_def Let_def by simp
  then show ?thesis unfolding DisbursementHandler_Create_def
    by (intro acts_request_uuid acts_identity acts_body)
qed

lemma acts_UpdateStatus:
  "acts identity {''disbursement.approved'', ''disbursement.rejected''} (DisbursementHandler_UpdateStatus A)"
  unfolding DisbursementHandler_UpdateStatus_def Let_def
  by (intro acts_request_uuid acts_identity acts_path_id acts_body acts_service answers.handles_respond
        evolves_op[OF schema.evolves_Service_UpdateStatus]) (rule update_audited)

lemma acts_Delete: "acts identity {''disbursement.deleted''} (DisbursementHandler_Delete A)"
  unfolding DisbursementHandler_Delete_def
  by (intro acts_request_uuid acts_identity acts_path_id acts_service answers.handles_respond
        evolves_op[OF schema.evolves_Service_SoftDelete]) (rule delete_audited)

section \<open>The router\<close>

definition required_roles :: "string \<Rightarrow> UserRole set" where
  "required_roles action =
     (if action = ''disbursement.created'' then {RoleOperator, RoleAdmin, RoleSuperadmin}
      else if action = ''disbursement.deleted'' then {RoleSuperadmin}
      else {RoleAdmin, RoleSuperadmin})"

text \<open>
  An audited change in the name of an identity that a bearer token proves, verified under a configured
  key (the active secret or a legacy one), with a role that may do the action.
\<close>

definition entitled_change :: "api \<Rightarrow> string \<Rightarrow> (string \<times> string) list \<Rightarrow> string \<Rightarrow> database \<Rightarrow> database \<Rightarrow> bool" where
  "entitled_change A secret legacy header d d' \<longleftrightarrow>
     (\<exists>token key now claims identity action i.
        bearer_token header = Some token \<and> key \<noteq> '''' \<and> (key = secret \<or> key \<in> snd ` set legacy)
        \<and> jwt_Parse (api_J A) token now (hs256_key key) = Inr (True, claims)
        \<and> claimed_identity (api_P A) (api_issuer A) (api_audience A) claims = Some identity
        \<and> id_Role identity \<in> required_roles action \<and> audited_change (id_ID identity) action i d d')"

definition guarded :: "api \<Rightarrow> string \<Rightarrow> (string \<times> string) list \<Rightarrow> handler \<Rightarrow> bool" where
  "guarded A secret legacy h \<longleftrightarrow>
     (\<forall>c s c' s'. server_ok s \<longrightarrow> db_ok (db s) \<longrightarrow> h c s = Returned c' s' \<longrightarrow>
        disbursements (db s') = disbursements (db s)
        \<or> entitled_change A secret legacy (gc_GetHeader c ''Authorization'') (db s) (db s'))"

lemma guardedI:
  "(\<And>c s c' s'. server_ok s \<Longrightarrow> db_ok (db s) \<Longrightarrow> h c s = Returned c' s' \<Longrightarrow>
      disbursements (db s') = disbursements (db s)
      \<or> entitled_change A secret legacy (gc_GetHeader c ''Authorization'') (db s) (db s')) \<Longrightarrow> guarded A secret legacy h"
  by (simp add: guarded_def)

lemma guardedD:
  "guarded A secret legacy h \<Longrightarrow> server_ok s \<Longrightarrow> db_ok (db s) \<Longrightarrow> h c s = Returned c' s' \<Longrightarrow>
     disbursements (db s') = disbursements (db s)
     \<or> entitled_change A secret legacy (gc_GetHeader c ''Authorization'') (db s) (db s')"
  by (simp add: guarded_def)

lemma guarded_same: "handles same_disbursements h \<Longrightarrow> guarded A secret legacy h"
  by (rule guardedI) (auto dest: handles_same)

lemma guarded_role:
  assumes kp: "api_keyProvider A = static_provider (NewStaticKeyProvider keyID secret legacy)"
    and order: "\<And>n keys. set (api_key_order A n keys) = set keys"
    and acts: "\<And>identity. acts identity actions h"
    and roles: "\<And>action. action \<in> actions \<Longrightarrow> set roles \<subseteq> required_roles action"
  shows "guarded A secret legacy (auth_chain A (RequireRole roles h))"
proof (rule guardedI)
  fix c s c' s'
  assume s: "server_ok s" "db_ok (db s)" and run: "auth_chain A (RequireRole roles h) c s = Returned c' s'"
  let ?goal = "disbursements (db s') = disbursements (db s)
      \<or> entitled_change A secret legacy (gc_GetHeader c ''Authorization'') (db s) (db s')"
  have ord: "set (api_key_order A (calls (srv_world s)) (kp_AllKeys (static_provider (NewStaticKeyProvider keyID secret legacy))))
      = set (kp_AllKeys (static_provider (NewStaticKeyProvider keyID secret legacy)))" by (rule order)
  show ?goal
    using static.authenticate_cases[where order = "api_key_order A (calls (srv_world s))" and P = "api_P A" and J = "api_J A"
        and iss = "api_issuer A" and aud = "api_audience A" and chain = "RequireRole roles h" and c = c and s = s, OF ord]
  proof (elim exE conjE disjE, goal_cases)
    case (1 s1)
    then show ?case using run by (simp add: auth_chain_def kp quiet_def)
  next
    case (2 s1 identity token claims key now)
    let ?c = "c\<lparr>gc_userID := Some (uuid_String (api_P A) (id_ID identity)), gc_Identity := Some identity\<rparr>"
    have s1: "server_ok s1" "db s1 = db s" using 2(1) quiet_ok s(1) by (auto simp: quiet_def)
    have step: "RequireRole roles h ?c s1 = Returned c' s'" using run 2(7) by (simp add: auth_chain_def kp)
    show ?case
    proof (cases "id_Role identity \<in> set roles")
      case False
      then show ?thesis using step s1(2) by (simp add: RequireRole_def)
    next
      case True
      then have h: "h ?c s1 = Returned c' s'" using step by (simp add: RequireRole_def)
      from actsD[OF acts s1(1) _ _ h] have "audited_as (id_ID identity) actions (db s1) (db s')" using s(2) s1(2) by simp
      then consider "disbursements (db s') = disbursements (db s)"
        | action i where "action \<in> actions" "audited_change (id_ID identity) action i (db s) (db s')"
        using s1(2) by (auto simp: audited_as_def)
      then show ?thesis
      proof cases
        case change: (2 action i)
        have "id_Role identity \<in> required_roles action" using roles[OF change(1)] True by blast
        then show ?thesis using 2(2,4,5) static_trusted[OF 2(3)] change(2) unfolding entitled_change_def by blast
      qed simp
    qed
  qed
qed

lemma guarded_routes:
  assumes kp: "api_keyProvider A = static_provider (NewStaticKeyProvider keyID secret legacy)"
    and order: "\<And>n keys. set (api_key_order A n keys) = set keys" and A: "api_ok A"
    and r: "(m, pattern, h) \<in> set (routes A (collector (srv_world s) \<noteq> None))"
    and s: "server_ok s" "db_ok (db s)" and run: "h c s = Returned c' s'"
  shows "disbursements (db s') = disbursements (db s)
    \<or> entitled_change A secret legacy (gc_GetHeader c ''Authorization'') (db s) (db s')"
proof (cases "h = metrics_endpoint A \<and> collector (srv_world s) \<noteq> None")
  case True
  then show ?thesis using run
    by (auto simp: metrics_endpoint_def metrics_HTTPHandler_def Let_def gin_JSON_def split: if_splits)
next
  case False
  let ?any = "[RoleOperator, RoleAdmin, RoleSuperadmin]"
  have create: "guarded A secret legacy (auth_chain A (RequireRole ?any (DisbursementHandler_Create A)))"
    by (rule guarded_role[OF kp order acts_Create]) (simp add: required_roles_def)
  have list: "guarded A secret legacy (auth_chain A (RequireRole ?any (DisbursementHandler_List A)))"
    and get: "guarded A secret legacy (auth_chain A (RequireRole ?any (DisbursementHandler_GetByID A)))"
    by (rule guarded_role[OF kp order acts_same[where actions = "{}"]]; simp add: reads.handles_List reads.handles_GetByID)+
  have update: "guarded A secret legacy (auth_chain A (RequireRole [RoleAdmin, RoleSuperadmin] (DisbursementHandler_UpdateStatus A)))"
    by (rule guarded_role[OF kp order acts_UpdateStatus]) (auto simp: required_roles_def)
  have delete: "guarded A secret legacy (auth_chain A (RequireRole [RoleSuperadmin] (DisbursementHandler_Delete A)))"
    by (rule guarded_role[OF kp order acts_Delete]) (simp add: required_roles_def)
  note others = reads.handles_probes reads.handles_rate_limited[OF A reads.handles_auth(1)]
    reads.handles_rate_limited[OF A reads.handles_auth(2)] reads.handles_auth(3)
  have "guarded A secret legacy h"
    using r False create list get update delete others[THEN guarded_same]
    by (auto simp: routes_def registerAuthRoutes_def registerDisbursementRoutes_def split: if_splits)
  from guardedD[OF this s run] show ?thesis .
qed

lemma guarded_dispatch:
  assumes "api_keyProvider A = static_provider (NewStaticKeyProvider keyID secret legacy)"
    and "\<And>n keys. set (api_key_order A n keys) = set keys" "api_ok A"
  shows "guarded A secret legacy (dispatch A)"
proof (rule guardedI)
  fix c s c' s'
  assume s: "server_ok s" "db_ok (db s)" and run: "dispatch A c s = Returned c' s'"
  let ?p = "\<lambda>(m, pattern, h :: handler). m = gc_Method c \<and> pattern = gc_FullPath c"
  let ?rs = "routes A (collector (srv_world s) \<noteq> None)"
  show "disbursements (db s') = disbursements (db s)
      \<or> entitled_change A secret legacy (gc_GetHeader c ''Authorization'') (db s) (db s')"
  proof (cases "find ?p ?rs")
    case None
    then show ?thesis using run by (simp add: dispatch_def NoRoute_def respond_error_def)
  next
    case (Some x)
    obtain m pattern h where x: "x = (m, pattern, h)" by (cases x)
    have "x \<in> set ?rs" using Some unfolding find_Some_iff by (metis nth_mem)
    moreover have "h c s = Returned c' s'" using run Some x by (simp add: dispatch_def)
    ultimately show ?thesis unfolding x by (rule guarded_routes[OF assms _ s])
  qed
qed

lemma guarded_Recovery:
  assumes "handles schema_kept h" "guarded A secret legacy h"
  shows "guarded A secret legacy (Recovery h)"
proof (rule guardedI)
  fix c s c' s'
  assume s: "server_ok s" "db_ok (db s)" and run: "Recovery h c s = Returned c' s'"
  obtain c1 s1 where h: "h c s = Returned c1 s1" using assms(1) s(1) unfolding handles_def by blast
  then show "disbursements (db s') = disbursements (db s)
      \<or> entitled_change A secret legacy (gc_GetHeader c ''Authorization'') (db s) (db s')"
    using guardedD[OF assms(2) s h] run by (simp add: Recovery_def)
qed

lemma guarded_BodyLimit: "guarded A secret legacy h \<Longrightarrow> guarded A secret legacy (BodyLimit n h)"
  by (rule guardedI) (force simp: BodyLimit_def dest: guardedD)

lemma guarded_AccessLog:
  assumes "guarded A secret legacy h"
  shows "guarded A secret legacy (AccessLog P h)"
proof (rule guardedI)
  fix c s c' s'
  assume s: "server_ok s" "db_ok (db s)" and run: "AccessLog P h c s = Returned c' s'"
  obtain t s1 where 1: "server_clock P s = (t, s1)" by force
  have s1: "server_ok s1" "db s1 = db s" using server_clock_quiet[OF 1] quiet_ok s(1) by (auto simp: quiet_def)
  obtain c2 s2 where 2: "h c s1 = Returned c2 s2" using run by (cases "h c s1") (simp_all add: AccessLog_def 1 Let_def)
  obtain t3 s3 where 3: "server_clock P s2 = (t3, s3)" by force
  have "db s3 = db s2" using server_clock_quiet[OF 3] by (simp add: quiet_def)
  then have "db s' = db s2" using run by (auto simp: AccessLog_def 1 2 3 Let_def split: if_splits)
  then show "disbursements (db s') = disbursements (db s)
      \<or> entitled_change A secret legacy (gc_GetHeader c ''Authorization'') (db s) (db s')"
    using guardedD[OF assms s1(1) _ 2] s(2) s1(2) by simp
qed

lemma guarded_RequestID:
  assumes "guarded A secret legacy h"
  shows "guarded A secret legacy (RequestID P h)"
proof (rule guardedI)
  fix c s c' s'
  assume s: "server_ok s" "db_ok (db s)" and run: "RequestID P h c s = Returned c' s'"
  obtain u s1 where u: "server_uuid P s = (u, s1)" by force
  have s1: "server_ok s1" "db s1 = db s" using server_uuid_quiet[OF u] quiet_ok s(1) by (auto simp: quiet_def)
  obtain i s2 where h: "h (SetHeader RequestIDHeader i (c\<lparr>gc_RequestID := Some i\<rparr>)) s2 = Returned c' s'" and s2: "server_ok s2" "db s2 = db s"
    using run u s1 s(1) by (auto simp: RequestID_def Let_def split: if_splits)
  from guardedD[OF assms s2(1) _ h] s(2) s2(2)
  show "disbursements (db s') = disbursements (db s)
      \<or> entitled_change A secret legacy (gc_GetHeader c ''Authorization'') (db s) (db s')"
    by (simp add: SetHeader_def)
qed

lemma guarded_router:
  assumes "api_keyProvider A = static_provider (NewStaticKeyProvider keyID secret legacy)"
    and "\<And>n keys. set (api_key_order A n keys) = set keys" "api_ok A"
  shows "guarded A secret legacy (NewRouter A)"
  unfolding NewRouter_def
  by (intro guarded_RequestID guarded_AccessLog guarded_Recovery schema.handles_BodyLimit schema.handles_dispatch
        guarded_BodyLimit guarded_dispatch[OF assms(1)] assms(2,3))

section \<open>The property\<close>

text \<open>
  C4. Disbursements change only on behalf of an authenticated user whose role allows it, and leave an audit
  trail in that user's name: whatever request the router serves, under every fault, either no
  disbursement changes or its bearer token was verified with HS256 under a configured secret, the role
  it proves may do the action (any role creates, administrators decide, superadministrators delete),
  and the change is one step of the ledger committed together with one pending event of that action,
  entity and actor.
\<close>

theorem change_needs_role:
  assumes "api_ok A" "api_keyProvider A = static_provider (NewStaticKeyProvider keyID secret legacy)"
    and "\<And>n keys. set (api_key_order A n keys) = set keys"
    and "server_ok s" "db_ok (db s)" "NewRouter A c s = Returned c' s'"
  shows "disbursements (db s') = disbursements (db s)
    \<or> (\<exists>token key now claims identity action i.
        bearer_token (gc_GetHeader c ''Authorization'') = Some token
        \<and> key \<noteq> '''' \<and> (key = secret \<or> key \<in> snd ` set legacy)
        \<and> jwt_Parse (api_J A) token now (hs256_key key) = Inr (True, claims)
        \<and> claimed_identity (api_P A) (api_issuer A) (api_audience A) claims = Some identity
        \<and> id_Role identity \<in> required_roles action \<and> audited_change (id_ID identity) action i (db s) (db s'))"
  using guardedD[OF guarded_router[OF assms(2,3,1)] assms(4-6)] unfolding entitled_change_def .

section \<open>A concrete request\<close>

definition demo_claims :: "(string \<times> json) list" where
  "demo_claims =
     [(''sub'', JStr (demo_String demo_user)), (''username'', JStr ''ops''), (''role'', JStr ''SUPERADMIN''),
      (''iss'', JStr ''disbursement-api''), (''aud'', JStr ''disbursement-api-users'')]"

text \<open>A token service that knows two secrets and one user.\<close>

definition one_user_jwt :: jwt_library where
  "one_user_jwt =
     \<lparr>jwt_SignedString = (\<lambda>_ _ _. Inr ''token''), jwt_ParseUnverified = (\<lambda>_. None),
      jwt_Parse = (\<lambda>_ _ keyfunc. if keyfunc ''HS256'' \<in> {Inr ''secret'', Inr ''0123456789abcdef0123456789abcdef''} then Inr (True, demo_claims) else Inl ErrNoRows)\<rparr>"

definition demo_api :: api where
  "demo_api =
     \<lparr>api_P = demo, api_J = one_user_jwt, api_V = \<lparr>engine_Struct = (\<lambda>_ _. EngineOK)\<rparr>,
      api_G = \<lparr>bind_Login = (\<lambda>_ _. None), bind_Refresh = (\<lambda>_ _. None), bind_Logout = (\<lambda>_ _. None),
        bind_Create = (\<lambda>_ _. None), bind_Update = (\<lambda>_ _. None), bind_Query = (\<lambda>_. None)\<rparr>,
      api_auth = demo_auth_service, api_coordinator = demo_co,
      api_keyProvider = static_provider (NewStaticKeyProvider ''v1'' ''secret'' []),
      api_issuer = ''disbursement-api'', api_audience = ''disbursement-api-users'', api_maxBody = 1048576, api_metricsToken = '''',
      api_ilike = (\<lambda>_ _. True), api_order_by = (\<lambda>_ _ _ rows. rows), api_key_order = (\<lambda>_ keys. keys),
      api_limiter_order = (\<lambda>_ m. m), api_snapshot_json = (\<lambda>_. JNull)\<rparr>"

definition delete_request :: gin_context where
  "delete_request =
     \<lparr>gc_Method = ''DELETE'', gc_Path = ''/disbursements/5'', gc_FullPath = ''/disbursements/:id'',
      gc_GetHeader = (\<lambda>k. if k = ''Authorization'' then ''Bearer token''
        else if k = ''X-Request-ID'' then demo_String demo_request else ''''),
      gc_Param = (\<lambda>k. if k = ''id'' then demo_String 5 else ''''),
      gc_ClientIP = ''10.0.0.1'', gc_Body = '''', gc_RawQuery = '''', gc_BodyLimit = None, gc_RequestID = None,
      gc_Identity = None, gc_userID = None, gc_ResponseHeader = [], gc_Status = 200, gc_Written = False, gc_Output = []\<rparr>"

definition demo_server :: "database \<Rightarrow> server" where
  "demo_server d = \<lparr>srv_world = in_world d, srv_limiter = demo_limiter\<rparr>"

lemma demo_server_ok: "server_ok (demo_server d)" "db (demo_server d) = d"
  by (auto simp: server_ok_def demo_server_def limiter_ok_def demo_limiter_def)

lemma demo_api_ok: "api_ok demo_api"
  by (simp add: api_ok_def demo_api_def map_order_def)

text \<open>A configuration of the handlers that accepts the token.\<close>

definition demo_like :: "api \<Rightarrow> bool" where
  "demo_like A \<longleftrightarrow> api_P A = demo \<and> api_J A = one_user_jwt \<and> (\<forall>n keys. api_key_order A n keys = keys)
     \<and> (\<exists>keyID secret legacy. api_keyProvider A = static_provider (NewStaticKeyProvider keyID secret legacy)
          \<and> secret \<in> {''secret'', ''0123456789abcdef0123456789abcdef''})
     \<and> api_issuer A = ''disbursement-api'' \<and> api_audience A = ''disbursement-api-users''"

lemma demo_api_like: "demo_like demo_api"
  unfolding demo_like_def by (auto simp: demo_api_def)

text \<open>The middleware lets the token through as the superadministrator it names.\<close>

abbreviation demo_admin :: UserIdentity where
  "demo_admin \<equiv> \<lparr>id_ID = demo_user, id_Username = ''ops'', id_Role = RoleSuperadmin\<rparr>"

lemma demo_authenticated:
  assumes A: "demo_like A" and "gc_GetHeader c ''Authorization'' = ''Bearer token''"
  shows "\<exists>s1. quiet s s1 \<and> auth_chain A next c s =
    next (c\<lparr>gc_userID := Some (demo_String demo_user), gc_Identity := Some demo_admin\<rparr>) s1"
proof -
  have trim: "TrimSpace ''ops'' = ''ops''" by (rule TrimSpace_graphic; code_simp)
  have "bearer_token (''Bearer '' @ ''token'') = Some ''token''" by (rule bearer_token_of; code_simp)
  then have bearer: "bearer_token ''Bearer token'' = Some ''token''" by simp
  obtain keyID secret legacy where kp: "api_keyProvider A = static_provider (NewStaticKeyProvider keyID secret legacy)"
    and secret: "secret \<in> {''secret'', ''0123456789abcdef0123456789abcdef''}" using A unfolding demo_like_def by blast
  have [simp]: "api_P A = demo" "api_J A = one_user_jwt" "api_key_order A n keys = keys" "api_issuer A = ''disbursement-api''"
    "api_audience A = ''disbursement-api-users''" for n keys using A unfolding demo_like_def by blast+
  let ?kp = "static_provider (NewStaticKeyProvider keyID secret legacy)"
  have id: "api_key_order A n = (\<lambda>keys. keys)" for n by auto
  have "\<exists>s1. parseTokenWithSecret demo one_user_jwt ''token'' secret s = (Some demo_claims, s1)"
    using secret by (auto simp: parseTokenWithSecret_def one_user_jwt_def hs256_key_def server_clock_def Let_def)
  then obtain s1 where s1: "verify_token demo one_user_jwt (\<lambda>keys. keys) ?kp ''token'' s = (Some demo_claims, s1)"
    using secret by (auto simp: verify_token_def kid_of_def static_provider_def ActiveKey_def NewStaticKeyProvider_def)
       (auto simp: one_user_jwt_def)
  have "claimed_identity demo ''disbursement-api'' ''disbursement-api-users'' demo_claims = Some demo_admin"
    using trim by (simp add: claimed_identity_def demo_claims_def string_claim_def UserRole_IsValid_def RoleSuperadmin_def)
  then show ?thesis using s1 assms bearer verify_token_quiet[of demo one_user_jwt "\<lambda>keys. keys" ?kp "''token''" s]
    by (intro exI[of _ s1]) (simp add: auth_chain_def kp id AuthenticateWithKeyProvider_def)
qed

lemma demo_deletes:
  assumes A: "api_P A = demo" and "db s = stored_db" "gc_RequestID c = Some (demo_String demo_request)" "gc_Identity c = Some demo_admin"
    "gc_Param c ''id'' = demo_String 5"
  shows "\<exists>c' s'. DisbursementHandler_Delete A c s = Returned c' s' \<and> disbursements (db s') \<noteq> disbursements stored_db"
proof -
  have "open_row 5 demo_row" by (simp add: open_row_def demo_row_def StatusPending_def)
  then have row: "first_where (open_row 5) (disbursements (committed (srv_world s))) = Some demo_row"
    using assms(2) by (simp add: stored_db_def first_where_def)
  obtain x w' t where run: "Service_SoftDelete demo demo_user demo_request 5 (srv_world s) = (Inr (x, False), w')"
    and d: "disbursements (committed w') = update_where (open_row 5) (delete_row t) (disbursements stored_db)"
    using SoftDelete_deletes[OF _ row] stored_ready assms(2) by metis
  have "disbursements (committed w') \<noteq> disbursements stored_db"
    unfolding d using \<open>open_row 5 demo_row\<close>
    by (simp add: stored_db_def update_where_def) (simp add: delete_row_def demo_row_def)
  then show ?thesis using run assms(3-5)
    by (simp add: DisbursementHandler_Delete_def A with_request_uuid_def with_identity_def with_path_id_def
        RequestIDFromContext_def call_service_def run_go_def respond_no_content_def)
qed

lemma delete_route:
  assumes "gc_Method c = ''DELETE''" "gc_FullPath c = ''/disbursements/:id''"
  shows "dispatch A c s = auth_chain A (RequireRole [RoleSuperadmin] (DisbursementHandler_Delete A)) c s"
  by (simp add: dispatch_def routes_def registerAuthRoutes_def registerDisbursementRoutes_def assms)

lemma demo_request_deletes:
  assumes A: "demo_like A" and ds: "db ds = stored_db"
  shows "\<exists>c' s'. NewRouter A delete_request ds = Returned c' s'
     \<and> disbursements (db s') \<noteq> disbursements stored_db"
proof -
  let ?c = "SetHeader RequestIDHeader (demo_String demo_request) (delete_request\<lparr>gc_RequestID := Some (demo_String demo_request)\<rparr>)"
  let ?c2 = "?c\<lparr>gc_BodyLimit := Some (api_maxBody A)\<rparr>" and ?s = ds
  have P: "api_P A = demo" using A unfolding demo_like_def by blast
  have id: "gc_GetHeader delete_request RequestIDHeader = demo_String demo_request"
    by (simp add: delete_request_def RequestIDHeader_def)
  have v4: "isUUIDv4 demo (demo_String demo_request)" by (simp add: isUUIDv4_def demo_def)
  obtain t s1 where 1: "server_clock demo ?s = (t, s1)" by force
  have s1: "db s1 = stored_db" using server_clock_quiet[OF 1] ds by (simp add: quiet_def)
  have c2: "gc_Method ?c2 = ''DELETE''" "gc_FullPath ?c2 = ''/disbursements/:id''"
    "gc_GetHeader ?c2 ''Authorization'' = ''Bearer token''"
    by (simp_all add: delete_request_def SetHeader_def)
  obtain s2 where 2: "quiet s1 s2" "dispatch A ?c2 s1 =
      DisbursementHandler_Delete A (?c2\<lparr>gc_userID := Some (demo_String demo_user), gc_Identity := Some demo_admin\<rparr>) s2"
    using demo_authenticated[OF A c2(3), of s1 "RequireRole [RoleSuperadmin] (DisbursementHandler_Delete A)"]
    unfolding delete_route[OF c2(1,2)] by (auto simp: RequireRole_def)
  obtain c3 s3 where 3: "dispatch A ?c2 s1 = Returned c3 s3" "disbursements (db s3) \<noteq> disbursements stored_db"
    using demo_deletes[OF P, of s2 "?c2\<lparr>gc_userID := Some (demo_String demo_user), gc_Identity := Some demo_admin\<rparr>"] 2 s1
    by (auto simp: quiet_def delete_request_def SetHeader_def)
  obtain t4 s4 where 4: "server_clock demo s3 = (t4, s4)" by force
  have "db s4 = db s3" using server_clock_quiet[OF 4] by (simp add: quiet_def)
  then show ?thesis using 3
    by (simp add: NewRouter_def P RequestID_def id v4 AccessLog_def 1 Recovery_def BodyLimit_def 4 Let_def)
qed

theorem change_needs_role_witness:
  "\<exists>c' s' (identity :: UserIdentity) action i. NewRouter demo_api delete_request (demo_server stored_db) = Returned c' s'
     \<and> disbursements (db s') \<noteq> disbursements stored_db
     \<and> id_Role identity \<in> required_roles action \<and> audited_change (id_ID identity) action i stored_db (db s')"
proof -
  obtain c' s' where run: "NewRouter demo_api delete_request (demo_server stored_db) = Returned c' s'"
    and new: "disbursements (db s') \<noteq> disbursements stored_db"
    using demo_request_deletes[OF demo_api_like demo_server_ok(2)] by blast
  have kp: "api_keyProvider demo_api = static_provider (NewStaticKeyProvider ''v1'' ''secret'' [])" by (simp add: demo_api_def)
  have order: "set (api_key_order demo_api n keys) = set keys" for n keys by (simp add: demo_api_def)
  have ok: "db_ok (db (demo_server stored_db))" using stored_ready by (simp add: demo_server_ok finalization_ready_def)
  have "\<exists>(identity :: UserIdentity) action i. id_Role identity \<in> required_roles action \<and> audited_change (id_ID identity) action i stored_db (db s')"
    using change_needs_role[OF demo_api_ok kp order demo_server_ok(1) ok run, unfolded demo_server_ok(2)]
  proof (elim disjE exE conjE, goal_cases)
    case 1
    then show ?case using new by simp
  next
    case (2 token key now claims identity action i)
    show ?case using 2(6,7) by blast
  next
    case (3 token key now claims identity action i)
    show ?case using 3(6,7) by blast
  qed
  then obtain identity :: UserIdentity and action i where
    "id_Role identity \<in> required_roles action" "audited_change (id_ID identity) action i stored_db (db s')"
    by (elim exE conjE) (rule that)
  then show ?thesis using run new by blast
qed

end
