(* ===== verification/Application.thy ===== *)
theory Application
  imports Configuration Relay_Worker Route_Access
begin

text \<open>
  \<open>internal/app/app.go\<close> and \<open>internal/database/database.go\<close>: \<open>New\<close> builds the program from its configuration, \<open>Run\<close>
  runs it until its context is cancelled or the HTTP server fails. The state of \<open>New\<close> is the world, the
  number of open connection pools and the warnings logged. \<open>Run\<close> is a step relation, since the server, the
  relay's worker and the goroutine that copies the pool's statistics run beside it. What drivers and
  frameworks report at start-up is in \<open>app_library\<close>.
\<close>

section \<open>Data\<close>

text \<open>
  The errors of \<open>sqlx.Open\<close>, \<open>db.Close\<close>, \<open>engine.RegisterValidation\<close> and \<open>router.SetTrustedProxies\<close>, and the order in
  which the map of legacy keys is visited.
\<close>

record app_library =
  sqlx_Open :: "string \<Rightarrow> go_error option"
  db_Close :: "nat \<Rightarrow> go_error option"
  RegisterValidation :: "go_error option"
  SetTrustedProxies :: "string list \<Rightarrow> go_error option"
  legacy_order :: "(string \<times> string) list \<Rightarrow> (string \<times> string) list"

datatype app_error =
    ConfigError config_error
  | LibraryError go_error
  | Wrapped string app_error
  | PingError go_error go_error
  | StartPanic string

record sqlx_DB =
  db_URL :: string
  db_MaxOpenConns :: int
  db_MaxIdleConns :: int
  db_ConnMaxLifetime :: duration

record http_Server =
  hs_Addr :: string
  hs_Handler :: api
  hs_ReadTimeout :: duration
  hs_WriteTimeout :: duration
  hs_IdleTimeout :: duration

record Application =
  ap_database :: sqlx_DB
  ap_server :: http_Server
  ap_relayService :: relay_settings
  ap_limiter :: ipRateLimiter
  ap_shutdownTimeout :: duration
  ap_relayInterval :: duration

record startup =
  su_world :: world
  su_pools :: nat
  su_warnings :: "string list"

type_synonym 'a starting = "startup \<Rightarrow> (app_error + 'a) \<times> startup"

definition start_bind :: "'a starting \<Rightarrow> ('a \<Rightarrow> 'b starting) \<Rightarrow> 'b starting" where
  "start_bind m f s = (case m s of (Inl e, s1) \<Rightarrow> (Inl e, s1) | (Inr x, s1) \<Rightarrow> f x s1)"

text \<open>\<open>database.Close()\<close> releases the pool also when it reports an error.\<close>

definition close_pool :: "app_library \<Rightarrow> startup \<Rightarrow> go_error option \<times> startup" where
  "close_pool L s = (db_Close L (su_pools s), s\<lparr>su_pools := su_pools s - 1\<rparr>)"

section \<open>Opening the database\<close>

definition database_Open :: "app_library \<Rightarrow> platform \<Rightarrow> DatabaseConfig \<Rightarrow> sqlx_DB starting" where
  "database_Open L P config s =
     (case sqlx_Open L (dc_URL config) of
        Some err \<Rightarrow> (Inl (Wrapped ''open database'' (LibraryError err)), s)
      | None \<Rightarrow>
          let database = \<lparr>db_URL = dc_URL config, db_MaxOpenConns = dc_MaxOpenConnections config,
                          db_MaxIdleConns = dc_MaxIdleConnections config, db_ConnMaxLifetime = dc_ConnectionMaxLifetime config\<rparr>;
              s1 = s\<lparr>su_pools := Suc (su_pools s)\<rparr>
          in case PingContext P (su_world s1) of
               (Inl err, w) \<Rightarrow>
                 (case close_pool L (s1\<lparr>su_world := w\<rparr>) of
                    (Some closeErr, s2) \<Rightarrow> (Inl (PingError err closeErr), s2)
                  | (None, s2) \<Rightarrow> (Inl (Wrapped ''ping database'' (LibraryError err)), s2))
             | (Inr _, w) \<Rightarrow> (Inr database, s1\<lparr>su_world := w\<rparr>))"

section \<open>Building the application\<close>

definition warnOnUntrustedProxyConfiguration :: "Config \<Rightarrow> bool \<Rightarrow> startup \<Rightarrow> startup" where
  "warnOnUntrustedProxyConfiguration configuration logger s =
     (if \<not> logger \<or> hc_TrustedProxies (cfg_HTTP configuration) \<noteq> [] then s
      else s\<lparr>su_warnings := su_warnings s @
        [''HTTP_TRUSTED_PROXIES is empty: per-IP rate limiting and client IP attribution are unreliable behind a proxy'']\<rparr>)"

text \<open>The relay's stores are given, so the constructor cannot fail.\<close>

definition NewAuditOutboxStore :: duration where
  "NewAuditOutboxStore = NewAuditOutboxStoreWithLease (5 * Minute)"

definition NewRelayService :: "duration \<Rightarrow> int \<Rightarrow> RelayConfig \<Rightarrow> relay_settings" where
  "NewRelayService lease batch cfg = \<lparr>rl_config = cfg, rl_lease = lease, rl_batch = batch\<rparr>"

definition NewDefaultCoordinator :: "duration \<Rightarrow> duration \<Rightarrow> go_error + Coordinator" where
  "NewDefaultCoordinator leaseTTL replayTTL = NewCoordinator leaseTTL replayTTL"

definition validation_New :: "app_library \<Rightarrow> go_error + unit" where
  "validation_New L = (case RegisterValidation L of Some err \<Rightarrow> Inl err | None \<Rightarrow> Inr ())"

text \<open>The part of \<open>NewRouter\<close> that configures the engine, and the limiter that \<open>registerAuthRoutes\<close> makes.\<close>

definition router_setup :: "app_library \<Rightarrow> string list \<Rightarrow> app_error + unit" where
  "router_setup L trustedProxies =
     (if trustedProxies \<noteq> []
      then case SetTrustedProxies L trustedProxies of
             Some err \<Rightarrow> Inl (Wrapped ''configure trusted proxies'' (LibraryError err)) | None \<Rightarrow> Inr ()
      else case SetTrustedProxies L [] of
             Some err \<Rightarrow> Inl (Wrapped ''disable trusted proxies'' (LibraryError err)) | None \<Rightarrow> Inr ())"

definition auth_limiter :: "string + ipRateLimiter" where
  "auth_limiter = newIPRateLimiter 10 (1 * Minute)"

abbreviation library :: "go_error + 'a \<Rightarrow> app_error + 'a" where
  "library \<equiv> map_sum LibraryError id"

text \<open>An error after the database was opened: \<open>_ = db.Close()\<close> and the wrapped error.\<close>

definition or_close :: "app_library \<Rightarrow> string \<Rightarrow> app_error + 'a \<Rightarrow> 'a starting" where
  "or_close L what r s =
     (case r of Inl err \<Rightarrow> (Inl (Wrapped what err), snd (close_pool L s)) | Inr x \<Rightarrow> (Inr x, s))"

definition relay_config :: "AuditConfig \<Rightarrow> RelayConfig" where
  "relay_config a =
     \<lparr>rc_WarningAge = ac_WarningAge a, rc_ReconciliationInterval = ac_ReconciliationInterval a,
      rc_OutboxRetention = ac_OutboxRetention a, rc_CriticalAge = ac_CriticalAge a\<rparr>"

text \<open>
  The handlers' environment: \<open>A0\<close> holds the libraries, the rest comes from the configuration and the
  services built from it.
\<close>

definition app_api :: "api \<Rightarrow> Config \<Rightarrow> KeyProvider \<Rightarrow> auth_service \<Rightarrow> Coordinator \<Rightarrow> api" where
  "app_api A0 config keyProvider authService coordinator =
     A0\<lparr>api_auth := authService, api_coordinator := coordinator, api_keyProvider := keyProvider,
        api_issuer := sc_JWTIssuer (cfg_Security config), api_audience := sc_JWTAudience (cfg_Security config),
        api_maxBody := hc_MaxRequestBodyBytes (cfg_HTTP config), api_metricsToken := hc_MetricsToken (cfg_HTTP config)\<rparr>"

definition app_New :: "app_library \<Rightarrow> api \<Rightarrow> Config \<Rightarrow> bool \<Rightarrow> Application starting" where
  "app_New L A0 config logger s =
     (case ValidateSecretStrength (legacy_order L) config of
        Some err \<Rightarrow> (Inl (ConfigError err), s)
      | None \<Rightarrow>
          start_bind (database_Open L (api_P A0) (cfg_Database config)) (\<lambda>db s1.
          let s2 = s1\<lparr>su_world := (su_world s1)\<lparr>collector := Some NewMetricsCollector\<rparr>\<rparr>;
              relayService = NewRelayService NewAuditOutboxStore (ac_OutboxBatchSize (cfg_Audit config)) (relay_config (cfg_Audit config));
              keyProvider = static_provider (NewStaticKeyProvider (sc_JWTKeyID (cfg_Security config))
                (sc_JWTSecret (cfg_Security config)) (sc_JWTLegacyKeys (cfg_Security config)))
          in start_bind (or_close L ''idempotency coordinator init failed''
               (library (NewDefaultCoordinator (ic_LeaseTTL (cfg_Idempotency config)) (ic_ReplayTTL (cfg_Idempotency config))))) (\<lambda>coordinator.
             start_bind (or_close L ''auth service init failed''
               (library (NewServiceWithKeyProvider (Some keyProvider) (sc_JWTIssuer (cfg_Security config)) (sc_JWTAudience (cfg_Security config))
                  (sc_AccessTokenTTL (cfg_Security config)) (sc_RefreshTokenTTL (cfg_Security config))))) (\<lambda>authService.
             start_bind (or_close L ''validator init failed'' (library (validation_New L))) (\<lambda>_.
             start_bind (or_close L ''router init failed'' (router_setup L (hc_TrustedProxies (cfg_HTTP config)))) (\<lambda>_ s3.
             case auth_limiter of
               Inl message \<Rightarrow> (Inl (StartPanic message), s3)
             | Inr limiter \<Rightarrow>
                 (Inr \<lparr>ap_database = db,
                       ap_server = \<lparr>hs_Addr = hc_Address (cfg_HTTP config), hs_Handler = app_api A0 config keyProvider authService coordinator,
                         hs_ReadTimeout = hc_ReadTimeout (cfg_HTTP config), hs_WriteTimeout = hc_WriteTimeout (cfg_HTTP config),
                         hs_IdleTimeout = hc_IdleTimeout (cfg_HTTP config)\<rparr>,
                       ap_relayService = relayService, ap_limiter = limiter,
                       ap_shutdownTimeout = hc_ShutdownTimeout (cfg_HTTP config),
                       ap_relayInterval = ac_RelayInterval (cfg_Audit config)\<rparr>, s3))))) s2)
          (warnOnUntrustedProxyConfiguration config logger s))"

section \<open>What starting leaves behind\<close>

lemma start_bind_Inr:
  "start_bind m f s = (Inr y, s') \<longleftrightarrow> (\<exists>x s1. m s = (Inr x, s1) \<and> f x s1 = (Inr y, s'))"
  by (auto simp: start_bind_def split: prod.splits sum.splits)

lemma start_bind_Inl:
  "start_bind m f s = (Inl e, s') \<longleftrightarrow> m s = (Inl e, s') \<or> (\<exists>x s1. m s = (Inr x, s1) \<and> f x s1 = (Inl e, s'))"
  by (auto simp: start_bind_def split: prod.splits sum.splits)

lemma or_close_Inr: "or_close L what r s = (Inr x, s') \<longleftrightarrow> r = Inr x \<and> s' = s"
  by (auto simp: or_close_def split: sum.splits)

lemma or_close_Inl: "or_close L what r s = (Inl e, s') \<Longrightarrow> su_pools s' = su_pools s - 1 \<and> su_world s' = su_world s"
  by (auto simp: or_close_def close_pool_def split: sum.splits)

lemma library_Inr [simp]: "library r = Inr x \<longleftrightarrow> r = Inr x"
  by (cases r) auto

lemma auth_limiter_made: "\<exists>l. auth_limiter = Inr l \<and> limiter_ok l"
proof -
  obtain l where l: "auth_limiter = Inr l"
    by (simp add: auth_limiter_def newIPRateLimiter_def wrap64_id int64_range_def)
  then show ?thesis using newIPRateLimiter_ok[of 10 "1 * Minute" l] by (simp add: auth_limiter_def int64_range_def)
qed

lemma warn_keeps [simp]:
  "su_pools (warnOnUntrustedProxyConfiguration c b s) = su_pools s" "su_world (warnOnUntrustedProxyConfiguration c b s) = su_world s"
  by (simp_all add: warnOnUntrustedProxyConfiguration_def)

lemma database_Open_pools:
  assumes "database_Open L P c s = (r, s')"
  shows "(case r of Inl _ \<Rightarrow> su_pools s' = su_pools s
      | Inr database \<Rightarrow> su_pools s' = Suc (su_pools s) \<and> db_URL database = dc_URL c) \<and> committed (su_world s') = committed (su_world s)
    \<and> working (su_world s') = working (su_world s)"
  using assms
  by (auto simp: database_Open_def close_pool_def PingContext_def pool_exec_def Let_def split: option.splits prod.splits sum.splits db_fault.splits)

text \<open>The wiring succeeds exactly on what it leaves behind; every failure after the database was opened closes it.\<close>

lemma app_New_cases:
  assumes "app_New L A0 config logger s = (r, s')"
  shows "committed (su_world s') = committed (su_world s) \<and> working (su_world s') = working (su_world s)
    \<and> (case r of
         Inl _ \<Rightarrow> su_pools s' = su_pools s
       | Inr ap \<Rightarrow> su_pools s' = Suc (su_pools s) \<and> ValidateSecretStrength (legacy_order L) config = None
           \<and> collector (su_world s') = Some NewMetricsCollector \<and> limiter_ok (ap_limiter ap)
           \<and> db_URL (ap_database ap) = dc_URL (cfg_Database config)
           \<and> ap_relayService ap = NewRelayService NewAuditOutboxStore (ac_OutboxBatchSize (cfg_Audit config)) (relay_config (cfg_Audit config))
           \<and> (\<exists>coordinator authService.
                NewCoordinator (ic_LeaseTTL (cfg_Idempotency config)) (ic_ReplayTTL (cfg_Idempotency config)) = Inr coordinator
                \<and> hs_Handler (ap_server ap) = app_api A0 config
                     (static_provider (NewStaticKeyProvider (sc_JWTKeyID (cfg_Security config))
                        (sc_JWTSecret (cfg_Security config)) (sc_JWTLegacyKeys (cfg_Security config)))) authService coordinator))"
proof (cases "ValidateSecretStrength (legacy_order L) config")
  case None
  obtain l where l: "auth_limiter = Inr l" "limiter_ok l" using auth_limiter_made by blast
  show ?thesis
  proof (cases r)
    case (Inl e)
    then show ?thesis using assms None
      by (auto simp: app_New_def start_bind_Inl or_close_Inr l(1) Let_def dest!: database_Open_pools or_close_Inl)
  next
    case (Inr ap)
    then show ?thesis using assms None l(2)
      by (auto simp: app_New_def start_bind_Inr or_close_Inr l(1) NewDefaultCoordinator_def Let_def dest!: database_Open_pools)
  qed
qed (use assms in \<open>auto simp: app_New_def\<close>)

lemma app_New_no_panic: "app_New L A0 config logger s \<noteq> (Inl (StartPanic message), s')"
proof -
  obtain l where l: "auth_limiter = Inr l" using auth_limiter_made by blast
  show ?thesis
    by (auto simp: l app_New_def start_bind_Inl or_close_Inr or_close_def close_pool_def database_Open_def Let_def
        split: option.splits prod.splits sum.splits)
qed

section \<open>Running\<close>

datatype run_phase =
    Starting
  | Serving
  | ShuttingDown
  | Stopping "app_error option"
  | Waiting "app_error option"
  | Closing "app_error option"
  | Ended "app_error option"

text \<open>
  \<open>pr_handling\<close>: handlers may be running; \<open>Shutdown\<close> waits for them unless it times out, and an error of
  \<open>ListenAndServe\<close> does not end them. \<open>pr_stats\<close>: the goroutine of the pool's statistics is alive.
\<close>

record process =
  pr_phase :: run_phase
  pr_open :: bool
  pr_handling :: bool
  pr_stats :: bool
  pr_worker :: relay_worker
  pr_limiter :: ipRateLimiter

definition pr_server :: "process \<Rightarrow> server" where
  "pr_server p = serving (pr_limiter p) (rw_world (pr_worker p))"

definition with_server :: "server \<Rightarrow> process \<Rightarrow> process" where
  "with_server s p = p\<lparr>pr_worker := (pr_worker p)\<lparr>rw_world := srv_world s\<rparr>, pr_limiter := srv_limiter s\<rparr>"

definition new_process :: "ipRateLimiter \<Rightarrow> world \<Rightarrow> process" where
  "new_process l w =
     \<lparr>pr_phase = Starting, pr_open = True, pr_handling = False, pr_stats = False, pr_worker = new_worker w, pr_limiter = l\<rparr>"

text \<open>
  The body of \<open>Run\<close> and its deferred calls, in their reverse order: \<open>StopWorker\<close>, which waits, then
  \<open>database.Close\<close>. A handler that outlives the shutdown finds the pool closed and can reach the database no more.
\<close>

inductive app_step :: "api \<Rightarrow> relay_settings \<Rightarrow> process \<Rightarrow> process \<Rightarrow> bool" for A S where
  start_fails: "pr_phase p = Starting \<Longrightarrow> StartWorker (pr_worker p) = (Inl e, w) \<Longrightarrow>
    app_step A S p (p\<lparr>pr_worker := w, pr_phase := Closing (Some (Wrapped ''start audit relay worker'' (LibraryError e)))\<rparr>)"
| start: "pr_phase p = Starting \<Longrightarrow> StartWorker (pr_worker p) = (Inr u, w) \<Longrightarrow>
    app_step A S p (p\<lparr>pr_worker := w, pr_phase := Serving, pr_handling := True, pr_stats := True\<rparr>)"
| worker: "goroutine_step (api_P A) S (pr_worker p) w \<Longrightarrow> app_step A S p (p\<lparr>pr_worker := w\<rparr>)"
| request: "pr_handling p \<Longrightarrow> pr_open p \<Longrightarrow> NewRouter A c (pr_server p) = Returned c' s' \<Longrightarrow> app_step A S p (with_server s' p)"
| stats: "pr_stats p \<Longrightarrow> app_step A S p (with_server (count_metric (UpdateDBStats opened inUse idle) (pr_server p)) p)"
| stats_end: "pr_stats p \<Longrightarrow> rw_cancelled (pr_worker p) \<Longrightarrow> app_step A S p (p\<lparr>pr_stats := False\<rparr>)"
| cancel: "app_step A S p (p\<lparr>pr_worker := (pr_worker p)\<lparr>rw_cancelled := True\<rparr>\<rparr>)"
| context_done: "pr_phase p = Serving \<Longrightarrow> rw_cancelled (pr_worker p) \<Longrightarrow> app_step A S p (p\<lparr>pr_phase := ShuttingDown\<rparr>)"
| shutdown: "pr_phase p = ShuttingDown \<Longrightarrow> app_step A S p (p\<lparr>pr_phase := Stopping None, pr_handling := False\<rparr>)"
| shutdown_fails: "pr_phase p = ShuttingDown \<Longrightarrow>
    app_step A S p (p\<lparr>pr_phase := Stopping (Some (Wrapped ''shutdown server'' (LibraryError e)))\<rparr>)"
| server_closed: "pr_phase p = Serving \<Longrightarrow> app_step A S p (p\<lparr>pr_phase := Stopping None\<rparr>)"
| server_fails: "pr_phase p = Serving \<Longrightarrow>
    app_step A S p (p\<lparr>pr_phase := Stopping (Some (Wrapped ''run server'' (LibraryError e)))\<rparr>)"
| stop: "pr_phase p = Stopping r \<Longrightarrow> app_step A S p (p\<lparr>pr_worker := StopWorker (pr_worker p), pr_phase := Waiting r\<rparr>)"
| stopped: "pr_phase p = Waiting r \<Longrightarrow> g \<in># rw_waiting (pr_worker p) \<Longrightarrow> g \<in> rw_workerDone (pr_worker p) \<Longrightarrow>
    app_step A S p (p\<lparr>pr_worker := (pr_worker p)\<lparr>rw_waiting := rw_waiting (pr_worker p) - {#g#}\<rparr>, pr_phase := Closing r\<rparr>)"
| no_worker: "pr_phase p = Waiting r \<Longrightarrow> rw_waiting (pr_worker p) = {#} \<Longrightarrow> app_step A S p (p\<lparr>pr_phase := Closing r\<rparr>)"
| close: "pr_phase p = Closing r \<Longrightarrow> app_step A S p (p\<lparr>pr_phase := Ended r, pr_open := False\<rparr>)"

inductive_cases app_stepE: "app_step A S p p'"

section \<open>The order of the shutdown\<close>

fun phase_inv :: "run_phase \<Rightarrow> relay_worker \<Rightarrow> bool" where
  "phase_inv Starting w \<longleftrightarrow> rw_gen w = 0 \<and> rw_waiting w = {#}"
| "phase_inv (Waiting r) w \<longleftrightarrow> rw_gen w = 1 \<and> rw_waiting w = {#1#}"
| "phase_inv (Closing r) w \<longleftrightarrow> \<not> rw_running w \<and> rw_waiting w = {#} \<and> rw_phase w = Map.empty"
| "phase_inv (Ended r) w \<longleftrightarrow> \<not> rw_running w \<and> rw_waiting w = {#} \<and> rw_phase w = Map.empty"
| "phase_inv _ w \<longleftrightarrow> rw_gen w = 1 \<and> rw_waiting w = {#}"

definition app_inv :: "process \<Rightarrow> bool" where
  "app_inv p \<longleftrightarrow> worker_inv (pr_worker p) \<and> phase_inv (pr_phase p) (pr_worker p)
     \<and> (pr_open p \<longleftrightarrow> (\<forall>r. pr_phase p \<noteq> Ended r))"

lemma app_inv_new: "app_inv (new_process l w)"
  using worker_inv_new by (simp add: app_inv_def new_process_def) (simp add: new_worker_def)

lemma goroutine_keeps:
  "goroutine_step P S w w' \<Longrightarrow> rw_gen w' = rw_gen w \<and> rw_waiting w' = rw_waiting w \<and> rw_cancelled w' = rw_cancelled w"
  by (induction rule: goroutine_step.induct)
     (simp_all add: set_phase_def run_world_def stopWorker_def close_stopChan_def close_workerDone_def)

lemma goroutine_alive: "goroutine_step P S w w' \<Longrightarrow> rw_phase w \<noteq> Map.empty"
  by (induction rule: goroutine_step.induct) auto

lemma phase_inv_goroutine: "goroutine_step P S w w' \<Longrightarrow> phase_inv ph w \<Longrightarrow> phase_inv ph w'"
  using goroutine_keeps[of P S w w'] goroutine_alive[of P S w w'] by (cases ph) auto

lemma inv_other_world:
  "worker_inv (w\<lparr>rw_world := x\<rparr>) = worker_inv w" "phase_inv ph (w\<lparr>rw_world := x\<rparr>) = phase_inv ph w"
  "worker_inv (w\<lparr>rw_cancelled := b\<rparr>) = worker_inv w" "phase_inv ph (w\<lparr>rw_cancelled := b\<rparr>) = phase_inv ph w"
  by (simp_all add: worker_inv_def, cases ph, simp_all, cases ph, simp_all)

text \<open>The only worker has ended when its caller returns, so nothing is left of it.\<close>

lemma last_worker:
  assumes "worker_inv w" "rw_gen w = 1" "rw_waiting w = {#1#}" "g \<in># rw_waiting w" "g \<in> rw_workerDone w"
  shows "\<not> rw_running w \<and> rw_phase w = Map.empty"
proof -
  have g: "g = 1" using assms(3,4) by simp
  have "set_mset (rw_waiting w) \<subseteq> rw_stopChans w" using assms(1) unfolding worker_inv_def by blast
  then have "1 \<in> rw_stopChans w" using assms(3) by simp
  then have "\<not> rw_running w" using assms(1,2) unfolding worker_inv_def by metis
  moreover have "rw_phase w k = None" for k
    using assms(1,2,5) g unfolding worker_inv_def by (metis One_nat_def Suc_leI le_antisym)
  ultimately show ?thesis by auto
qed

lemma stop_waiting:
  "worker_inv w \<Longrightarrow> rw_gen w = 1 \<Longrightarrow> rw_waiting w = {#} \<Longrightarrow> rw_gen (StopWorker w) = 1 \<and> rw_waiting (StopWorker w) = {#1#}"
  by (simp add: StopWorker_def close_stopChan_def Let_def)

lemma app_inv_step: "app_step A S p p' \<Longrightarrow> app_inv p \<Longrightarrow> app_inv p'"
proof (induction rule: app_step.induct)
  case (start_fails p e w)
  then show ?case by (auto simp: app_inv_def worker_inv_def StartWorker_def split: if_splits)
next
  case (start p u w)
  then have "worker_inv w" using worker_inv_start unfolding app_inv_def by blast
  then show ?case using start by (auto simp: app_inv_def StartWorker_def split: if_splits)
next
  case (worker p w)
  then show ?case using worker_inv_goroutine phase_inv_goroutine by (simp add: app_inv_def)
next
  case (stop p r)
  then show ?case using worker_inv_stop(2) stop_waiting by (simp add: app_inv_def)
next
  case (stopped p r g)
  then have "\<not> rw_running (pr_worker p) \<and> rw_phase (pr_worker p) = Map.empty" using last_worker by (simp add: app_inv_def)
  then show ?case using stopped worker_inv_step[OF worker_step.stop_returns[OF stopped(2,3)]] by (simp add: app_inv_def)
qed (simp_all add: app_inv_def with_server_def inv_other_world)

lemma app_inv_run: "(app_step A S)\<^sup>*\<^sup>* p p' \<Longrightarrow> app_inv p \<Longrightarrow> app_inv p'"
  by (induction rule: rtranclp_induct) (auto intro: app_inv_step)

section \<open>Reaching the end\<close>

text \<open>What \<open>Run\<close> has decided to return, nil while it has not.\<close>

fun decided :: "run_phase \<Rightarrow> app_error option" where
  "decided (Stopping r) = r"
| "decided (Waiting r) = r"
| "decided (Closing r) = r"
| "decided (Ended r) = r"
| "decided _ = None"

definition ends :: "api \<Rightarrow> relay_settings \<Rightarrow> process \<Rightarrow> bool" where
  "ends A S p \<longleftrightarrow> (\<exists>p'. (app_step A S)\<^sup>*\<^sup>* p p' \<and> pr_phase p' = Ended (decided (pr_phase p)))"

lemma ends_step: "app_step A S p p1 \<Longrightarrow> decided (pr_phase p1) = decided (pr_phase p) \<Longrightarrow> ends A S p1 \<Longrightarrow> ends A S p"
  unfolding ends_def by (metis converse_rtranclp_into_rtranclp)

lemma ends_Closing: "pr_phase p = Closing r \<Longrightarrow> ends A S p"
  by (rule ends_step[OF app_step.close]) (auto simp: ends_def intro: exI[of _ "p\<lparr>pr_phase := Ended r, pr_open := False\<rparr>"])

lemma goroutine_app_run: "(goroutine_step (api_P A) S)\<^sup>*\<^sup>* (pr_worker p) w \<Longrightarrow> (app_step A S)\<^sup>*\<^sup>* p (p\<lparr>pr_worker := w\<rparr>)"
proof (induction rule: rtranclp_induct)
  case (step w1 w2)
  then show ?case using app_step.worker[of A S "p\<lparr>pr_worker := w1\<rparr>" w2] by simp
qed simp

lemma ends_Waiting:
  assumes "app_inv p" "pr_phase p = Waiting r"
  shows "ends A S p"
proof -
  let ?w = "pr_worker p"
  have w: "worker_inv ?w" "rw_waiting ?w = {#1#}" using assms by (simp_all add: app_inv_def)
  then have "1 \<in> rw_stopChans ?w" unfolding worker_inv_def by (metis insert_subset set_mset_add_mset_insert)
  from stopped_ends[OF w(1) this] obtain w' where
    w': "(goroutine_step (api_P A) S)\<^sup>*\<^sup>* ?w w'" "1 \<in> rw_workerDone w'" "rw_waiting w' = {#1#}" using w(2) by auto
  let ?p = "p\<lparr>pr_worker := w'\<rparr>"
  have "ends A S ?p"
    by (rule ends_step[OF app_step.stopped[of _ r 1]]) (use w'(2,3) in \<open>simp_all add: assms(2) ends_Closing\<close>)
  then show ?thesis using goroutine_app_run[OF w'(1)] unfolding ends_def by (auto intro: rtranclp_trans)
qed

lemma ends_Stopping:
  assumes "app_inv p" "pr_phase p = Stopping r"
  shows "ends A S p"
proof -
  note step = app_step.stop[of p r A S, OF assms(2)]
  show ?thesis by (rule ends_step[OF step _ ends_Waiting[OF app_inv_step[OF step assms(1)]]]) (simp_all add: assms(2))
qed

lemma ends_ShuttingDown:
  assumes "app_inv p" "pr_phase p = ShuttingDown"
  shows "ends A S p"
proof -
  note step = app_step.shutdown[of p A S, OF assms(2)]
  show ?thesis by (rule ends_step[OF step _ ends_Stopping[OF app_inv_step[OF step assms(1)]]]) (simp_all add: assms(2))
qed

lemma ends_Serving:
  assumes "app_inv p" "pr_phase p = Serving" "rw_cancelled (pr_worker p)"
  shows "ends A S p"
proof -
  note step = app_step.context_done[of p A S, OF assms(2,3)]
  show ?thesis by (rule ends_step[OF step _ ends_ShuttingDown[OF app_inv_step[OF step assms(1)]]]) (simp_all add: assms(2))
qed

lemma ends_Starting:
  assumes "app_inv p" "pr_phase p = Starting" "rw_cancelled (pr_worker p)"
  shows "ends A S p"
proof -
  have "\<not> rw_running (pr_worker p)" using assms(1,2) by (auto simp: app_inv_def worker_inv_def)
  then obtain w where w: "StartWorker (pr_worker p) = (Inr (), w)" "rw_cancelled w"
    using assms(3) by (simp add: StartWorker_def)
  note step = app_step.start[of p "()" w A S, OF assms(2) w(1)]
  show ?thesis by (rule ends_step[OF step _ ends_Serving[OF app_inv_step[OF step assms(1)]]]) (simp_all add: assms(2) w(2))
qed

lemma ends_Ended: "pr_phase p = Ended r \<Longrightarrow> ends A S p"
  by (auto simp: ends_def)

lemma cancelled_ends: "app_inv p \<Longrightarrow> rw_cancelled (pr_worker p) \<Longrightarrow> ends A S p"
  by (cases "pr_phase p")
     (blast intro: ends_Starting ends_Serving ends_ShuttingDown ends_Stopping ends_Waiting ends_Closing ends_Ended)+

section \<open>The process is the system\<close>

lemma pr_server_with [simp]: "pr_server (with_server s p) = s"
  by (simp add: pr_server_def with_server_def)

lemma StartWorker_world: "StartWorker w = (r, w') \<Longrightarrow> rw_world w' = rw_world w"
  by (auto simp: StartWorker_def split: if_splits)

lemma StopWorker_world: "rw_world (StopWorker w) = rw_world w"
  by (simp add: StopWorker_def close_stopChan_def Let_def)

text \<open>A step of the process is a request, a turn of the worker or of the statistics, or leaves the server as it is.\<close>

lemma app_step_cases:
  assumes "app_step A S p p'"
  obtains (request) c c' where "NewRouter A c (pr_server p) = Returned c' (pr_server p')"
    | (worker) "goroutine_step (api_P A) S (pr_worker p) (pr_worker p')" "pr_limiter p' = pr_limiter p"
    | (stats) opened inUse idle where "pr_server p' = count_metric (UpdateDBStats opened inUse idle) (pr_server p)"
    | (control) "pr_server p' = pr_server p"
  using assms
proof cases
  case (worker w)
  then show thesis by (intro that(2)) simp_all
next
  case (request c c' s')
  then show thesis by (intro that(1)) simp
next
  case (stats opened inUse idle)
  then show thesis by (intro that(3)) simp
qed (rule that(4), simp add: pr_server_def StartWorker_world StopWorker_world)+

lemma app_step_system: "app_step A S p p' \<Longrightarrow> (system_step A S)\<^sup>*\<^sup>* (pr_server p) (pr_server p')"
proof (erule app_step_cases, goal_cases)
  case (1 c c')
  then show ?case by (blast intro: system_step.request)
next
  case 2
  then show ?case using goroutine_system[OF 2(1), of "pr_limiter p"] by (simp add: pr_server_def)
next
  case (3 opened inUse idle)
  then show ?case using system_step.pool_stats[of A S "pr_server p"] by auto
qed simp

lemma process_run_system: "(app_step A S)\<^sup>*\<^sup>* p p' \<Longrightarrow> (system_step A S)\<^sup>*\<^sup>* (pr_server p) (pr_server p')"
  by (induction rule: rtranclp_induct) (auto dest: app_step_system intro: rtranclp_trans)

section \<open>Properties\<close>

text \<open>
  C35. Starting either succeeds with exactly one new connection pool or fails and leaves none behind,
  whichever step fails and whatever the libraries report; it changes nothing in the database, and it
  never panics.
\<close>

theorem start_releases_pool:
  assumes "app_New L A0 config logger s = (r, s')"
  shows "committed (su_world s') = committed (su_world s)
    \<and> su_pools s' = su_pools s + (case r of Inl _ \<Rightarrow> 0 | Inr _ \<Rightarrow> 1) \<and> (\<forall>message. r \<noteq> Inl (StartPanic message))"
  using app_New_cases[OF assms] app_New_no_panic[of L A0 config logger s] assms by (auto split: sum.splits)

text \<open>
  C33. Shutdown in order: whatever the interleaving of requests, cancellation, server failures and the
  worker, the pool is closed only as the last step of \<open>Run\<close>, when the relay's worker has ended and nobody
  waits for it, so no turn of the relay meets a closed pool.
\<close>

theorem pool_closes_last:
  assumes "(app_step A S)\<^sup>*\<^sup>* (new_process l w) p"
  shows "pr_open p \<or> (\<exists>r. pr_phase p = Ended r) \<and> \<not> rw_running (pr_worker p) \<and> rw_waiting (pr_worker p) = {#}
    \<and> (\<forall>w'. \<not> goroutine_step (api_P A) S (pr_worker p) w')"
proof (cases "pr_open p")
  case False
  have inv: "app_inv p" by (rule app_inv_run[OF assms app_inv_new])
  then obtain r where r: "pr_phase p = Ended r" using False unfolding app_inv_def by blast
  then have "\<not> rw_running (pr_worker p)" "rw_waiting (pr_worker p) = {#}" "rw_phase (pr_worker p) = Map.empty"
    using inv by (simp_all add: app_inv_def)
  then show ?thesis using r goroutine_alive by blast
qed simp

text \<open>
  C34. Cancellation ends the program: from every reachable state in which the context is cancelled \<open>Run\<close> can
  return, with the error it had already met or with nil, and the pool is closed.
\<close>

theorem run_can_end:
  assumes "(app_step A S)\<^sup>*\<^sup>* (new_process l w) p" "rw_cancelled (pr_worker p)"
  shows "\<exists>p'. (app_step A S)\<^sup>*\<^sup>* p p' \<and> pr_phase p' = Ended (decided (pr_phase p)) \<and> \<not> pr_open p'"
proof -
  have inv: "app_inv p" by (rule app_inv_run[OF assms(1) app_inv_new])
  then obtain p' where p': "(app_step A S)\<^sup>*\<^sup>* p p'" "pr_phase p' = Ended (decided (pr_phase p))"
    using cancelled_ends[OF _ assms(2), of A S] unfolding ends_def by blast
  then show ?thesis using app_inv_run[OF p'(1) inv] unfolding app_inv_def by blast
qed

section \<open>A concrete program\<close>

definition demo_library :: app_library where
  "demo_library = \<lparr>sqlx_Open = (\<lambda>_. None), db_Close = (\<lambda>_. None), RegisterValidation = None, SetTrustedProxies = (\<lambda>_. None),
     legacy_order = (\<lambda>keys. keys)\<rparr>"

definition demo_startup :: "database \<Rightarrow> startup" where
  "demo_startup d = \<lparr>su_world = in_world d, su_pools = 0, su_warnings = []\<rparr>"

lemma demo_strong: "ValidateSecretStrength (\<lambda>keys. keys) demo_config = None"
  by (simp add: ValidateSecretStrength_def demo_config_def MinimumSecretLength_def first_error_def)

lemma demo_started:
  assumes "sqlx_Open L = sqlx_Open demo_library" "legacy_order L = legacy_order demo_library" "RegisterValidation L = None"
    "SetTrustedProxies L [] = None"
  obtains ap s' where "app_New L demo_api demo_config True (demo_startup d) = (Inr ap, s')"
proof -
  obtain l where l: "auth_limiter = Inr l" using auth_limiter_made by blast
  show thesis
    by (rule that)
       (use assms demo_strong in \<open>simp_all add: app_New_def start_bind_def or_close_def database_Open_def demo_library_def
          PingContext_def pool_exec_def demo_api_def demo_def demo_config_def NewDefaultCoordinator_def NewCoordinator_def
          NewServiceWithKeyProvider_def static_provider_def ActiveKey_def NewStaticKeyProvider_def validation_New_def router_setup_def
          l Let_def\<close>)
qed

text \<open>A router that refuses its proxies: the pool that had been opened is closed again.\<close>

theorem start_releases_pool_witness:
  "\<exists>e s'. app_New (demo_library\<lparr>SetTrustedProxies := \<lambda>_. Some (PlainError ''bad proxy'')\<rparr>) demo_api demo_config True (demo_startup demo_db)
      = (Inl e, s') \<and> su_pools s' = 0"
proof -
  let ?run = "app_New (demo_library\<lparr>SetTrustedProxies := \<lambda>_. Some (PlainError ''bad proxy'')\<rparr>) demo_api demo_config True (demo_startup demo_db)"
  obtain r s' where run: "?run = (r, s')" by force
  have "\<nexists>ap s'. ?run = (Inr ap, s')"
    by (simp add: app_New_def start_bind_Inr or_close_Inr router_setup_def demo_config_def Let_def split: option.splits)
  then obtain e where e: "r = Inl e" using run by (cases r) auto
  then show ?thesis using start_releases_pool[OF run] run by (simp add: demo_startup_def)
qed

text \<open>A process that is cancelled before it starts.\<close>

definition cancelled_process :: process where
  "cancelled_process =
     (new_process demo_limiter (in_world demo_db))
       \<lparr>pr_worker := (new_worker (in_world demo_db))\<lparr>rw_cancelled := True\<rparr>\<rparr>"

lemma cancelled_reached: "(app_step A S)\<^sup>*\<^sup>* (new_process demo_limiter (in_world demo_db)) cancelled_process"
  using app_step.cancel[of A S "new_process demo_limiter (in_world demo_db)"] by (simp add: cancelled_process_def new_process_def r_into_rtranclp)

lemma cancelled_process_facts: "rw_cancelled (pr_worker cancelled_process)" "pr_phase cancelled_process = Starting"
  by (simp_all add: cancelled_process_def new_process_def)

theorem run_can_end_witness:
  "\<exists>p'. (app_step demo_api demo_relay_settings)\<^sup>*\<^sup>* cancelled_process p' \<and> pr_phase p' = Ended None"
  using run_can_end[OF cancelled_reached cancelled_process_facts(1)] cancelled_process_facts(2) by force

lemma ended_process:
  obtains p' where "(app_step A S)\<^sup>*\<^sup>* (new_process demo_limiter (in_world demo_db)) p'" "pr_phase p' = Ended None" "\<not> pr_open p'"
proof -
  have inv: "app_inv cancelled_process" by (rule app_inv_run[OF cancelled_reached app_inv_new])
  then obtain p' where p': "(app_step A S)\<^sup>*\<^sup>* cancelled_process p'" "pr_phase p' = Ended None"
    using cancelled_ends[OF _ cancelled_process_facts(1), of A S] cancelled_process_facts(2) unfolding ends_def by force
  then have "\<not> pr_open p'" using app_inv_run[OF p'(1) inv] unfolding app_inv_def by blast
  then show thesis using that[OF rtranclp_trans[OF cancelled_reached p'(1)] p'(2)] by blast
qed

theorem pool_closes_last_witness:
  "\<exists>p. (app_step demo_api demo_relay_settings)\<^sup>*\<^sup>* (new_process demo_limiter (in_world demo_db)) p
     \<and> \<not> pr_open p \<and> \<not> rw_running (pr_worker p)"
proof -
  obtain p where p: "(app_step demo_api demo_relay_settings)\<^sup>*\<^sup>* (new_process demo_limiter (in_world demo_db)) p" "\<not> pr_open p"
    by (rule ended_process)
  then show ?thesis using pool_closes_last[OF p(1)] by blast
qed

end
