(* ===== verification/Commands.thy ===== *)
theory Commands
  imports Application
begin

text \<open>
  The two programs \<open>cmd/api/main.go\<close> and \<open>cmd/migrate/main.go\<close> with \<open>internal/migration/migration.go\<close>. The migration command
  is a function of its flags and its environment; what it did to the outside is the list of its actions, in
  order, and its exit status (its connection pool ends with the process). The migration library, the file system and the seed's statement are arguments.
\<close>

section \<open>Migrations\<close>

datatype migration_call = Up | Down | Steps int

datatype migration_result = Applied | NoChange | MigrationFailed go_error

datatype seed_error = NotAuthorized | UnparsedURL | NotLoopback string

record migrate_library =
  filepath_Abs :: "string \<Rightarrow> go_error + string"
  filepath_Join :: "string \<Rightarrow> string \<Rightarrow> string"
  migrate_New :: "string \<Rightarrow> string \<Rightarrow> go_error option"
  migrate_call :: "string \<Rightarrow> string \<Rightarrow> migration_call \<Rightarrow> migration_result"
  os_ReadFile :: "string \<Rightarrow> go_error + string"
  seed_Exec :: "string \<Rightarrow> go_error option"

text \<open>What a command does outside: the URL of the database, and what it ran there.\<close>

datatype command_action =
    Migrates string migration_call migration_result
  | Seeds string string

text \<open>The text of an unsupported action is not quoted as the message does.\<close>

definition migration_Run :: "migrate_library \<Rightarrow> string \<Rightarrow> string \<Rightarrow> string \<Rightarrow> int \<Rightarrow> (go_error + unit) \<times> command_action list" where
  "migration_Run M databaseURL directory action steps =
     (case filepath_Abs M directory of
        Inl err \<Rightarrow> (Inl (WrapError ''resolve migration directory'' err), [])
      | Inr absoluteDirectory \<Rightarrow>
          let source = ''file://'' @ absoluteDirectory in
          case migrate_New M source databaseURL of
            Some err \<Rightarrow> (Inl (WrapError ''initialize migrations'' err), [])
          | None \<Rightarrow>
              let run = (\<lambda>call. case migrate_call M source databaseURL call of
                            NoChange \<Rightarrow> (Inr (), [Migrates databaseURL call NoChange])
                          | MigrationFailed err \<Rightarrow> (Inl (WrapError ''run migrations'' err), [Migrates databaseURL call (MigrationFailed err)])
                          | Applied \<Rightarrow> (Inr (), [Migrates databaseURL call Applied]))
              in if action = ''up'' then run (if steps > 0 then Steps steps else Up)
                 else if action = ''down'' then run (if steps > 0 then Steps (- steps) else Down)
                 else (Inl (PlainError (''unsupported migration action '' @ action)), []))"

section \<open>The seed\<close>

definition AllowLocalSeedEnv :: string where "AllowLocalSeedEnv = ''ALLOW_LOCAL_SEED''"

definition TrimSuffix :: "string \<Rightarrow> string \<Rightarrow> string" where
  "TrimSuffix s suffix =
     (if suffix = drop (length s - length suffix) s then take (length s - length suffix) s else s)"

definition isLoopbackSeedHost :: "(rune \<Rightarrow> rune) \<Rightarrow> net_library \<Rightarrow> string \<Rightarrow> bool" where
  "isLoopbackSeedHost lower N host =
     (let host = TrimSuffix (ToLower lower (TrimSpace host)) ''.''
      in if host = ''localhost'' then True else net_ParseIP N host = Some True)"

definition AssertLocalSeedTarget :: "(rune \<Rightarrow> rune) \<Rightarrow> net_library \<Rightarrow> string \<Rightarrow> bool \<Rightarrow> seed_error option" where
  "AssertLocalSeedTarget lower N databaseURL authorized =
     (if \<not> authorized then Some NotAuthorized
      else case url_Parse N databaseURL of
             None \<Rightarrow> Some UnparsedURL
           | Some (_, _, hostname) \<Rightarrow> if \<not> isLoopbackSeedHost lower N hostname then Some (NotLoopback hostname) else None)"

definition ApplySeed :: "migrate_library \<Rightarrow> sqlx_DB \<Rightarrow> string \<Rightarrow> (go_error + unit) \<times> command_action list" where
  "ApplySeed M database path =
     (case os_ReadFile M path of
        Inl err \<Rightarrow> (Inl (WrapError ''read seed'' err), [])
      | Inr statement \<Rightarrow>
          (case seed_Exec M statement of
             Some err \<Rightarrow> (Inl (WrapError ''apply seed'' err), [Seeds (db_URL database) statement])
           | None \<Rightarrow> (Inr (), [Seeds (db_URL database) statement])))"

section \<open>The migration command\<close>

record migrate_flags =
  mf_action :: string
  mf_steps :: int
  mf_directory :: string
  mf_seed :: bool

text \<open>The seeding half: it loads the whole configuration, opens the database and applies the file.\<close>

definition seed_main :: "app_library \<Rightarrow> platform \<Rightarrow> net_library \<Rightarrow> migrate_library \<Rightarrow> environment \<Rightarrow> migrate_flags \<Rightarrow> startup
    \<Rightarrow> int \<times> command_action list" where
  "seed_main L P N M env flags s =
     (case Load N env of
        Inl _ \<Rightarrow> (1, [])
      | Inr configuration \<Rightarrow>
          (case database_Open L P (cfg_Database configuration) s of
             (Inl _, _) \<Rightarrow> (1, [])
           | (Inr database, _) \<Rightarrow>
               (case ApplySeed M database (filepath_Join M (mf_directory flags) ''000001_local_users.seed.sql'') of
                  (Inl _, actions) \<Rightarrow> (1, actions)
                | (Inr _, actions) \<Rightarrow> (0, actions))))"

definition migrate_main :: "app_library \<Rightarrow> platform \<Rightarrow> net_library \<Rightarrow> migrate_library \<Rightarrow> environment \<Rightarrow> migrate_flags \<Rightarrow> startup
    \<Rightarrow> int \<times> command_action list" where
  "migrate_main L P N M env flags s =
     (case DatabaseURL N env of
        Inl _ \<Rightarrow> (1, [])
      | Inr databaseURL \<Rightarrow>
          if mf_seed flags \<and> mf_action flags \<noteq> ''up'' then (1, [])
          else if mf_seed flags
                  \<and> AssertLocalSeedTarget (unicode_lower P) N databaseURL (env AllowLocalSeedEnv = ''1'') \<noteq> None then (1, [])
          else case migration_Run M databaseURL (mf_directory flags) (mf_action flags) (mf_steps flags) of
                 (Inl _, actions) \<Rightarrow> (1, actions)
               | (Inr _, actions) \<Rightarrow>
                   if \<not> mf_seed flags then (0, actions)
                   else case seed_main L P N M env flags s of (status, seeding) \<Rightarrow> (status, actions @ seeding))"

section \<open>The server command\<close>

fun is_Canceled :: "app_error \<Rightarrow> bool" where
  "is_Canceled (Wrapped _ e) = is_Canceled e"
| "is_Canceled (LibraryError e) = (DriverError ContextCanceled \<in> set (error_chain e))"
| "is_Canceled (PingError e _) = (DriverError ContextCanceled \<in> set (error_chain e))"
| "is_Canceled _ = False"

text \<open>Up to \<open>Run\<close>: the exit status 1, or the application and its state.\<close>

definition api_start :: "app_library \<Rightarrow> api \<Rightarrow> net_library \<Rightarrow> environment \<Rightarrow> startup \<Rightarrow> (int + Application) \<times> startup" where
  "api_start L A0 N env s =
     (case Load N env of
        Inl _ \<Rightarrow> (Inl 1, s)
      | Inr configuration \<Rightarrow>
          (case app_New L A0 configuration True s of
             (Inl _, s1) \<Rightarrow> (Inl 1, s1)
           | (Inr application, s1) \<Rightarrow> (Inr application, s1)))"

definition api_exit :: "app_error option \<Rightarrow> int" where
  "api_exit result = (case result of None \<Rightarrow> 0 | Some err \<Rightarrow> if is_Canceled err then 0 else 1)"

section \<open>Properties\<close>

lemma DatabaseURL_parsed: "DatabaseURL N env = Inr url \<Longrightarrow> url_Parse N url \<noteq> None"
  by (auto simp: DatabaseURL_def bind_result_def required_def Let_def split: sum.splits option.splits if_splits)

lemma Load_URL: "Load N env = Inr c \<Longrightarrow> DatabaseURL N env = Inr (dc_URL (cfg_Database c))"
  unfolding Load_def by (auto simp: bind_result_Inr Let_def split: option.splits)

lemma ApplySeed_actions: "ApplySeed M database path = (r, actions) \<Longrightarrow> set actions \<subseteq> {Seeds (db_URL database) st | st. True}"
  by (auto simp: ApplySeed_def split: sum.splits option.splits)

lemma database_Open_URL: "database_Open L P c s = (Inr database, s') \<Longrightarrow> db_URL database = dc_URL c"
  using database_Open_pools[of L P c s "Inr database" s'] by simp

lemma seed_main_actions:
  assumes "seed_main L P N M env flags s = (status, actions)" "DatabaseURL N env = Inr databaseURL"
  shows "set actions \<subseteq> {Seeds databaseURL st | st. True}"
  using assms
  by (auto simp: seed_main_def split: sum.splits prod.splits dest!: Load_URL database_Open_URL ApplySeed_actions)

text \<open>A migration run that succeeds did one call, which applied or found nothing to apply.\<close>

lemma migration_Run_actions:
  "migration_Run M url dir action steps = (r, actions) \<Longrightarrow>
     (\<forall>u st. Seeds u st \<notin> set actions)
     \<and> (r = Inr () \<longrightarrow> (\<exists>call result. actions = [Migrates url call result] \<and> result \<in> {Applied, NoChange}
           \<and> (action = ''up'' \<longrightarrow> call = Up \<or> (\<exists>n > 0. call = Steps n))))"
  by (auto simp: migration_Run_def Let_def split: sum.splits option.splits if_splits migration_result.splits)

text \<open>
  C36. The seed of accounts with known passwords is applied only where it may be: the flag was given with
  the action up, the environment allows it, the host of the database URL is a loopback host, and on
  that same database an up migration has just succeeded.
\<close>

theorem seed_only_local:
  assumes "migrate_main L P N M env flags s = (status, actions)" "Seeds target statement \<in> set actions"
  shows "mf_seed flags \<and> mf_action flags = ''up'' \<and> env AllowLocalSeedEnv = ''1''
    \<and> (\<exists>scheme host hostname. url_Parse N target = Some (scheme, host, hostname) \<and> isLoopbackSeedHost (unicode_lower P) N hostname)
    \<and> (\<exists>call result rest. actions = Migrates target call result # rest \<and> result \<in> {Applied, NoChange}
        \<and> (call = Up \<or> (\<exists>n > 0. call = Steps n)))"
proof -
  obtain url where url: "DatabaseURL N env = Inr url" using assms by (cases "DatabaseURL N env") (auto simp: migrate_main_def)
  have flags: "mf_seed flags \<longrightarrow> mf_action flags = ''up'' \<and> AssertLocalSeedTarget (unicode_lower P) N url (env AllowLocalSeedEnv = ''1'') = None"
    using assms url by (auto simp: migrate_main_def split: if_splits)
  obtain r first where run: "migration_Run M url (mf_directory flags) (mf_action flags) (mf_steps flags) = (r, first)" by force
  note acts = migration_Run_actions[OF run]
  obtain st seeding where seed: "seed_main L P N M env flags s = (st, seeding)" by force
  have sd: "mf_seed flags" "r = Inr ()" "actions = first @ seeding" "Seeds target statement \<in> set seeding"
    using assms url flags run acts seed by (auto simp: migrate_main_def split: if_splits sum.splits)
  have target: "target = url" using seed_main_actions[OF seed url] sd(4) by blast
  have up: "mf_action flags = ''up''" "AssertLocalSeedTarget (unicode_lower P) N url (env AllowLocalSeedEnv = ''1'') = None"
    using flags sd(1) by simp_all
  obtain call result where m: "first = [Migrates url call result]" "result \<in> {Applied, NoChange}" "call = Up \<or> (\<exists>n > 0. call = Steps n)"
    using acts sd(2) up(1) by blast
  have "actions = Migrates target call result # seeding" using sd(3) m(1) target by simp
  moreover have "env AllowLocalSeedEnv = ''1'' \<and> (\<exists>scheme host hostname. url_Parse N target = Some (scheme, host, hostname)
      \<and> isLoopbackSeedHost (unicode_lower P) N hostname)"
    using up(2) target by (auto simp: AssertLocalSeedTarget_def split: if_splits option.splits)
  ultimately show ?thesis using sd(1) up(1) m(2,3) by blast
qed

section \<open>A concrete command\<close>

definition local_net :: net_library where
  "local_net = demo_net\<lparr>url_Parse := \<lambda>_. Some (''postgres'', ''localhost'', ''localhost'')\<rparr>"

definition local_env :: environment where
  "local_env = demo_env(AllowLocalSeedEnv := ''1'')"

definition demo_migrate :: migrate_library where
  "demo_migrate =
     \<lparr>filepath_Abs = Inr, filepath_Join = (\<lambda>d f. d @ ''/'' @ f), migrate_New = (\<lambda>_ _. None), migrate_call = (\<lambda>_ _ _. NoChange),
      os_ReadFile = (\<lambda>_. Inr ''INSERT''), seed_Exec = (\<lambda>_. None)\<rparr>"

definition seed_flags :: migrate_flags where
  "seed_flags = \<lparr>mf_action = ''up'', mf_steps = 0, mf_directory = ''migrations'', mf_seed = True\<rparr>"

lemma local_Load: "Load local_net local_env = Inr demo_config"
proof -
  have "validate local_net demo_config = None"
    using demo_texts(4) by (simp add: validate_def demo_config_def first_error_def)
  then show ?thesis
    by (simp add: Load_def DatabaseURL_def required_def stringValue_def readDuration_def readInt_def readInt64_def
        trusted_proxies_def legacy_keys_def local_env_def AllowLocalSeedEnv_def demo_env_def local_net_def demo_net_def demo_texts
        demo_duration split_once_def demo_config_def Let_def)
qed

lemma local_host: "isLoopbackSeedHost (unicode_lower demo) local_net ''localhost''"
proof -
  have trim: "TrimSpace ''localhost'' = ''localhost''" by (rule TrimSpace_graphic; code_simp)
  have "is_ascii ''localhost''" "map lower_byte ''localhost'' = ''localhost''" by code_simp+
  then have "ToLower (unicode_lower demo) ''localhost'' = ''localhost''" by (simp only: ToLower_def if_True)
  then show ?thesis unfolding isLoopbackSeedHost_def trim by (simp add: TrimSuffix_def)
qed

lemma local_seeds:
  "migrate_main demo_library demo local_net demo_migrate local_env seed_flags (demo_startup demo_db)
     = (0, [Migrates ''postgres://db/app'' Up NoChange, Seeds ''postgres://db/app'' ''INSERT''])"
proof -
  have url: "DatabaseURL local_net local_env = Inr ''postgres://db/app''"
    using Load_URL[OF local_Load] by (simp add: demo_config_def)
  have "AssertLocalSeedTarget (unicode_lower demo) local_net ''postgres://db/app'' True = None"
    using local_host by (simp add: AssertLocalSeedTarget_def local_net_def)
  moreover have "local_env AllowLocalSeedEnv = ''1''" by (simp add: local_env_def)
  moreover have "seed_main demo_library demo local_net demo_migrate local_env seed_flags (demo_startup demo_db)
      = (0, [Seeds ''postgres://db/app'' ''INSERT''])"
    by (simp add: seed_main_def local_Load database_Open_def demo_library_def demo_config_def PingContext_def pool_exec_def demo_def
        demo_startup_def ApplySeed_def demo_migrate_def Let_def)
  ultimately show ?thesis
    by (simp add: migrate_main_def url seed_flags_def migration_Run_def demo_migrate_def)
qed

theorem seed_only_local_witness:
  "local_env AllowLocalSeedEnv = ''1'' \<and> (\<exists>scheme host hostname. url_Parse local_net ''postgres://db/app'' = Some (scheme, host, hostname)
     \<and> isLoopbackSeedHost (unicode_lower demo) local_net hostname)"
  using seed_only_local[OF local_seeds, of "''postgres://db/app''" "''INSERT''"] by simp

end
