(* ===== verification/Listing.thy ===== *)
theory Listing
  imports Ledger "HOL-Library.Multiset"
begin

text \<open>
  What \<open>Service.List\<close> promises: the WHERE clause that the store builds, with its numbered placeholders,
  selects the rows that match the filter, and every page is the asked slice of some arrangement of them in
  the order asked for. PostgreSQL may arrange rows of equal keys differently from one query to the next; where no
  two matching rows have equal keys, walking the pages gives every row once.
\<close>

section \<open>The filter\<close>

definition matches :: "platform \<Rightarrow> (string \<Rightarrow> string \<Rightarrow> bool) \<Rightarrow> DisbursementFilter \<Rightarrow> dbDisbursement \<Rightarrow> bool" where
  "matches P ilike filt r \<longleftrightarrow>
     row_DeletedAt r = None
     \<and> (fl_Status filt = '''' \<or> row_Status r = fl_Status filt)
     \<and> (let search = TrimSpace (fl_Search filt); pattern = ''%'' @ search @ ''%''
        in search = '''' \<or> ilike (row_RecipientName r) pattern \<or> ilike (row_AccountNumber r) pattern)
     \<and> (case fl_DateRange filt of
          None \<Rightarrow> True
        | Some dr \<Rightarrow> pg_timestamptz P (FromInclusive dr) \<le> row_CreatedAt r \<and> row_CreatedAt r < pg_timestamptz P (ToExclusive dr))"

text \<open>Filters that PostgreSQL accepts: a status of the enum, a search text that it can store.\<close>

definition filter_ok :: "DisbursementFilter \<Rightarrow> bool" where
  "filter_ok filt \<longleftrightarrow>
     (fl_Status filt = '''' \<or> (\<exists>v. status_enum (fl_Status filt) = Inr v)) \<and> pg_text_ok (''%'' @ TrimSpace (fl_Search filt) @ ''%'')"

lemma where_rows_matches:
  assumes "filter_ok filt" "list_query filt = (conditions, args, argIndex)"
  shows "where_rows P ilike conditions args d = Inr (filter (matches P ilike filt) (disbursements d))"
proof -
  obtain v where v: "fl_Status filt = '''' \<or> status_enum (fl_Status filt) = Inr v" using assms(1) by (auto simp: filter_ok_def)
  have t: "pg_text_ok (''%'' @ TrimSpace (fl_Search filt) @ ''%'')" using assms(1) by (simp add: filter_ok_def)
  show ?thesis
    by (cases "fl_Status filt = ''''"; cases "TrimSpace (fl_Search filt) = ''''"; cases "fl_DateRange filt")
       (use v t assms(2) in \<open>auto simp: list_query_def where_rows_def matches_def placeholder_def select_where_def map_filter_simps Let_def intro!: filter_cong\<close>)
qed

lemma list_query_page: "list_query (filt\<lparr>fl_Page := p\<rparr>) = list_query filt"
  by (simp add: list_query_def Let_def cong: if_cong option.case_cong)

section \<open>The order\<close>

text \<open>
  \<open>ORDER BY\<close> on one column: \<open>not_after collate column r s\<close> says that \<open>r\<close> may stand before \<open>s\<close> in
  ascending order. The enum of the status sorts in the order of its declaration, texts by the
  database's collation.
\<close>

definition status_rank :: "string \<Rightarrow> nat" where
  "status_rank s = (if s = StatusPending then 0 else if s = StatusApproved then 1 else 2)"

definition not_after :: "(string \<Rightarrow> string \<Rightarrow> bool) \<Rightarrow> string \<Rightarrow> dbDisbursement \<Rightarrow> dbDisbursement \<Rightarrow> bool" where
  "not_after collate column r s =
     (if column = ''amount'' then row_Amount r \<le> row_Amount s
      else if column = ''recipient_name'' then collate (row_RecipientName r) (row_RecipientName s)
      else if column = ''status'' then status_rank (row_Status r) \<le> status_rank (row_Status s)
      else row_CreatedAt r \<le> row_CreatedAt s)"

definition in_order :: "(string \<Rightarrow> string \<Rightarrow> bool) \<Rightarrow> string \<Rightarrow> bool \<Rightarrow> dbDisbursement list \<Rightarrow> bool" where
  "in_order collate column asc rows =
     sorted_wrt (\<lambda>r s. if asc then not_after collate column r s else not_after collate column s r) rows"

text \<open>What \<open>ORDER BY\<close> promises of every query: a rearrangement of the rows, in order.\<close>

definition sorts :: "(string \<Rightarrow> string \<Rightarrow> bool) \<Rightarrow> (nat \<Rightarrow> string \<Rightarrow> bool \<Rightarrow> dbDisbursement list \<Rightarrow> dbDisbursement list) \<Rightarrow> bool" where
  "sorts collate order_by \<longleftrightarrow>
     (\<forall>n column asc rows. mset (order_by n column asc rows) = mset rows \<and> in_order collate column asc (order_by n column asc rows))"

definition no_ties :: "(string \<Rightarrow> string \<Rightarrow> bool) \<Rightarrow> string \<Rightarrow> dbDisbursement list \<Rightarrow> bool" where
  "no_ties collate column rows \<longleftrightarrow>
     (\<forall>r \<in> set rows. \<forall>s \<in> set rows. not_after collate column r s \<and> not_after collate column s r \<longrightarrow> r = s)"

lemma sorted_wrt_unique:
  assumes "sorted_wrt Q xs" "sorted_wrt Q ys" "mset xs = mset ys"
    and "\<And>a b. a \<in> set xs \<Longrightarrow> b \<in> set xs \<Longrightarrow> Q a b \<Longrightarrow> Q b a \<Longrightarrow> a = b"
  shows "xs = ys"
  using assms
proof (induction xs arbitrary: ys)
  case (Cons x xs)
  obtain y zs where ys: "ys = y # zs" using Cons.prems(3) by (cases ys) auto
  have same: "set (x # xs) = set (y # zs)" using Cons.prems(3) unfolding ys by (metis set_mset_mset)
  have "x = y"
  proof (rule ccontr)
    assume "x \<noteq> y"
    then have "x \<in> set zs" "y \<in> set xs" using same by auto
    then have "Q y x" "Q x y" using Cons.prems(1,2) ys by auto
    then show False using Cons.prems(4)[of x y] \<open>y \<in> set xs\<close> \<open>x \<noteq> y\<close> by simp
  qed
  moreover have "xs = zs"
    using Cons.prems ys \<open>x = y\<close> by (intro Cons.IH) auto
  ultimately show ?case using ys by simp
qed simp

lemma order_unique:
  assumes "sorts collate order_by" "no_ties collate column rows"
  shows "order_by n column asc rows = order_by m column asc rows"
proof (rule sorted_wrt_unique)
  let ?Q = "\<lambda>r s. if asc then not_after collate column r s else not_after collate column s r"
  show "sorted_wrt ?Q (order_by n column asc rows)" "sorted_wrt ?Q (order_by m column asc rows)"
    using assms(1) by (simp_all add: sorts_def in_order_def)
  show "mset (order_by n column asc rows) = mset (order_by m column asc rows)" using assms(1) by (simp add: sorts_def)
  have "set (order_by n column asc rows) = set rows" using assms(1) unfolding sorts_def by (metis set_mset_mset)
  then show "a = b" if "a \<in> set (order_by n column asc rows)" "b \<in> set (order_by n column asc rows)" "?Q a b" "?Q b a" for a b
    using that assms(2) by (auto simp: no_ties_def split: if_splits)
qed

section \<open>Pages\<close>

definition page_of :: "nat \<Rightarrow> 'a list \<Rightarrow> nat \<Rightarrow> 'a list" where
  "page_of k xs i = take k (drop (i * k) xs)"

lemma concat_pages: "concat (map (page_of k xs) [0..<n]) = take (n * k) xs"
  by (induction n) (simp_all add: page_of_def, metis add.commute take_add)

definition page_count :: "nat \<Rightarrow> nat \<Rightarrow> nat" where
  "page_count k n = (n + k - 1) div k"

lemma page_count_covers: "0 < k \<Longrightarrow> n \<le> page_count k n * k"
proof -
  assume k: "0 < k"
  have "(n + k - 1) div k * k + (n + k - 1) mod k = n + k - 1" by simp
  moreover have "(n + k - 1) mod k < k" using k by simp
  ultimately show ?thesis unfolding page_count_def by linarith
qed

lemma page_count_start: "0 < k \<Longrightarrow> p < page_count k n \<Longrightarrow> p * k < n"
proof -
  assume k: "0 < k" and "p < page_count k n"
  then have "Suc p * k \<le> n + k - 1" unfolding page_count_def by (metis Suc_leI div_times_less_eq_dividend le_trans mult_le_mono1)
  then show ?thesis using k by simp
qed

lemma list_offset_exact:
  assumes "0 \<le> p" "1 \<le> k" "p * k < 2 ^ 62"
  shows "list_offset (p + 1) k = p * k"
proof -
  have "p * 1 \<le> p * k" using assms(1,2) by (intro mult_left_mono) simp_all
  moreover have "0 \<le> p * k" using assms(1,2) by simp
  moreover have "(2::int) ^ 62 < 2 ^ 63" by simp
  ultimately have "- (2 ^ 63) \<le> p \<and> p < 2 ^ 63" "- (2 ^ 63) \<le> p * k \<and> p * k < 2 ^ 63" using assms(1,3) by linarith+
  then have "int64_range p" "int64_range (p * k)" by (simp_all add: int64_range_def)
  then show ?thesis by (simp add: list_offset_def)
qed

lemma page_count_int: "1 \<le> k \<Longrightarrow> int (page_count (nat k) n) = (int n + k - 1) div k"
  by (simp add: page_count_def zdiv_int of_nat_diff)

lemma NewPagination_exact:
  assumes "1 \<le> page" "1 \<le> k" "k \<le> MaximumLimit" "0 < n" "int n < 2 ^ 62"
  shows "NewPagination page k (int n) =
    Inr \<lparr>pg_Page = page, pg_Limit = k, pg_Total = int n, pg_TotalPages = int (page_count (nat k) n)\<rparr>"
proof -
  have "int64_range (int n + k)" "int64_range (int n + k - 1)" using assms by (simp_all add: int64_range_def MaximumLimit_def)
  moreover have "quot (int n + k - 1) k = int (page_count (nat k) n)" using assms by (simp add: quot_nonneg page_count_int)
  ultimately show ?thesis using assms by (simp add: NewPagination_def)
qed

lemma Service_List_page:
  assumes "faultless P" "filter_ok filt" "1 \<le> fl_Limit filt" "fl_Limit filt \<le> MaximumLimit"
    and rows: "filter (matches P ilike filt) (disbursements (committed w)) = rows"
    and size: "length rows < 2 ^ 62" and p: "p < page_count (nat (fl_Limit filt)) (length rows)"
  shows "fst (Service_List P ilike order_by (filt\<lparr>fl_Page := int p + 1\<rparr>) w) =
    Inr (map mapDBDisbursementToDomain (page_of (nat (fl_Limit filt))
          (order_by (Suc (calls w)) (sort_column (fl_SortBy filt)) (ToLower (unicode_lower P) (fl_SortOrder filt) = ''asc'') rows) p),
         \<lparr>pg_Page = int p + 1, pg_Limit = fl_Limit filt, pg_Total = int (length rows),
          pg_TotalPages = int (page_count (nat (fl_Limit filt)) (length rows))\<rparr>)"
proof -
  let ?k = "nat (fl_Limit filt)"
  have k: "0 < ?k" "int ?k = fl_Limit filt" using assms(3) by simp_all
  have start: "p * ?k < length rows" by (rule page_count_start[OF k(1) p])
  have count: "int (length rows) < 2 ^ 62" using size by (metis of_nat_less_iff of_nat_numeral of_nat_power)
  have "int p * fl_Limit filt < int (length rows)" using start k(2) by (metis of_nat_less_iff of_nat_mult)
  then have offset: "list_offset (int p + 1) (fl_Limit filt) = int p * fl_Limit filt"
    using count assms(3) by (intro list_offset_exact) linarith+
  have some: "0 < length rows" using start by linarith
  note pages = NewPagination_exact[OF _ assms(3,4) some count, of "int p + 1"]
  obtain conditions args argIndex where q: "list_query filt = (conditions, args, argIndex)" by (cases "list_query filt") auto
  note matching = where_rows_matches[OF assms(2) q, of P ilike "committed w", unfolded rows]
  have eff: "effective_page (int p + 1) = int p + 1" "effective_limit (fl_Limit filt) = fl_Limit filt"
    using assms(3,4) by (simp_all add: effective_page_def effective_limit_def)
  have page: "nat (int p * fl_Limit filt) = p * ?k" by (simp add: nat_mult_distrib)
  have counted: "countQuery P ilike conditions args t (committed w) = (Inr (int (length rows)), committed w)" for t
    by (simp add: countQuery_def matching)
  have "0 \<le> int p" "0 \<le> fl_Limit filt" using assms(3) by simp_all
  then have positive: "\<not> int p * fl_Limit filt < 0" using mult_nonneg_nonneg[of "int p" "fl_Limit filt"] by linarith
  have listed: "listQuery P ilike (order_by n) conditions args col asc (fl_Limit filt) (int p * fl_Limit filt) t (committed w)
      = (Inr (page_of ?k (order_by n col asc rows) p), committed w)" for t col asc n
    using assms(3) positive by (simp add: listQuery_def matching page page_of_def)
  show ?thesis using some pages
    by (simp add: Service_List_def DisbursementStore_List_def list_query_page q handle_def pool_exec_faultless[OF assms(1)]
        counted listed eff offset ok_def andThen_def lift_result_def Let_def)
qed

text \<open>
  The pages of an arrangement of the matching rows: nonempty, of at most \<open>limit\<close> rows, and together all of it.
\<close>

definition pages_of :: "nat \<Rightarrow> dbDisbursement list \<Rightarrow> Disbursement list list" where
  "pages_of k rows = map (\<lambda>i. map mapDBDisbursementToDomain (page_of k rows i)) [0..<page_count k (length rows)]"

lemma concat_pages_of: "0 < k \<Longrightarrow> concat (pages_of k rows) = map mapDBDisbursementToDomain rows"
proof -
  assume k: "0 < k"
  have "concat (pages_of k rows) = map mapDBDisbursementToDomain (concat (map (page_of k rows) [0..<page_count k (length rows)]))"
    by (simp add: pages_of_def map_concat comp_def)
  then show ?thesis using page_count_covers[OF k, of "length rows"] by (simp add: concat_pages)
qed

lemma pages_of_size: "0 < k \<Longrightarrow> page \<in> set (pages_of k rows) \<Longrightarrow> page \<noteq> [] \<and> length page \<le> k"
  using page_count_start[of k] by (fastforce simp: pages_of_def page_of_def)

text \<open>
  C31. Listing is complete and exact: the store's WHERE clause selects precisely the undeleted rows that match
  the filter's status, search text and dates, the total and the number of pages are theirs, and walking the
  pages from 1 to the last, each page in a call of its own, gives each of them exactly once and in the requested
  order, as long as the table does not change in between and no two matching rows are equal in the sorted
  column. (With equal keys PostgreSQL may arrange them differently for each query.)
\<close>

theorem list_pages_partition:
  assumes "faultless P" "filter_ok filt" "1 \<le> fl_Limit filt" "fl_Limit filt \<le> MaximumLimit"
    and "sorts collate order_by" "length (disbursements d) < 2 ^ 62"
    and "no_ties collate (sort_column (fl_SortBy filt)) (filter (matches P ilike filt) (disbursements d))"
  shows "\<exists>rows pages. mset rows = filter_mset (matches P ilike filt) (mset (disbursements d))
    \<and> in_order collate (sort_column (fl_SortBy filt)) (ToLower (unicode_lower P) (fl_SortOrder filt) = ''asc'') rows
    \<and> concat pages = map mapDBDisbursementToDomain rows
    \<and> (\<forall>page \<in> set pages. page \<noteq> [] \<and> int (length page) \<le> fl_Limit filt)
    \<and> (\<forall>p < length pages. \<forall>w. committed w = d \<longrightarrow>
         fst (Service_List P ilike order_by (filt\<lparr>fl_Page := int p + 1\<rparr>) w) =
         Inr (pages ! p, \<lparr>pg_Page = int p + 1, pg_Limit = fl_Limit filt,
           pg_Total = int (length rows), pg_TotalPages = int (length pages)\<rparr>))"
proof -
  let ?k = "nat (fl_Limit filt)" and ?rows = "filter (matches P ilike filt) (disbursements d)"
  let ?sorted = "\<lambda>n. order_by n (sort_column (fl_SortBy filt)) (ToLower (unicode_lower P) (fl_SortOrder filt) = ''asc'') ?rows"
  have same: "?sorted n = ?sorted 0" for n by (rule order_unique[OF assms(5,7)])
  have perm: "mset (?sorted 0) = mset ?rows" using assms(5) by (simp add: sorts_def)
  then have len: "length (?sorted 0) = length ?rows" by (metis size_mset)
  have k: "0 < ?k" using assms(3) by simp
  have size: "length ?rows < 2 ^ 62" using assms(6) length_filter_le le_less_trans by blast
  have "in_order collate (sort_column (fl_SortBy filt)) (ToLower (unicode_lower P) (fl_SortOrder filt) = ''asc'') (?sorted 0)"
    using assms(5) by (simp add: sorts_def)
  moreover have "page \<noteq> [] \<and> int (length page) \<le> fl_Limit filt" if "page \<in> set (pages_of ?k (?sorted 0))" for page
    using pages_of_size[OF k that] assms(3) by (simp add: nat_le_iff le_nat_iff)
  moreover have "fst (Service_List P ilike order_by (filt\<lparr>fl_Page := int p + 1\<rparr>) w) =
      Inr (pages_of ?k (?sorted 0) ! p, \<lparr>pg_Page = int p + 1, pg_Limit = fl_Limit filt,
        pg_Total = int (length (?sorted 0)), pg_TotalPages = int (length (pages_of ?k (?sorted 0)))\<rparr>)"
    if "p < length (pages_of ?k (?sorted 0))" "committed w = d" for p w
    using that Service_List_page[OF assms(1-4) refl, where w = w and p = p] size len same[of "Suc (calls w)"] by (simp add: pages_of_def)
  ultimately show ?thesis using concat_pages_of[OF k, of "?sorted 0"] perm
    by (intro exI[of _ "?sorted 0"] exI[of _ "pages_of ?k (?sorted 0)"]) (simp del: mset_filter add: mset_filter[symmetric])
qed

text \<open>
  C32. One page, ties or not: for every page number up to the last, the answer is the asked slice of some
  arrangement of exactly the matching rows in the requested order, with the total and the number of pages
  of the whole selection.
\<close>

theorem list_page_slice:
  assumes "faultless P" "filter_ok filt" "1 \<le> fl_Limit filt" "fl_Limit filt \<le> MaximumLimit"
    and "sorts collate order_by" "length (disbursements (committed w)) < 2 ^ 62"
    and "found = length (filter (matches P ilike filt) (disbursements (committed w)))"
    and "p < page_count (nat (fl_Limit filt)) found"
  shows "\<exists>rows. mset rows = filter_mset (matches P ilike filt) (mset (disbursements (committed w)))
    \<and> in_order collate (sort_column (fl_SortBy filt)) (ToLower (unicode_lower P) (fl_SortOrder filt) = ''asc'') rows
    \<and> fst (Service_List P ilike order_by (filt\<lparr>fl_Page := int p + 1\<rparr>) w) =
        Inr (map mapDBDisbursementToDomain (take (nat (fl_Limit filt)) (drop (p * nat (fl_Limit filt)) rows)),
          \<lparr>pg_Page = int p + 1, pg_Limit = fl_Limit filt, pg_Total = int found,
           pg_TotalPages = int (page_count (nat (fl_Limit filt)) found)\<rparr>)"
proof -
  let ?rows = "order_by (Suc (calls w)) (sort_column (fl_SortBy filt)) (ToLower (unicode_lower P) (fl_SortOrder filt) = ''asc'')
    (filter (matches P ilike filt) (disbursements (committed w)))"
  have size: "length (filter (matches P ilike filt) (disbursements (committed w))) < 2 ^ 62"
    using assms(6) length_filter_le le_less_trans by blast
  have "mset ?rows = filter_mset (matches P ilike filt) (mset (disbursements (committed w)))"
    using assms(5) unfolding sorts_def by (metis mset_filter)
  moreover have "in_order collate (sort_column (fl_SortBy filt)) (ToLower (unicode_lower P) (fl_SortOrder filt) = ''asc'') ?rows"
    using assms(5) by (simp add: sorts_def)
  ultimately show ?thesis using Service_List_page[OF assms(1-4) refl size, where p = p] assms(7,8)
    by (intro exI[of _ ?rows]) (simp add: page_of_def)
qed

section \<open>A concrete listing\<close>

definition pending_filter :: DisbursementFilter where
  "pending_filter = \<lparr>fl_Page = 1, fl_Limit = 10, fl_Status = ''PENDING'', fl_Search = '' '', fl_SortBy = ''amount'',
     fl_SortOrder = ''asc'', fl_DateRange = None\<rparr>"

text \<open>
  A database that sorts: by insertion, and for equal keys in another arrangement at every second call.
\<close>

fun insert_row :: "(dbDisbursement \<Rightarrow> dbDisbursement \<Rightarrow> bool) \<Rightarrow> dbDisbursement \<Rightarrow> dbDisbursement list \<Rightarrow> dbDisbursement list" where
  "insert_row before r [] = [r]"
| "insert_row before r (s # rows) = (if before r s then r # s # rows else s # insert_row before r rows)"

definition demo_sort :: "nat \<Rightarrow> string \<Rightarrow> bool \<Rightarrow> dbDisbursement list \<Rightarrow> dbDisbursement list" where
  "demo_sort n column asc rows =
     foldr (insert_row (\<lambda>r s. if asc then not_after (\<lambda>_ _. True) column r s else not_after (\<lambda>_ _. True) column s r))
       (if even n then rows else rev rows) []"

lemma not_after_order:
  "not_after (\<lambda>_ _. True) column r s \<or> not_after (\<lambda>_ _. True) column s r"
  "not_after (\<lambda>_ _. True) column r s \<Longrightarrow> not_after (\<lambda>_ _. True) column s u \<Longrightarrow> not_after (\<lambda>_ _. True) column r u"
  by (auto simp: not_after_def split: if_splits)

lemma mset_insert_row [simp]: "mset (insert_row before r rows) = add_mset r (mset rows)"
  by (induction rows) auto

lemma set_insert_row [simp]: "set (insert_row before r rows) = insert r (set rows)"
  by (induction rows) auto

lemma sorted_insert_row:
  assumes total: "\<And>a b. before a b \<or> before b a" and trans: "\<And>a b c. before a b \<Longrightarrow> before b c \<Longrightarrow> before a c"
  shows "sorted_wrt before rows \<Longrightarrow> sorted_wrt before (insert_row before r rows)"
proof (induction rows)
  case (Cons s rows)
  have "\<forall>u \<in> set rows. before s u" "sorted_wrt before (insert_row before r rows)" using Cons by simp_all
  then show ?case using Cons.prems total[of r s] trans[of r s] by auto
qed simp

lemma sorts_demo: "sorts (\<lambda>_ _. True) demo_sort"
proof -
  have "mset (foldr (insert_row before) rows []) = mset rows" for before rows by (induction rows) simp_all
  then have perm: "mset (demo_sort n column asc rows) = mset rows" for n column asc rows by (simp add: demo_sort_def)
  have "in_order (\<lambda>_ _. True) column asc (demo_sort n column asc rows)" for n column asc rows
  proof -
    let ?before = "\<lambda>r s. if asc then not_after (\<lambda>_ _. True) column r s else not_after (\<lambda>_ _. True) column s r"
    have total: "?before a b \<or> ?before b a" for a b using not_after_order(1)[of column a b] by auto
    have trans: "?before a b \<Longrightarrow> ?before b c \<Longrightarrow> ?before a c" for a b c
      using not_after_order(2)[of column a b c] not_after_order(2)[of column c b a] by (cases asc) auto
    have "sorted_wrt ?before (foldr (insert_row ?before) xs [])" for xs
    proof (induction xs)
      case (Cons x xs)
      show ?case using sorted_insert_row[of ?before, OF total trans Cons.IH] by (simp only: foldr.simps o_apply)
    qed simp
    then show ?thesis by (simp add: in_order_def demo_sort_def)
  qed
  then show ?thesis using perm by (simp add: sorts_def)
qed

lemma pending_filter_ok: "filter_ok pending_filter"
  and pending_rows: "filter (matches demo (\<lambda>_ _. False) pending_filter) (disbursements stored_db) = [demo_row]"
proof -
  have trim: "TrimSpace '' '' = ''''" by code_simp
  have "pg_text_ok ''%%''" by code_simp
  then show "filter_ok pending_filter" by (simp add: filter_ok_def pending_filter_def trim status_enum_def StatusPending_def)
  show "filter (matches demo (\<lambda>_ _. False) pending_filter) (disbursements stored_db) = [demo_row]"
    by (simp add: stored_db_def matches_def pending_filter_def trim) (simp add: demo_row_def)
qed

theorem list_pages_partition_witness:
  "\<exists>pages. concat pages = [mapDBDisbursementToDomain demo_row]
    \<and> (\<forall>p < length pages. fst (Service_List demo (\<lambda>_ _. False) demo_sort (pending_filter\<lparr>fl_Page := int p + 1\<rparr>) (in_world stored_db))
        = Inr (pages ! p, \<lparr>pg_Page = int p + 1, pg_Limit = 10, pg_Total = 1, pg_TotalPages = int (length pages)\<rparr>))"
proof -
  have selected: "filter_mset (matches demo (\<lambda>_ _. False) pending_filter) (mset (disbursements stored_db)) = {#demo_row#}"
    unfolding mset_filter[symmetric] pending_rows by simp
  have limit: "1 \<le> fl_Limit pending_filter" "fl_Limit pending_filter \<le> MaximumLimit" "fl_Limit pending_filter = 10"
    by (simp_all add: pending_filter_def MaximumLimit_def)
  have size: "length (disbursements stored_db) < 2 ^ 62" by (simp add: stored_db_def)
  have ties: "no_ties (\<lambda>_ _. True) (sort_column (fl_SortBy pending_filter)) (filter (matches demo (\<lambda>_ _. False) pending_filter) (disbursements stored_db))"
    unfolding pending_rows by (simp add: no_ties_def)
  obtain rows pages where "mset rows = {#demo_row#}" "concat pages = map mapDBDisbursementToDomain rows"
    and each: "\<forall>p < length pages. \<forall>w. committed w = stored_db \<longrightarrow>
      fst (Service_List demo (\<lambda>_ _. False) demo_sort (pending_filter\<lparr>fl_Page := int p + 1\<rparr>) w) =
       Inr (pages ! p, \<lparr>pg_Page = int p + 1, pg_Limit = fl_Limit pending_filter, pg_Total = int (length rows), pg_TotalPages = int (length pages)\<rparr>)"
    using list_pages_partition[OF demo_ok(1) pending_filter_ok limit(1,2) sorts_demo size ties] unfolding selected by blast
  moreover have "committed (in_world stored_db) = stored_db" by (simp add: in_world_def)
  ultimately show ?thesis unfolding limit(3) by (intro exI[of _ pages]) (auto simp: mset_single_iff)
qed

theorem list_page_slice_witness:
  "\<exists>rows. mset rows = {#demo_row#}
    \<and> fst (Service_List demo (\<lambda>_ _. False) demo_sort (pending_filter\<lparr>fl_Page := 1\<rparr>) (in_world stored_db)) =
        Inr (map mapDBDisbursementToDomain (take 10 rows), \<lparr>pg_Page = 1, pg_Limit = 10, pg_Total = 1, pg_TotalPages = 1\<rparr>)"
proof -
  let ?w = "in_world stored_db"
  have db: "committed ?w = stored_db" by (simp add: in_world_def)
  have limit: "1 \<le> fl_Limit pending_filter" "fl_Limit pending_filter \<le> MaximumLimit" "fl_Limit pending_filter = 10"
    by (simp_all add: pending_filter_def MaximumLimit_def)
  have size: "length (disbursements (committed ?w)) < 2 ^ 62" unfolding db by (simp add: stored_db_def)
  have one: "1 = length (filter (matches demo (\<lambda>_ _. False) pending_filter) (disbursements (committed ?w)))"
    unfolding db pending_rows by simp
  have page: "0 < page_count (nat (fl_Limit pending_filter)) 1" "page_count 10 1 = 1" by (simp_all add: limit(3) page_count_def)
  have "filter_mset (matches demo (\<lambda>_ _. False) pending_filter) (mset (disbursements (committed ?w))) = {#demo_row#}"
    unfolding db mset_filter[symmetric] pending_rows by simp
  then show ?thesis
    using list_page_slice[OF demo_ok(1) pending_filter_ok limit(1,2) sorts_demo size one page(1)] page(2)
    by (auto simp: limit(3))
qed

end
