(* ===== verification/Spec2Isabelle.thy ===== *)
theory Spec2Isabelle
  imports Idempotent_Create Finalization Commands Listing "HOL-Library.Sublist"
begin

text \<open>
  Verification of the disbursement API, a Go service over PostgreSQL that records payments to be made,
  lets officers decide them, and keeps an audit log. The model follows the sources under \<open>src/internal\<close> and
  \<open>src/cmd\<close> function by function; the names are those of the code, prefixed with the type of a method
  (\<open>DisbursementStore_Insert\<close>, \<open>AuthHandler_Login\<close>) where HOL needs them told apart.

  \<^bold>\<open>The program.\<close> A request passes the middleware (request id, metrics, recovery, body limit, and per route
  rate limit or authentication and role) to a handler, which validates it and calls a service; the service
  opens a transaction and calls the stores, which send SQL to PostgreSQL. Creating a disbursement is
  idempotent: a coordinator claims the client's key in a first transaction, and a second one inserts the
  disbursement, the audit event and the stored response that a retry replays. A background worker moves audit
  events from the outbox to the audit log. Access tokens are signed with a rotating set of keys, and refresh
  tokens are sessions that each exchange replaces. The application reads its configuration from the
  environment, builds all of this and runs it until it is cancelled; a second command migrates the schema.

  \<^bold>\<open>State and effects.\<close> \<open>Database\<close> models the schema of \<open>migrations/000001_initial_schema.up.sql\<close>: each table a list of rows,
  its keys, references and checks the predicate \<open>db_ok\<close>, each SQL statement a function on the database. The state
  \<open>world\<close> holds the committed database, the working copy of an open transaction, the number of environment calls so far
  and the metrics; \<open>'a go\<close> is a computation on it that returns an error or a value. The environment's choices
  (clocks, random identifiers, database faults before or after a statement took effect, cancellation, row order,
  locked rows) are functions of the number of the call in the record \<open>platform\<close>, so a theorem over every \<open>platform\<close>
  covers every run. \<open>server\<close> adds the rate limiter; \<open>relay_worker\<close> and \<open>process\<close> add the goroutines.

  \<^bold>\<open>Theories and sources.\<close>
  \<^item> \<open>Prelude\<close>, \<open>Go_Strings\<close>, \<open>Go_Json\<close>, \<open>Go_Duration\<close>, \<open>Platform\<close>, \<open>Go_Float\<close>: Go's integers, strings, JSON, durations and floats; the environment.
  \<^item> \<open>Domain_Errors\<close>, \<open>Domain_Idempotency\<close>, \<open>Domain_Disbursement\<close>, \<open>Domain_Audit\<close>, \<open>Auth_Keys\<close>: \<open>domain/\<close>, \<open>sensitivity/\<close>, \<open>observability/redaction\<close>.
  \<^item> \<open>Database\<close>, \<open>Disbursement_Store\<close>, \<open>Idempotency_Store\<close>, \<open>Outbox_Store\<close>, \<open>Session_Store\<close>: \<open>migrations/\<close>, \<open>repository/postgres\<close>.
  \<^item> \<open>Metrics\<close>: \<open>observability/metrics\<close>. \<open>Coordinator\<close>, \<open>Disbursement_Service\<close>, \<open>Auth_Service\<close>, \<open>Audit_Relay\<close>, \<open>Relay_Worker\<close>: \<open>service/\<close>.
  \<^item> \<open>Rate_Limit\<close>, \<open>Http_Middleware\<close>, \<open>Http_Validation\<close>, \<open>Http_Handlers\<close>: \<open>httpapi/\<close>.
  \<^item> \<open>Configuration\<close>, \<open>Application\<close>, \<open>Commands\<close>: \<open>config/\<close>, \<open>app/\<close>, \<open>database/\<close>, \<open>migration/\<close>, \<open>cmd/\<close>.
  \<^item> \<open>Idempotent_Create\<close>, \<open>Concurrent_Create\<close>, \<open>Finalization\<close>, \<open>Ledger\<close>, \<open>Listing\<close>, \<open>Relay_Delivery\<close>, \<open>Auth_Sessions\<close>,
    \<open>Authentication\<close>, \<open>Audited_Changes\<close>, \<open>Http_Evolution\<close>, \<open>Route_Access\<close>, \<open>System\<close> and this theory: properties of these
    parts and of their composition. \<open>Scenario\<close>: the environment and the data that the concrete instances share.

  \<^bold>\<open>Interfaces.\<close> What one part needs of another is a locale. \<open>db_evolution\<close> and its extensions fix a relation between the
  database before and after, assume that the statements of a store respect it, and derive that every method,
  service operation, request and run respects it; they are interpreted on the relations the properties need (the schema kept,
  rows frozen, log prefixes, events recorded, sessions kept, disbursements unchanged, ledger runs). \<open>key_provider\<close> states the laws of
  the signing keys, \<open>api_evolution\<close> what handlers need of services, \<open>system_evolution\<close> what a step of the program needs.

  \<^bold>\<open>What the lemmas show.\<close>
  \<^item> Creation: all or nothing under every fault; retries replay; at most one creation per key under every interleaving;
    refused keys and stale owners have no effect; without faults a valid request succeeds.
  \<^item> Decisions: change and audit event are committed together; the service refines the abstract ledger, whose entries are
    issued, decided once or removed; decided rows are frozen for ever; a listing page is a slice of the sorted selection,
    and without ties in the sorted column the pages partition it.
  \<^item> Audit: events are never lost, the log only grows, a batch delivers what is due; the worker never panics and stops.
  \<^item> Access: nothing passes without a token verified under a configured key; a change needs the role of its route; login's
    tokens are accepted; refresh tokens work once; the limiter equals a window over the history, evictions included.
  \<^item> Program: no handler panics and every request is answered; configurations that load are well formed; a failed start leaves no pool; \<open>Run\<close>
    closes the pool last; every run of the started process is a run of the ledger with entitled, audited changes only;
    the seed with known passwords is applied to loopback databases only.

  \<^bold>\<open>Bounds.\<close> Loops are structural recursions, or carry a measure (the parser of durations); there is no fuel. Lengths that
  the code counts in 64 bits are bounded by hypotheses far above what a table can hold (\<open>2 ^ 62\<close> rows). Seconds as floating-point
  numbers are IEEE 754 double precision with ties to even; \<open>Go_Float\<close> proves that their ceiling is that of the exact seconds
  below \<open>2 ^ 23\<close>, the bound that the retry delay of a running claim has as a hypothesis (the lease is 30 seconds by default).

  \<^bold>\<open>Arguments of the model.\<close> PostgreSQL's \<open>ILIKE\<close>, collation and sorting (anew at every query), bcrypt, SHA-256, the JWT and UUID packages, gin's binding and matching of
  routes, the validator's engine, \<open>net/url\<close>, \<open>net\<close>, golang-migrate and the file system are not in the repository; they are arguments,
  and what a property needs of them is a hypothesis with its name.

  \<^bold>\<open>Not modelled.\<close> Log lines (output only); the timing of tickers, deadlines and the pool's limits; HTTP parsing and the sockets;
  signal handling; interleavings inside a request other than those of concurrent creations (a request is one step of the running system, and
  transactions on one row are serialised by the row locks and conditional updates the statements carry); tests; the blank
  imports of \<open>dependencies/approved.go\<close>.
\<close>

section \<open>Runs as runs of the ledger\<close>

text \<open>What a run of the system does to the ledger, on a database that satisfies its schema.\<close>

definition ledger_kept :: "database \<Rightarrow> database \<Rightarrow> bool" where
  "ledger_kept d d' \<longleftrightarrow> (db_ok d \<longrightarrow> db_ok d' \<and> ledger_step\<^sup>*\<^sup>* (ledger d) (ledger d'))"

lemma ledger_kept_same: "schema_kept d d' \<Longrightarrow> same_disbursements d d' \<Longrightarrow> ledger_kept d d'"
  using ledger_same[of d' d] by (simp add: ledger_kept_def schema_kept_def same_disbursements_def)

lemma ledger_kept_audited:
  "schema_kept d d' \<Longrightarrow> (db_ok d \<Longrightarrow> audited_as a actions d d') \<Longrightarrow> ledger_kept d d'"
  using ledger_same[of d' d] unfolding ledger_kept_def schema_kept_def audited_as_def audited_change_def by auto

lemma ledger_kept_op:
  assumes "evolves schema_kept m"
    and "\<And>w r w'. db_ok (committed w) \<Longrightarrow> m w = (r, w') \<Longrightarrow> audited_as a actions (committed w) (committed w')"
  shows "op_evolves ledger_kept m"
  unfolding op_evolves_def
proof (intro allI impI conjI)
  fix w :: world
  assume "working w = None"
  then show "working (snd (m w)) = None" by (rule evolvesD(2)[OF assms(1)])
  show "ledger_kept (committed w) (committed (snd (m w)))"
    by (rule ledger_kept_audited[OF evolvesD(1)[OF assms(1)] assms(2)], assumption, rule prod.collapse[symmetric])
qed

interpretation reads: outbox_evolution same_disbursements
  by unfold_locales
     (simp_all add: same_disbursements_def stmt_defs Let_def split: sum.splits option.splits prod.splits)

interpretation ledgers: db_evolution ledger_kept
  by unfold_locales (auto simp: ledger_kept_def)

interpretation ledgers: session_evolution ledger_kept
  by unfold_locales
     (rule ledger_kept_same, rule schema.R_session_insert schema.R_rotate schema.R_revoke,
      rule reads.R_session_insert reads.R_rotate reads.R_revoke)+

interpretation ledgers: outbox_evolution ledger_kept
  by unfold_locales
     (rule ledger_kept_same,
      rule schema.R_outbox_insert schema.R_fetch schema.R_failure schema.R_cleanup schema.R_project schema.R_mark,
      rule reads.R_outbox_insert reads.R_fetch reads.R_failure reads.R_cleanup reads.R_project reads.R_mark)+

interpretation ledgers: system_evolution ledger_kept
  by unfold_locales
     (rule ledger_kept_op, rule schema.evolves_Service_Create schema.evolves_Service_UpdateStatus schema.evolves_Service_SoftDelete,
      rule create_audited update_audited delete_audited, assumption, assumption)+

section \<open>One step\<close>

text \<open>The relay changes no disbursement, so whatever a step changes a request did.\<close>

lemma step_entitled:
  assumes step: "system_step A S s s'" and A: "api_ok A"
    and kp: "api_keyProvider A = static_provider (NewStaticKeyProvider keyID secret legacy)"
    and order: "\<And>n keys. set (api_key_order A n keys) = set keys"
    and s: "server_ok s" "db_ok (db s)" and new: "disbursements (db s') \<noteq> disbursements (db s)"
  shows "\<exists>header. entitled_change A secret legacy header (db s) (db s')"
  using step
proof cases
  case (request c c')
  then show ?thesis using guardedD[OF guarded_router[OF kp order A] s] new by blast
next
  case (process_batch r)
  from run_op[OF evolves_op[OF reads.evolves_ProcessBatch] this s(1)] new show ?thesis by (simp add: same_disbursements_def)
next
  case (reconcile r)
  from run_op[OF evolves_op[OF reads.evolves_Reconcile] this s(1)] new show ?thesis by (simp add: same_disbursements_def)
next
  case (cleanup r)
  from run_op[OF evolves_op[OF reads.evolves_Cleanup] this s(1)] new show ?thesis by (simp add: same_disbursements_def)
next
  case (pool_stats opened inUse idle)
  then show ?thesis using new by (simp add: count_metric_def run_go_def record_metric_def)
qed

section \<open>From the configuration to the running program\<close>

text \<open>What starting gives: handlers that verify with the configured keys, which are strong.\<close>

lemma started:
  assumes start: "api_start L A0 N env s = (Inr ap, s0)"
  obtains config authService coordinator where "Load N env = Inr config"
    "hs_Handler (ap_server ap) = app_api A0 config
       (static_provider (NewStaticKeyProvider (sc_JWTKeyID (cfg_Security config)) (sc_JWTSecret (cfg_Security config))
          (sc_JWTLegacyKeys (cfg_Security config)))) authService coordinator"
    "NewCoordinator (ic_LeaseTTL (cfg_Idempotency config)) (ic_ReplayTTL (cfg_Idempotency config)) = Inr coordinator"
    "ValidateSecretStrength (legacy_order L) config = None" "limiter_ok (ap_limiter ap)"
    "committed (su_world s0) = committed (su_world s)" "working (su_world s0) = working (su_world s)"
proof -
  obtain config where c: "Load N env = Inr config" "app_New L A0 config True s = (Inr ap, s0)"
    using start by (auto simp: api_start_def split: sum.splits prod.splits)
  from app_New_cases[OF c(2)] that[OF c(1)] show thesis by auto
qed

lemma app_api_simps [simp]:
  "api_ok (app_api A0 c kp a co) = api_ok A0" "api_key_order (app_api A0 c kp a co) = api_key_order A0"
  "api_keyProvider (app_api A0 c kp a co) = kp" "api_P (app_api A0 c kp a co) = api_P A0" "api_J (app_api A0 c kp a co) = api_J A0"
  "api_issuer (app_api A0 c kp a co) = sc_JWTIssuer (cfg_Security c)"
  "api_audience (app_api A0 c kp a co) = sc_JWTAudience (cfg_Security c)"
  by (simp_all add: app_api_def api_ok_def)

lemma ValidateSecretStrength_None:
  assumes "ValidateSecretStrength order c = None" "set (order (sc_JWTLegacyKeys (cfg_Security c))) = set (sc_JWTLegacyKeys (cfg_Security c))"
    "key \<in> insert (sc_JWTSecret (cfg_Security c)) (snd ` set (sc_JWTLegacyKeys (cfg_Security c)))"
  shows "MinimumSecretLength \<le> length key"
proof -
  let ?legacy = "sc_JWTLegacyKeys (cfg_Security c)"
  have weak: "first_error (\<lambda>(keyID, secret). if length secret < MinimumSecretLength then Some (WeakLegacySecret keyID) else None)
      (order ?legacy) = None" and active: "MinimumSecretLength \<le> length (sc_JWTSecret (cfg_Security c))"
    using assms(1) by (simp_all add: ValidateSecretStrength_def split: if_splits option.splits)
  have "MinimumSecretLength \<le> length secret" if "(keyID, secret) \<in> set ?legacy" for keyID secret
    using bspec[OF weak[unfolded first_error_None assms(2)] that] by (simp split: if_splits)
  then show ?thesis using active assms(3) by auto
qed

lemma new_process_server: "server_ok (pr_server (new_process l w)) \<longleftrightarrow> working w = None \<and> limiter_ok l"
  "db (pr_server (new_process l w)) = committed w"
  by (simp_all add: pr_server_def new_process_def new_worker_def server_ok_def)

text \<open>Of the process's own steps only a request changes a disbursement.\<close>

lemma process_step_entitled:
  assumes step: "app_step A S p p'" and A: "api_ok A"
    and kp: "api_keyProvider A = static_provider (NewStaticKeyProvider keyID secret legacy)"
    and order: "\<And>n keys. set (api_key_order A n keys) = set keys"
    and s: "server_ok (pr_server p)" "db_ok (db (pr_server p))"
    and new: "disbursements (db (pr_server p')) \<noteq> disbursements (db (pr_server p))"
  shows "\<exists>header. entitled_change A secret legacy header (db (pr_server p)) (db (pr_server p'))"
  using step
proof (cases rule: app_step_cases)
  case (request c c')
  then show ?thesis using guardedD[OF guarded_router[OF kp order A] s] new by blast
next
  case worker
  have "same_disbursements (committed (rw_world (pr_worker p))) (committed (rw_world (pr_worker p')))"
    by (rule reads.goroutine_evolves[OF worker(1)]) (use s(1) in \<open>simp add: pr_server_def server_ok_def\<close>)
  then show ?thesis using new by (simp add: same_disbursements_def pr_server_def)
next
  case (stats opened inUse idle)
  then show ?thesis using new by (simp add: count_metric_def run_go_def record_metric_def)
qed (use new in simp)

section \<open>Properties of the running program\<close>

text \<open>
  C6. The whole program, from its environment variables on: whenever a step of the started process changes
  a disbursement, the change was asked for with a token that verifies under a configured key, every
  configured key has at least 32 bytes, the role in the token allows the action, and the change was
  committed together with its audit event in that user's name.
\<close>

theorem program_changes_entitled:
  assumes "api_start L A0 N env s = (Inr ap, s0)"
    and "api_ok A0" "\<And>n keys. set (api_key_order A0 n keys) = set keys" "\<And>keys. set (legacy_order L keys) = set keys"
    and "working (su_world s) = None" "db_ok (committed (su_world s))"
    and "(app_step (hs_Handler (ap_server ap)) (ap_relayService ap))\<^sup>*\<^sup>* (new_process (ap_limiter ap) (su_world s0)) p"
    and "app_step (hs_Handler (ap_server ap)) (ap_relayService ap) p p'"
    and "disbursements (db (pr_server p')) \<noteq> disbursements (db (pr_server p))"
  shows "\<exists>config header. Load N env = Inr config
    \<and> entitled_change (hs_Handler (ap_server ap)) (sc_JWTSecret (cfg_Security config)) (sc_JWTLegacyKeys (cfg_Security config))
        header (db (pr_server p)) (db (pr_server p'))
    \<and> (\<forall>key \<in> insert (sc_JWTSecret (cfg_Security config)) (snd ` set (sc_JWTLegacyKeys (cfg_Security config))).
         MinimumSecretLength \<le> length key)"
proof -
  let ?A = "hs_Handler (ap_server ap)" and ?S = "ap_relayService ap"
  obtain config authService coordinator where c: "Load N env = Inr config"
    and A: "?A = app_api A0 config
       (static_provider (NewStaticKeyProvider (sc_JWTKeyID (cfg_Security config)) (sc_JWTSecret (cfg_Security config))
          (sc_JWTLegacyKeys (cfg_Security config)))) authService coordinator"
    and strong: "ValidateSecretStrength (legacy_order L) config = None"
    and s0: "limiter_ok (ap_limiter ap)" "committed (su_world s0) = committed (su_world s)" "working (su_world s0) = working (su_world s)"
    by (rule started[OF assms(1)])
  have ok: "api_ok ?A" unfolding A by (simp add: assms(2))
  have kp: "api_keyProvider ?A = static_provider (NewStaticKeyProvider (sc_JWTKeyID (cfg_Security config))
      (sc_JWTSecret (cfg_Security config)) (sc_JWTLegacyKeys (cfg_Security config)))" unfolding A by simp
  have order: "\<And>n keys. set (api_key_order ?A n keys) = set keys" unfolding A by (simp add: assms(3))
  have "server_ok (pr_server p) \<and> db_ok (db (pr_server p))"
    using schema.run_evolves[OF process_run_system[OF assms(7)] ok] assms(5,6) s0 by (simp add: new_process_server schema_kept_def)
  then have "\<exists>header. entitled_change ?A (sc_JWTSecret (cfg_Security config)) (sc_JWTLegacyKeys (cfg_Security config)) header
      (db (pr_server p)) (db (pr_server p'))"
    using process_step_entitled[OF assms(8) ok kp order _ _ assms(9)] by blast
  then show ?thesis using c ValidateSecretStrength_None[OF strong assms(4)] by blast
qed

text \<open>
  C7. The started program keeps what the database promises: in every state of its process, from start to
  shutdown, the schema's constraints hold and the disbursements are what a run of the abstract ledger made of
  those it found; and its idempotency leases end before the replay window does.
\<close>

theorem program_sound:
  assumes "api_start L A0 N env s = (Inr ap, s0)" and "api_ok A0"
    and "working (su_world s) = None" "db_ok (committed (su_world s))"
    and "(app_step (hs_Handler (ap_server ap)) (ap_relayService ap))\<^sup>*\<^sup>* (new_process (ap_limiter ap) (su_world s0)) p"
  shows "db_ok (db (pr_server p)) \<and> ledger_step\<^sup>*\<^sup>* (ledger (committed (su_world s))) (ledger (db (pr_server p)))
    \<and> 0 < co_leaseTTL (api_coordinator (hs_Handler (ap_server ap)))
    \<and> co_leaseTTL (api_coordinator (hs_Handler (ap_server ap))) < co_replayTTL (api_coordinator (hs_Handler (ap_server ap)))"
proof -
  let ?A = "hs_Handler (ap_server ap)"
  obtain config authService coordinator where A: "?A = app_api A0 config
       (static_provider (NewStaticKeyProvider (sc_JWTKeyID (cfg_Security config)) (sc_JWTSecret (cfg_Security config))
          (sc_JWTLegacyKeys (cfg_Security config)))) authService coordinator"
    and co: "NewCoordinator (ic_LeaseTTL (cfg_Idempotency config)) (ic_ReplayTTL (cfg_Idempotency config)) = Inr coordinator"
    and s0: "limiter_ok (ap_limiter ap)" "committed (su_world s0) = committed (su_world s)" "working (su_world s0) = working (su_world s)"
    by (rule started[OF assms(1)])
  have ok: "api_ok ?A" unfolding A by (simp add: assms(2))
  have "0 < co_leaseTTL (api_coordinator ?A)" "co_leaseTTL (api_coordinator ?A) < co_replayTTL (api_coordinator ?A)"
    unfolding A using co by (auto simp: app_api_def NewCoordinator_def split: if_splits)
  moreover have "ledger_kept (committed (su_world s)) (db (pr_server p))"
    using ledgers.run_evolves[OF process_run_system[OF assms(5)] ok] assms(3) s0 by (simp add: new_process_server)
  ultimately show ?thesis using assms(4) unfolding ledger_kept_def by blast
qed

text \<open>
  C11. Every request is answered and none panics: whatever the request, the state of the server and the
  faults of the environment, the handlers inside \<open>Recovery\<close> (the limiter, the authentication, the roles, the
  endpoints, the metrics) return by themselves, so nothing is left for it to recover; and the router
  returns, with no transaction open and the limiter's invariant intact.
\<close>

theorem router_answers:
  assumes "api_ok A" "server_ok s"
  shows "(\<exists>c' s'. BodyLimit (api_maxBody A) (dispatch A) c s = Returned c' s' \<and> server_ok s')
    \<and> (\<exists>c' s'. NewRouter A c s = Returned c' s' \<and> server_ok s')"
  using schema.handles_BodyLimit[OF schema.handles_dispatch[OF assms(1)]] schema.handles_router[OF assms(1)] assms(2)
  unfolding handles_def by blast

text \<open>
  C8. Every run of the program is a run of the abstract ledger: entries are only issued with the fee of
  their amount, decided once or removed while they await a decision, and nothing else happens to them.
\<close>

theorem system_refines_ledger:
  assumes "(system_step A S)\<^sup>*\<^sup>* s s'" "api_ok A" "server_ok s" "db_ok (db s)"
  shows "ledger_step\<^sup>*\<^sup>* (ledger (db s)) (ledger (db s'))"
  using ledgers.run_evolves[OF assms(1-3)] assms(4) by (simp add: ledger_kept_def)

text \<open>
  C9. Decisions are final and payments immutable: over any run no stored disbursement disappears, the
  facts of the payment (recipient, account, bank, amount, fee, note, creator) never change, and a decided
  or deleted row never changes at all.
\<close>

theorem system_freezes_decisions:
  assumes "(system_step A S)\<^sup>*\<^sup>* s s'" "api_ok A" "server_ok s" "r \<in> set (disbursements (db s))"
  shows "\<exists>r' \<in> set (disbursements (db s')). row_progress r r'"
proof -
  obtain old new where "disbursements (db s') = old @ new" "list_all2 row_progress (disbursements (db s)) old"
    using history.run_evolves[OF assms(1-3)] unfolding history_kept_def by blast
  then show ?thesis using assms(4) by (auto simp: list_all2_conv_all_nth in_set_conv_nth intro: bexI[OF _ UnI1[OF nth_mem]])
qed

text \<open>
  C10. The audit log is append-only and no event is lost: over any run the log only grows at its end, and
  every event that the outbox or the log held is still in one of them (the outbox is cleaned only of
  delivered events, and delivered events are in the log).
\<close>

theorem system_keeps_audit_log:
  assumes "(system_step A S)\<^sup>*\<^sup>* s s'" "api_ok A" "server_ok s" "projected (db s)"
  shows "prefix (audit_logs (db s)) (audit_logs (db s')) \<and> projected (db s')
    \<and> recorded_events (db s) \<subseteq> recorded_events (db s')"
  using logs.run_evolves[OF assms(1-3)] events.run_evolves[OF assms(1-3)] assms(4)
  by (auto simp: logs_kept_def events_kept_def prefix_def)

text \<open>
  C5. Accountability over time: at whatever point of a run a step changes a disbursement, the change was
  made by a verified user whose role allows it and committed with its audit event, and that event is
  in the outbox or in the audit log in every later state.
\<close>

theorem changes_stay_audited:
  assumes "api_ok A" "api_keyProvider A = static_provider (NewStaticKeyProvider keyID secret legacy)"
    and "\<And>n keys. set (api_key_order A n keys) = set keys"
    and "server_ok s" "db_ok (db s)" "projected (db s)"
    and "(system_step A S)\<^sup>*\<^sup>* s s1" "system_step A S s1 s2" "(system_step A S)\<^sup>*\<^sup>* s2 s3"
    and "disbursements (db s2) \<noteq> disbursements (db s1)"
  shows "\<exists>header ob. entitled_change A secret legacy header (db s1) (db s2)
    \<and> audit_outbox (db s2) = audit_outbox (db s1) @ [ob] \<and> ob_id ob \<in> recorded_events (db s3)"
proof -
  have 1: "server_ok s1" "db_ok (db s1)" "projected (db s1)"
    using schema.run_evolves[OF assms(7,1,4)] events.run_evolves[OF assms(7,1,4)] assms(5,6)
    by (simp_all add: schema_kept_def events_kept_def)
  have 2: "server_ok s2" "projected (db s2)"
    using events.step_evolves[OF assms(8,1) 1(1)] 1(3) by (simp_all add: events_kept_def)
  obtain header where e: "entitled_change A secret legacy header (db s1) (db s2)"
    using step_entitled[OF assms(8,1-3) 1(1,2) assms(10)] by blast
  then obtain ob where ob: "audit_outbox (db s2) = audit_outbox (db s1) @ [ob]"
    unfolding entitled_change_def audited_change_def by blast
  have "ob_id ob \<in> recorded_events (db s2)" unfolding recorded_events_def ob by simp
  then have "ob_id ob \<in> recorded_events (db s3)"
    using events.run_evolves[OF assms(9,1) 2(1)] 2(2) by (auto simp: events_kept_def)
  then show ?thesis using e ob by blast
qed

text \<open>
  C12. A spent refresh token stays spent: once the session of a token is revoked (by its exchange or by a
  logout), then after any further run of the program \<open>Refresh\<close> of that token changes nothing and fails,
  whatever the faults; without faults the error is \<open>INVALID_REFRESH_TOKEN\<close>.
\<close>

theorem spent_token_stays_spent:
  assumes "(system_step A S)\<^sup>*\<^sup>* s s'" "api_ok A" "server_ok s" "db_ok (db s)"
    and "spent (hashToken P (rr_RefreshToken req)) (db s)"
    and "run_go (Auth_Refresh P J service req) s' = (r, s2)"
  shows "db s2 = db s' \<and> (\<exists>e. r = Inl e) \<and> (faultless P \<longrightarrow> r = Inl (DomainError InvalidRefreshToken))"
proof -
  have "db_ok (db s')" "spent (hashToken P (rr_RefreshToken req)) (db s')"
    using schema.run_evolves[OF assms(1-3)] assms(4) sessions.run_evolves[OF assms(1-3)] spent_kept[OF assms(5)]
    by (simp_all add: schema_kept_def)
  from refresh_spent[OF this] show ?thesis using assms(6) by (auto simp: run_go_def split: prod.splits)
qed

section \<open>A concrete run\<close>

lemma demo_step:
  obtains s' where "system_step demo_api demo_relay_settings (demo_server stored_db) s'"
    "disbursements (db s') \<noteq> disbursements stored_db"
  using demo_request_deletes[OF demo_api_like demo_server_ok(2)] by (metis system_step.request)

lemma stored_db_facts: "db_ok (db (demo_server stored_db))" "projected (db (demo_server stored_db))"
  "demo_row \<in> set (disbursements (db (demo_server stored_db)))"
  using stored_ready unfolding demo_server_ok(2) finalization_ready_def
  by (simp_all add: projected_def stored_db_def)

lemma demo_key_facts: "api_keyProvider demo_api = static_provider (NewStaticKeyProvider ''v1'' ''secret'' [])"
  "set (api_key_order demo_api n keys) = set keys"
  by (simp_all add: demo_api_def)

lemma demo_system_run:
  obtains s' where "(system_step demo_api demo_relay_settings)\<^sup>*\<^sup>* (demo_server stored_db) s'"
    "disbursements (db s') \<noteq> disbursements stored_db"
  using demo_step by (metis r_into_rtranclp)

theorem router_answers_witness:
  "\<exists>c' s'. BodyLimit (api_maxBody demo_api) (dispatch demo_api) delete_request (demo_server stored_db) = Returned c' s' \<and> server_ok s'"
  using router_answers[OF demo_api_ok demo_server_ok(1)] by blast

theorem system_refines_ledger_witness:
  "\<exists>s'. disbursements (db s') \<noteq> disbursements stored_db \<and> ledger_step\<^sup>*\<^sup>* (ledger stored_db) (ledger (db s'))"
proof -
  obtain s' where "(system_step demo_api demo_relay_settings)\<^sup>*\<^sup>* (demo_server stored_db) s'"
    "disbursements (db s') \<noteq> disbursements stored_db" by (rule demo_system_run)
  then show ?thesis
    using system_refines_ledger[OF _ demo_api_ok demo_server_ok(1) stored_db_facts(1)] unfolding demo_server_ok(2) by blast
qed

theorem system_freezes_decisions_witness:
  "\<exists>s'. disbursements (db s') \<noteq> disbursements stored_db \<and> (\<exists>r' \<in> set (disbursements (db s')). row_progress demo_row r')"
proof -
  obtain s' where "(system_step demo_api demo_relay_settings)\<^sup>*\<^sup>* (demo_server stored_db) s'"
    "disbursements (db s') \<noteq> disbursements stored_db" by (rule demo_system_run)
  then show ?thesis using system_freezes_decisions[OF _ demo_api_ok demo_server_ok(1) stored_db_facts(3)] by blast
qed

theorem system_keeps_audit_log_witness:
  "\<exists>s'. disbursements (db s') \<noteq> disbursements stored_db \<and> prefix (audit_logs stored_db) (audit_logs (db s')) \<and> projected (db s')"
proof -
  obtain s' where "(system_step demo_api demo_relay_settings)\<^sup>*\<^sup>* (demo_server stored_db) s'"
    "disbursements (db s') \<noteq> disbursements stored_db" by (rule demo_system_run)
  then show ?thesis
    using system_keeps_audit_log[OF _ demo_api_ok demo_server_ok(1) stored_db_facts(2)] unfolding demo_server_ok(2) by blast
qed

theorem changes_stay_audited_witness:
  "\<exists>s' header ob. entitled_change demo_api ''secret'' [] header stored_db (db s')
     \<and> audit_outbox (db s') = audit_outbox stored_db @ [ob] \<and> ob_id ob \<in> recorded_events (db s')"
proof -
  obtain s' where s': "system_step demo_api demo_relay_settings (demo_server stored_db) s'"
    "disbursements (db s') \<noteq> disbursements (db (demo_server stored_db))" by (rule demo_step) (simp add: demo_server_ok(2))
  show ?thesis
    using changes_stay_audited[OF demo_api_ok demo_key_facts demo_server_ok(1) stored_db_facts(1,2) rtranclp.rtrancl_refl s'(1)
        rtranclp.rtrancl_refl s'(2)] unfolding demo_server_ok(2) by blast
qed

text \<open>A database whose only session was revoked.\<close>

definition spent_db :: database where
  "spent_db = demo_db\<lparr>refresh_sessions := [demo_session\<lparr>rs_revoked_at := Some Second\<rparr>]\<rparr>"

theorem spent_token_stays_spent_witness:
  "fst (run_go (Auth_Refresh demo_auth demo_signer demo_auth_service \<lparr>rr_RefreshToken = ''t''\<rparr>) (demo_server spent_db))
     = Inl (DomainError InvalidRefreshToken)"
proof -
  let ?m = "Auth_Refresh demo_auth demo_signer demo_auth_service \<lparr>rr_RefreshToken = ''t''\<rparr>"
  obtain r s2 where run: "run_go ?m (demo_server spent_db) = (r, s2)" by force
  have "db_ok spent_db" using session_db_ok
    by (simp add: db_ok_def spent_db_def session_db_def unique_by_def user_exists_def session_check_def)
  then have ok: "db_ok (db (demo_server spent_db))" by (simp add: demo_server_ok(2))
  have sp: "spent (hashToken demo_auth (rr_RefreshToken \<lparr>rr_RefreshToken = ''t''\<rparr>)) (db (demo_server spent_db))"
    by (simp add: demo_server_ok(2) spent_def spent_db_def) (simp add: demo_session_def)
  show ?thesis
    using spent_token_stays_spent[OF rtranclp.rtrancl_refl demo_api_ok demo_server_ok(1) ok sp run] run by simp
qed

text \<open>The program started on \<open>stored_db\<close>, serving the deletion.\<close>

lemma demo_program:
  obtains ap s0 p p' where "api_start demo_library demo_api demo_net demo_env (demo_startup stored_db) = (Inr ap, s0)"
    "(app_step (hs_Handler (ap_server ap)) (ap_relayService ap))\<^sup>*\<^sup>* (new_process (ap_limiter ap) (su_world s0)) p"
    "app_step (hs_Handler (ap_server ap)) (ap_relayService ap) p p'"
    "db (pr_server p) = stored_db" "disbursements (db (pr_server p')) \<noteq> disbursements (db (pr_server p))"
proof -
  obtain ap s0 where "app_New demo_library demo_api demo_config True (demo_startup stored_db) = (Inr ap, s0)"
    by (rule demo_started[of demo_library stored_db]) (simp_all add: demo_library_def)
  then have start: "api_start demo_library demo_api demo_net demo_env (demo_startup stored_db) = (Inr ap, s0)"
    by (simp add: api_start_def demo_Load)
  let ?A = "hs_Handler (ap_server ap)" and ?new = "new_process (ap_limiter ap) (su_world s0)"
  obtain config authService coordinator where config: "Load demo_net demo_env = Inr config" and A: "?A = app_api demo_api config
       (static_provider (NewStaticKeyProvider (sc_JWTKeyID (cfg_Security config)) (sc_JWTSecret (cfg_Security config))
          (sc_JWTLegacyKeys (cfg_Security config)))) authService coordinator"
    and s0: "committed (su_world s0) = stored_db"
    by (rule started[OF start]) (simp add: demo_startup_def in_world_def)
  have c: "config = demo_config" using config by (simp add: demo_Load)
  have like: "demo_like ?A" using demo_api_like unfolding demo_like_def A c by (auto simp: demo_config_def)
  obtain w where w: "StartWorker (pr_worker ?new) = (Inr (), w)" "rw_world w = su_world s0"
    by (simp add: StartWorker_def new_process_def new_worker_def)
  let ?p = "?new\<lparr>pr_worker := w, pr_phase := Serving, pr_handling := True, pr_stats := True\<rparr>"
  have starts: "app_step ?A (ap_relayService ap) ?new ?p" by (rule app_step.start[OF _ w(1)]) (simp add: new_process_def)
  have p: "db (pr_server ?p) = stored_db" by (simp add: pr_server_def w(2) s0)
  obtain c' s' where r: "NewRouter ?A delete_request (pr_server ?p) = Returned c' s'" "disbursements (db s') \<noteq> disbursements stored_db"
    using demo_request_deletes[OF like p] by blast
  have finish: "app_step ?A (ap_relayService ap) ?p (with_server s' ?p)"
    by (rule app_step.request[OF _ _ r(1)]) (simp_all add: new_process_def)
  have run: "(app_step ?A (ap_relayService ap))\<^sup>*\<^sup>* ?new ?p" using starts by (rule r_into_rtranclp)
  show thesis by (rule that[OF start run finish p]) (use r(2) p in simp)
qed

lemma demo_program_facts: "working (su_world (demo_startup stored_db)) = None" "db_ok (committed (su_world (demo_startup stored_db)))"
  "set (legacy_order demo_library keys) = set keys"
  using stored_db_facts(1) demo_server_ok(2) by (simp_all add: demo_startup_def in_world_def demo_library_def)

theorem program_changes_entitled_witness:
  "\<exists>A header d'. entitled_change A ''0123456789abcdef0123456789abcdef'' [(''v0'', ''00112233445566778899aabbccddeeff'')] header stored_db d'"
proof -
  obtain ap s0 p p' where run: "api_start demo_library demo_api demo_net demo_env (demo_startup stored_db) = (Inr ap, s0)"
    "(app_step (hs_Handler (ap_server ap)) (ap_relayService ap))\<^sup>*\<^sup>* (new_process (ap_limiter ap) (su_world s0)) p"
    "app_step (hs_Handler (ap_server ap)) (ap_relayService ap) p p'"
    "db (pr_server p) = stored_db" "disbursements (db (pr_server p')) \<noteq> disbursements (db (pr_server p))" by (rule demo_program)
  from program_changes_entitled[OF run(1) demo_api_ok demo_key_facts(2) demo_program_facts(3,1,2) run(2,3,5)] show ?thesis
    unfolding run(4) demo_Load by (auto simp: demo_config_def)
qed

theorem program_sound_witness:
  "\<exists>ap s0. api_start demo_library demo_api demo_net demo_env (demo_startup stored_db) = (Inr ap, s0)
     \<and> 0 < co_leaseTTL (api_coordinator (hs_Handler (ap_server ap)))"
proof -
  obtain ap s0 p where run: "api_start demo_library demo_api demo_net demo_env (demo_startup stored_db) = (Inr ap, s0)"
    "(app_step (hs_Handler (ap_server ap)) (ap_relayService ap))\<^sup>*\<^sup>* (new_process (ap_limiter ap) (su_world s0)) p" by (rule demo_program)
  from program_sound[OF run(1) demo_api_ok demo_program_facts(1,2) run(2)] show ?thesis using run(1) by blast
qed

end
